(* ===== verification/Prelude.thy ===== *)
theory Prelude
  imports Main "HOL-Library.Word"
begin

unbundle bit_operations_syntax

text \<open>
  Shared vocabulary of the development: the machine-integer types the firmware uses, the
  outcome of a routine that may stop the core, the collections of simplification rules the
  component theories fill, the interface every invariant proof goes through (a transition system
  with an inductive invariant), and the generic lemmas on words and update chains.
\<close>

section \<open>Machine integers\<close>

type_synonym u8 = "8 word"
type_synonym u16 = "16 word"
type_synonym u32 = "32 word"
type_synonym u64 = "64 word"

text \<open>\<open>uintptr_t\<close>, \<open>u_register_t\<close> and \<open>size_t\<close> on AArch64.\<close>

type_synonym uptr = "64 word"

text \<open>The error numbers of \<open>errno.h\<close> the modelled code returns, negated.\<close>

abbreviation (input) EPERM :: int where "EPERM \<equiv> 1"
abbreviation (input) ENOMEM :: int where "ENOMEM \<equiv> 12"
abbreviation (input) EINVAL :: int where "EINVAL \<equiv> 22"
abbreviation (input) ERANGE :: int where "ERANGE \<equiv> 34"

section \<open>Rule collections\<close>

named_theorems psci_defs \<open>unfolding rules of the PSCI accessors\<close>
named_theorems psci_frame \<open>what a PSCI operation leaves unchanged\<close>
named_theorems word_consts \<open>numeric values of the bit-field constants\<close>

section \<open>Outcomes\<close>

text \<open>
  A routine of EL3 firmware either comes back to its caller with a value and the new state, or
  the core ends up waiting for an interrupt, powered down or not, or the core stops in
  \<open>panic()\<close> or in a failed \<open>assert()\<close>. The model follows builds with
  \<open>ENABLE_ASSERTIONS\<close> set, so both of the latter are the branch \<open>Halt\<close>.
\<close>

datatype ('a, 's) outcome = Ret 'a 's | Wfi 's | Halt

fun obind :: "('a, 's) outcome \<Rightarrow> ('a \<Rightarrow> 's \<Rightarrow> ('b, 's) outcome) \<Rightarrow> ('b, 's) outcome" where
  "obind (Ret a s) f = f a s"
| "obind (Wfi s) f = Wfi s"
| "obind Halt f = Halt"

definition oassert :: "bool \<Rightarrow> 's \<Rightarrow> (unit, 's) outcome" where
  "oassert b s = (if b then Ret () s else Halt)"

lemma oassert_simps [simp]:
  "oassert True s = Ret () s"
  "oassert False s = Halt"
  by (simp_all add: oassert_def)

lemma obind_Ret_eq:
  "obind m f = Ret b t \<longleftrightarrow> (\<exists>a s. m = Ret a s \<and> f a s = Ret b t)"
  by (cases m) auto

lemma obind_oassert_eq_Ret:
  "obind (oassert b s) f = Ret a t \<longleftrightarrow> b \<and> f () s = Ret a t"
  by (cases b) auto

section \<open>Transition systems with an inductive invariant\<close>

text \<open>
  States reachable from an initial state by a step relation. Every component that is a state
  machine instantiates the locale below with its own step relation and invariant; the facts
  it exports are what the component's safety properties rest on.
\<close>

inductive reach :: "('s \<Rightarrow> bool) \<Rightarrow> ('s \<Rightarrow> 's \<Rightarrow> bool) \<Rightarrow> 's \<Rightarrow> bool" for init step where
  reach_init: "init s \<Longrightarrow> reach init step s"
| reach_step: "reach init step s \<Longrightarrow> step s t \<Longrightarrow> reach init step t"

locale invariant_system =
  fixes init :: "'s \<Rightarrow> bool"
    and step :: "'s \<Rightarrow> 's \<Rightarrow> bool"
    and inv :: "'s \<Rightarrow> bool"
  assumes inv_init: "init s \<Longrightarrow> inv s"
    and inv_step: "inv s \<Longrightarrow> step s t \<Longrightarrow> inv t"
begin

lemma reach_inv: "reach init step s \<Longrightarrow> inv s"
  by (induction rule: reach.induct) (auto intro: inv_init inv_step)

lemma reach_steps_inv: "step\<^sup>*\<^sup>* s t \<Longrightarrow> inv s \<Longrightarrow> inv t"
  by (induction rule: rtranclp_induct) (auto intro: inv_step)

end

text \<open>
  A system whose steps carry an event, and that implements an abstract one: the abstraction of every step
  that starts in the invariant is a step of the abstract machine for the same event.
\<close>

locale refinement_system = invariant_system init "\<lambda>s t. \<exists>e. step e s t" inv
  for init :: "'s \<Rightarrow> bool" and step :: "'e \<Rightarrow> 's \<Rightarrow> 's \<Rightarrow> bool" and inv +
  fixes abs :: "'s \<Rightarrow> 'a" and astep :: "'e \<Rightarrow> 'a \<Rightarrow> 'a \<Rightarrow> bool"
  assumes simulates: "inv s \<Longrightarrow> step e s t \<Longrightarrow> astep e (abs s) (abs t)"
begin

lemma reach_simulates: "reach init (\<lambda>s t. \<exists>e. step e s t) s \<Longrightarrow> step e s t \<Longrightarrow> astep e (abs s) (abs t)"
  by (rule simulates[OF reach_inv])

end

lemma reach_rtranclp: "step\<^sup>*\<^sup>* s t \<Longrightarrow> reach init step s \<Longrightarrow> reach init step t"
  by (induction rule: rtranclp_induct) (auto intro: reach.reach_step)

section \<open>Words\<close>

lemma bit_less_exp:
  fixes t :: "'a::len word"
  assumes "t < 2 ^ n" and "bit t i"
  shows "i < n"
proof -
  have "bit (t AND mask n) i"
    using assms by (simp add: less_mask_eq)
  then show ?thesis
    by (simp add: bit_simps)
qed

lemma unat_or_disjoint:
  fixes a b :: "'a::len word"
  assumes "a AND b = 0"
  shows "unat (a OR b) = unat a + unat b"
proof -
  have "unat a AND unat b = 0"
    using assms by (metis unsigned_and_eq unsigned_0)
  then have "unat a + unat b = unat a OR unat b"
    by (rule disjunctive_add_eq_or)
  then show ?thesis
    by (simp add: unsigned_or_eq)
qed

lemma unat_u8_less: "unat (m :: u8) < 256"
  using unsigned_less [of m] by simp

lemma unat_u32_less: "unat (n :: u32) < 2 ^ 32"
  using unsigned_less [of n] by simp

lemma unat_u64_less: "unat (n :: u64) < 2 ^ 64"
  using unsigned_less [of n] by simp

lemma unat_u64_of_u32 [simp]: "unat (ucast (n :: u32) :: u64) = unat n"
  using unat_u32_less [of n] by (simp add: unsigned_ucast_eq take_bit_eq_mod)

lemma and_exp: "(a :: u32) AND 2 ^ n = (if bit a n then 2 ^ n else 0)"
  by (rule bit_word_eqI) (auto simp: bit_simps)

end
