(* ===== verification/Psci_Types.thy ===== *)
theory Psci_Types
  imports Prelude
begin

unbundle bit_operations_syntax

text \<open>
  Data of the PSCI service: the constants and helpers of \<open>include/lib/psci/psci.h\<close>, the
  per-CPU and per-domain structures and accessors of \<open>lib/psci/psci_private.h\<close>, the
  Secure Payload Dispatcher hooks of \<open>include/lib/psci/psci_lib.h\<close>, and the state record
  every PSCI operation of the development works on. The platform port (its constants, build options
  and hooks) is the record \<open>platform\<close>, a parameter of the model; \<open>'p\<close> is the type of the
  platform's own state, which only its hooks read and write.
\<close>

section \<open>Return codes and function identifiers\<close>

abbreviation (input) PSCI_E_SUCCESS :: int where "PSCI_E_SUCCESS \<equiv> 0"
abbreviation (input) PSCI_E_NOT_SUPPORTED :: int where "PSCI_E_NOT_SUPPORTED \<equiv> - 1"
abbreviation (input) PSCI_E_INVALID_PARAMS :: int where "PSCI_E_INVALID_PARAMS \<equiv> - 2"
abbreviation (input) PSCI_E_DENIED :: int where "PSCI_E_DENIED \<equiv> - 3"
abbreviation (input) PSCI_E_ALREADY_ON :: int where "PSCI_E_ALREADY_ON \<equiv> - 4"
abbreviation (input) PSCI_E_ON_PENDING :: int where "PSCI_E_ON_PENDING \<equiv> - 5"
abbreviation (input) PSCI_E_INTERN_FAIL :: int where "PSCI_E_INTERN_FAIL \<equiv> - 6"
abbreviation (input) PSCI_E_NOT_PRESENT :: int where "PSCI_E_NOT_PRESENT \<equiv> - 7"
abbreviation (input) PSCI_E_INVALID_ADDRESS :: int where "PSCI_E_INVALID_ADDRESS \<equiv> - 9"

abbreviation (input) PSCI_VERSION :: u32 where "PSCI_VERSION \<equiv> 0x84000000"
abbreviation (input) PSCI_CPU_SUSPEND_AARCH32 :: u32 where "PSCI_CPU_SUSPEND_AARCH32 \<equiv> 0x84000001"
abbreviation (input) PSCI_CPU_SUSPEND_AARCH64 :: u32 where "PSCI_CPU_SUSPEND_AARCH64 \<equiv> 0xc4000001"
abbreviation (input) PSCI_CPU_OFF :: u32 where "PSCI_CPU_OFF \<equiv> 0x84000002"
abbreviation (input) PSCI_CPU_ON_AARCH32 :: u32 where "PSCI_CPU_ON_AARCH32 \<equiv> 0x84000003"
abbreviation (input) PSCI_CPU_ON_AARCH64 :: u32 where "PSCI_CPU_ON_AARCH64 \<equiv> 0xc4000003"
abbreviation (input) PSCI_AFFINITY_INFO_AARCH32 :: u32 where "PSCI_AFFINITY_INFO_AARCH32 \<equiv> 0x84000004"
abbreviation (input) PSCI_AFFINITY_INFO_AARCH64 :: u32 where "PSCI_AFFINITY_INFO_AARCH64 \<equiv> 0xc4000004"
abbreviation (input) PSCI_MIG_AARCH32 :: u32 where "PSCI_MIG_AARCH32 \<equiv> 0x84000005"
abbreviation (input) PSCI_MIG_AARCH64 :: u32 where "PSCI_MIG_AARCH64 \<equiv> 0xc4000005"
abbreviation (input) PSCI_MIG_INFO_TYPE :: u32 where "PSCI_MIG_INFO_TYPE \<equiv> 0x84000006"
abbreviation (input) PSCI_MIG_INFO_UP_CPU_AARCH32 :: u32 where "PSCI_MIG_INFO_UP_CPU_AARCH32 \<equiv> 0x84000007"
abbreviation (input) PSCI_MIG_INFO_UP_CPU_AARCH64 :: u32 where "PSCI_MIG_INFO_UP_CPU_AARCH64 \<equiv> 0xc4000007"
abbreviation (input) PSCI_SYSTEM_OFF :: u32 where "PSCI_SYSTEM_OFF \<equiv> 0x84000008"
abbreviation (input) PSCI_SYSTEM_RESET :: u32 where "PSCI_SYSTEM_RESET \<equiv> 0x84000009"
abbreviation (input) PSCI_FEATURES :: u32 where "PSCI_FEATURES \<equiv> 0x8400000A"
abbreviation (input) PSCI_NODE_HW_STATE_AARCH32 :: u32 where "PSCI_NODE_HW_STATE_AARCH32 \<equiv> 0x8400000d"
abbreviation (input) PSCI_NODE_HW_STATE_AARCH64 :: u32 where "PSCI_NODE_HW_STATE_AARCH64 \<equiv> 0xc400000d"
abbreviation (input) PSCI_SYSTEM_SUSPEND_AARCH32 :: u32 where "PSCI_SYSTEM_SUSPEND_AARCH32 \<equiv> 0x8400000E"
abbreviation (input) PSCI_SYSTEM_SUSPEND_AARCH64 :: u32 where "PSCI_SYSTEM_SUSPEND_AARCH64 \<equiv> 0xc400000E"
abbreviation (input) PSCI_SET_SUSPEND_MODE :: u32 where "PSCI_SET_SUSPEND_MODE \<equiv> 0x8400000F"
abbreviation (input) PSCI_STAT_RESIDENCY_AARCH32 :: u32 where "PSCI_STAT_RESIDENCY_AARCH32 \<equiv> 0x84000010"
abbreviation (input) PSCI_STAT_RESIDENCY_AARCH64 :: u32 where "PSCI_STAT_RESIDENCY_AARCH64 \<equiv> 0xc4000010"
abbreviation (input) PSCI_STAT_COUNT_AARCH32 :: u32 where "PSCI_STAT_COUNT_AARCH32 \<equiv> 0x84000011"
abbreviation (input) PSCI_STAT_COUNT_AARCH64 :: u32 where "PSCI_STAT_COUNT_AARCH64 \<equiv> 0xc4000011"
abbreviation (input) PSCI_SYSTEM_RESET2_AARCH32 :: u32 where "PSCI_SYSTEM_RESET2_AARCH32 \<equiv> 0x84000012"
abbreviation (input) PSCI_SYSTEM_RESET2_AARCH64 :: u32 where "PSCI_SYSTEM_RESET2_AARCH64 \<equiv> 0xc4000012"
abbreviation (input) PSCI_MEM_PROTECT :: u32 where "PSCI_MEM_PROTECT \<equiv> 0x84000013"
abbreviation (input) PSCI_MEM_CHK_RANGE_AARCH32 :: u32 where "PSCI_MEM_CHK_RANGE_AARCH32 \<equiv> 0x84000014"
abbreviation (input) PSCI_MEM_CHK_RANGE_AARCH64 :: u32 where "PSCI_MEM_CHK_RANGE_AARCH64 \<equiv> 0xc4000014"
abbreviation (input) SMCCC_VERSION :: u32 where "SMCCC_VERSION \<equiv> 0x80000000"

abbreviation (input) PSCI_CPU_PWR_LVL :: nat where "PSCI_CPU_PWR_LVL \<equiv> 0"
abbreviation (input) PSCI_MAX_PWR_LVL :: nat where "PSCI_MAX_PWR_LVL \<equiv> 3"
abbreviation (input) PSCI_LOCAL_STATE_RUN :: u8 where "PSCI_LOCAL_STATE_RUN \<equiv> 0"
abbreviation (input) PSCI_INVALID_MPIDR :: u64 where "PSCI_INVALID_MPIDR \<equiv> NOT 0"
abbreviation (input) PSCI_PARENT_NODE_INVALID :: nat where "PSCI_PARENT_NODE_INVALID \<equiv> 0xFFFFFFFF"
abbreviation (input) MPIDR_AFFINITY_MASK :: u64 where "MPIDR_AFFINITY_MASK \<equiv> 0xff00ffffff"

section \<open>Structures\<close>

datatype aff_info_state = AFF_STATE_ON | AFF_STATE_OFF | AFF_STATE_ON_PENDING

definition aff_info_code :: "aff_info_state \<Rightarrow> int" where
  "aff_info_code a = (case a of AFF_STATE_ON \<Rightarrow> 0 | AFF_STATE_OFF \<Rightarrow> 1 | AFF_STATE_ON_PENDING \<Rightarrow> 2)"

datatype suspend_mode = PLAT_COORD | OS_INIT

definition suspend_mode_code :: "suspend_mode \<Rightarrow> u32" where
  "suspend_mode_code m = (case m of PLAT_COORD \<Rightarrow> 0 | OS_INIT \<Rightarrow> 1)"

record psci_power_state =
  pwr_domain_state :: "nat \<Rightarrow> u8"
  last_at_pwrlvl :: nat

record psci_cpu_data =
  aff_info_state :: aff_info_state
  target_pwrlvl :: nat
  local_state :: u8

record non_cpu_pd_node =
  cpu_start_idx :: nat
  ncpus :: nat
  parent_node :: nat
  first_child_idx :: nat
  num_children :: nat
  node_local_state :: u8
  node_level :: nat
  lock_index :: nat

record cpu_pd_node =
  cpu_mpidr :: u64
  cpu_parent_node :: nat

record psci_stat =
  residency :: u64
  count :: u64

text \<open>
  \<open>entry_point_info_t\<close> of \<open>include/export/common/ep_info_exp.h\<close>; of its header only
  the attributes vary.
\<close>

record entry_point_info =
  ep_attr :: u32
  ep_pc :: uptr
  ep_spsr :: u32
  ep_args :: "u64 list"

section \<open>The platform port\<close>

record 'p plat_psci_ops =
  cpu_standby :: "(u8 \<Rightarrow> 'p \<Rightarrow> 'p) option"
  pwr_domain_on :: "(u64 \<Rightarrow> 'p \<Rightarrow> int \<times> 'p) option"
  pwr_domain_off :: "(psci_power_state \<Rightarrow> 'p \<Rightarrow> 'p) option"
  pwr_domain_off_early :: "(psci_power_state \<Rightarrow> 'p \<Rightarrow> int \<times> 'p) option"
  pwr_domain_validate_suspend :: "(psci_power_state \<Rightarrow> 'p \<Rightarrow> int \<times> 'p) option"
  pwr_domain_suspend_pwrdown_early :: "(psci_power_state \<Rightarrow> 'p \<Rightarrow> 'p) option"
  pwr_domain_suspend :: "(psci_power_state \<Rightarrow> 'p \<Rightarrow> 'p) option"
  pwr_domain_on_finish :: "(psci_power_state \<Rightarrow> 'p \<Rightarrow> 'p) option"
  pwr_domain_on_finish_late :: "(psci_power_state \<Rightarrow> 'p \<Rightarrow> 'p) option"
  pwr_domain_suspend_finish :: "(psci_power_state \<Rightarrow> 'p \<Rightarrow> 'p) option"
  pwr_domain_pwr_down :: "(psci_power_state \<Rightarrow> 'p \<Rightarrow> 'p) option"
  system_off :: "('p \<Rightarrow> 'p) option"
  system_reset :: "('p \<Rightarrow> 'p) option"
  validate_power_state :: "(u32 \<Rightarrow> psci_power_state \<Rightarrow> 'p \<Rightarrow> int \<times> psci_power_state) option"
  validate_ns_entrypoint :: "(uptr \<Rightarrow> 'p \<Rightarrow> int) option"
  get_sys_suspend_power_state :: "(psci_power_state \<Rightarrow> 'p \<Rightarrow> psci_power_state) option"
  get_pwr_lvl_state_idx :: "(u8 \<Rightarrow> nat \<Rightarrow> nat) option"
  translate_power_state_by_mpidr ::
    "(u64 \<Rightarrow> u32 \<Rightarrow> psci_power_state \<Rightarrow> 'p \<Rightarrow> int \<times> psci_power_state) option"
  get_node_hw_state :: "(u64 \<Rightarrow> nat \<Rightarrow> 'p \<Rightarrow> int) option"
  mem_protect_chk :: "(uptr \<Rightarrow> u64 \<Rightarrow> 'p \<Rightarrow> int) option"
  read_mem_protect :: "('p \<Rightarrow> int \<times> int) option"
  write_mem_protect :: "(int \<Rightarrow> 'p \<Rightarrow> int \<times> 'p) option"
  system_reset2 :: "(bool \<Rightarrow> u32 \<Rightarrow> u64 \<Rightarrow> 'p \<Rightarrow> int \<times> 'p) option"

record 'p spd_pm_ops =
  svc_on :: "(u64 \<Rightarrow> 'p \<Rightarrow> 'p) option"
  svc_off :: "(u64 \<Rightarrow> 'p \<Rightarrow> int \<times> 'p) option"
  svc_suspend :: "(nat \<Rightarrow> 'p \<Rightarrow> 'p) option"
  svc_on_finish :: "(u64 \<Rightarrow> 'p \<Rightarrow> 'p) option"
  svc_suspend_finish :: "(nat \<Rightarrow> bool \<Rightarrow> 'p \<Rightarrow> 'p) option"
  svc_migrate :: "(u64 \<Rightarrow> u64 \<Rightarrow> 'p \<Rightarrow> int \<times> 'p) option"
  svc_migrate_info :: "(u64 \<Rightarrow> 'p \<Rightarrow> int \<times> u64) option"
  svc_system_off :: "('p \<Rightarrow> 'p) option"
  svc_system_reset :: "('p \<Rightarrow> 'p) option"

text \<open>
  What the platform port and the build fix: the constants of \<open>platform_def.h\<close>, the build
  options that select code, the hooks, the weak or per-platform functions the generic code calls,
  the registers it reads, the CPU driver, and what a local \<open>psci_power_state_t\<close> holds that the
  code does not initialise.
\<close>

record 'p platform =
  PLAT_MAX_PWR_LVL :: nat
  PLATFORM_CORE_COUNT :: nat
  PSCI_NUM_NON_CPU_PWR_DOMAINS :: nat
  PLAT_MAX_RET_STATE :: u8
  PLAT_MAX_OFF_STATE :: u8
  PLAT_MAX_PWR_LVL_STATES :: nat
  PLAT_MAX_CPU_SUSPEND_PWR_LVL :: "nat option"
  HW_ASSISTED_COHERENCY :: bool
  PSCI_OS_INIT_MODE :: bool
  ENABLE_PSCI_STAT :: bool
  PSCI_EXTENDED_STATE_ID :: bool
  ENABLE_RMM :: bool
  psci_plat_pm_ops :: "'p plat_psci_ops"
  plat_core_pos_by_mpidr :: "u64 \<Rightarrow> int"
  plat_get_target_pwr_state :: "nat \<Rightarrow> u8 list \<Rightarrow> u8 option"
  plat_psci_stat_accounting_start :: "psci_power_state \<Rightarrow> 'p \<Rightarrow> 'p"
  plat_psci_stat_accounting_stop :: "psci_power_state \<Rightarrow> 'p \<Rightarrow> 'p"
  plat_psci_stat_get_residency :: "nat \<Rightarrow> psci_power_state \<Rightarrow> nat \<Rightarrow> 'p \<Rightarrow> u64"
  plat_get_power_domain_tree_desc :: "nat list"
  read_isr_el1 :: "'p \<Rightarrow> u64"
  read_mpidr :: "nat \<Rightarrow> u64"
  read_scr_el3 :: "'p \<Rightarrow> u64"
  read_sctlr_el1 :: "'p \<Rightarrow> u64"
  read_sctlr_el2 :: "'p \<Rightarrow> u64"
  pwr_dwn_op :: "nat \<Rightarrow> 'p \<Rightarrow> u64 \<times> 'p"
  terminal_wakeups :: "'p \<Rightarrow> nat"
  uninit_state :: psci_power_state

definition PSCI_INVALID_PWR_LVL :: "'p platform \<Rightarrow> nat" where
  "PSCI_INVALID_PWR_LVL pf = PLAT_MAX_PWR_LVL pf + 1"

section \<open>The state of the PSCI service\<close>

text \<open>
  The lock operations a core performs, as a trace: the locks of the non-CPU nodes by their
  \<open>lock_index\<close> and the spin locks of the CPU nodes by CPU index.
\<close>

datatype lock_event = Lock_Get nat | Lock_Release nat | Spin_Lock_Cpu nat | Spin_Unlock_Cpu nat

text \<open>
  What a core that sits in \<open>wfi\<close> has on its stack, for the calls that come back to it when it
  wakes up without having lost power: the local standby of \<open>psci_cpu_suspend\<close>, and the
  variables \<open>end_pwrlvl\<close>, \<open>parent_nodes\<close>, \<open>state_info\<close>,
  \<open>is_power_down_state\<close> and \<open>max_off_lvl\<close> of \<open>psci_cpu_suspend_start\<close>, which are
  live after the \<open>wfi\<close>.
\<close>

datatype wfi_frame =
    Cpu_Standby psci_power_state
  | Suspended nat "nat list" psci_power_state bool nat

text \<open>\<open>ns_context\<close> is what \<open>cm_init_my_context\<close> was last given on a CPU.\<close>

record 'p psci_state =
  psci_req_local_pwr_states :: "nat \<Rightarrow> nat \<Rightarrow> u8"
  psci_non_cpu_pd_nodes :: "nat \<Rightarrow> non_cpu_pd_node"
  psci_cpu_pd_nodes :: "nat \<Rightarrow> cpu_pd_node"
  psci_svc_cpu_data :: "nat \<Rightarrow> psci_cpu_data"
  warmboot_ep_info :: "nat \<Rightarrow> entry_point_info"
  psci_caps :: u32
  psci_plat_core_count :: nat
  psci_suspend_mode :: suspend_mode
  psci_spd_pm :: "'p spd_pm_ops option"
  psci_cpu_stat :: "nat \<Rightarrow> nat \<Rightarrow> psci_stat"
  psci_non_cpu_stat :: "nat \<Rightarrow> nat \<Rightarrow> psci_stat"
  last_cpu_in_non_cpu_pd :: "nat \<Rightarrow> int"
  lock_log :: "lock_event list"
  stack :: "nat \<Rightarrow> wfi_frame option"
  ns_context :: "nat \<Rightarrow> entry_point_info option"
  plat :: 'p

section \<open>Helpers of the headers\<close>

definition define_psci_cap :: "u32 \<Rightarrow> u32" where
  "define_psci_cap x = push_bit (unat (x AND 0x1f)) 1"

definition psci_check_power_state :: "'p platform \<Rightarrow> u32 \<Rightarrow> u32" where
  "psci_check_power_state pf power_state =
     power_state AND (if PSCI_EXTENDED_STATE_ID pf then 0xB0000000 else 0xFCFE0000)"

definition psci_get_pstate_type :: "'p platform \<Rightarrow> u32 \<Rightarrow> u32" where
  "psci_get_pstate_type pf power_state =
     drop_bit (if PSCI_EXTENDED_STATE_ID pf then 30 else 16) power_state AND 0x1"

definition psci_get_pstate_id :: "'p platform \<Rightarrow> u32 \<Rightarrow> u32" where
  "psci_get_pstate_id pf power_state =
     power_state AND (if PSCI_EXTENDED_STATE_ID pf then 0xfffffff else 0xffff)"

definition psci_get_pstate_pwrlvl :: "u32 \<Rightarrow> u32" where
  "psci_get_pstate_pwrlvl pstate = drop_bit 24 pstate AND 0x3"

definition psci_make_powerstate :: "u32 \<Rightarrow> u32 \<Rightarrow> u32 \<Rightarrow> u32" where
  "psci_make_powerstate state_id type pwrlvl =
     (state_id AND 0xffff) OR push_bit 16 (type AND 0x1) OR push_bit 24 (pwrlvl AND 0x3)"

definition is_local_state_run :: "u8 \<Rightarrow> bool" where
  "is_local_state_run st \<longleftrightarrow> st = PSCI_LOCAL_STATE_RUN"

definition is_local_state_retn :: "'p platform \<Rightarrow> u8 \<Rightarrow> bool" where
  "is_local_state_retn pf st \<longleftrightarrow> st > PSCI_LOCAL_STATE_RUN \<and> st \<le> PLAT_MAX_RET_STATE pf"

definition is_local_state_off :: "'p platform \<Rightarrow> u8 \<Rightarrow> bool" where
  "is_local_state_off pf st \<longleftrightarrow> st > PLAT_MAX_RET_STATE pf \<and> st \<le> PLAT_MAX_OFF_STATE pf"

definition is_cpu_standby_req :: "bool \<Rightarrow> nat \<Rightarrow> bool" where
  "is_cpu_standby_req power_down retn_lvl \<longleftrightarrow> \<not> power_down \<and> retn_lvl = 0"

definition is_valid_mpidr :: "'p platform \<Rightarrow> u64 \<Rightarrow> bool" where
  "is_valid_mpidr pf mpidr \<longleftrightarrow>
     \<not> (plat_core_pos_by_mpidr pf mpidr < 0 \<or>
        nat (plat_core_pos_by_mpidr pf mpidr) \<ge> PLATFORM_CORE_COUNT pf)"

text \<open>The conversion \<open>(unsigned int) plat_core_pos_by_mpidr(mpidr)\<close>.\<close>

definition core_pos :: "'p platform \<Rightarrow> u64 \<Rightarrow> nat" where
  "core_pos pf mpidr = nat (plat_core_pos_by_mpidr pf mpidr mod 2 ^ 32)"

section \<open>Accessors of the per-CPU data and the nodes\<close>

definition upd_cpu_data :: "nat \<Rightarrow> (psci_cpu_data \<Rightarrow> psci_cpu_data) \<Rightarrow> 'p psci_state \<Rightarrow> 'p psci_state" where
  "upd_cpu_data i f s = s\<lparr>psci_svc_cpu_data := (psci_svc_cpu_data s)(i := f (psci_svc_cpu_data s i))\<rparr>"

definition psci_set_aff_info_state_by_idx :: "nat \<Rightarrow> aff_info_state \<Rightarrow> 'p psci_state \<Rightarrow> 'p psci_state" where
  "psci_set_aff_info_state_by_idx i a s = upd_cpu_data i (\<lambda>d. d\<lparr>aff_info_state := a\<rparr>) s"

definition psci_get_aff_info_state_by_idx :: "nat \<Rightarrow> 'p psci_state \<Rightarrow> aff_info_state" where
  "psci_get_aff_info_state_by_idx i s = aff_info_state (psci_svc_cpu_data s i)"

definition psci_set_suspend_pwrlvl :: "nat \<Rightarrow> nat \<Rightarrow> 'p psci_state \<Rightarrow> 'p psci_state" where
  "psci_set_suspend_pwrlvl i lvl s = upd_cpu_data i (\<lambda>d. d\<lparr>target_pwrlvl := lvl\<rparr>) s"

definition psci_get_suspend_pwrlvl :: "nat \<Rightarrow> 'p psci_state \<Rightarrow> nat" where
  "psci_get_suspend_pwrlvl i s = target_pwrlvl (psci_svc_cpu_data s i)"

definition psci_set_cpu_local_state :: "nat \<Rightarrow> u8 \<Rightarrow> 'p psci_state \<Rightarrow> 'p psci_state" where
  "psci_set_cpu_local_state i st s = upd_cpu_data i (\<lambda>d. d\<lparr>local_state := st\<rparr>) s"

definition psci_get_cpu_local_state_by_idx :: "nat \<Rightarrow> 'p psci_state \<Rightarrow> u8" where
  "psci_get_cpu_local_state_by_idx i s = local_state (psci_svc_cpu_data s i)"

definition get_non_cpu_pd_node_local_state :: "nat \<Rightarrow> 'p psci_state \<Rightarrow> u8" where
  "get_non_cpu_pd_node_local_state n s = node_local_state (psci_non_cpu_pd_nodes s n)"

definition set_non_cpu_pd_node_local_state :: "nat \<Rightarrow> u8 \<Rightarrow> 'p psci_state \<Rightarrow> 'p psci_state" where
  "set_non_cpu_pd_node_local_state n st s =
     s\<lparr>psci_non_cpu_pd_nodes :=
        (psci_non_cpu_pd_nodes s)(n := (psci_non_cpu_pd_nodes s n)\<lparr>node_local_state := st\<rparr>)\<rparr>"

definition log_lock :: "lock_event \<Rightarrow> 'p psci_state \<Rightarrow> 'p psci_state" where
  "log_lock e s = s\<lparr>lock_log := lock_log s @ [e]\<rparr>"

definition psci_lock_get :: "nat \<Rightarrow> 'p psci_state \<Rightarrow> 'p psci_state" where
  "psci_lock_get n s = log_lock (Lock_Get (lock_index (psci_non_cpu_pd_nodes s n))) s"

definition psci_lock_release :: "nat \<Rightarrow> 'p psci_state \<Rightarrow> 'p psci_state" where
  "psci_lock_release n s = log_lock (Lock_Release (lock_index (psci_non_cpu_pd_nodes s n))) s"

text \<open>A call of a hook the platform or the dispatcher may leave unset.\<close>

definition on_plat :: "('p \<Rightarrow> 'p) \<Rightarrow> 'p psci_state \<Rightarrow> 'p psci_state" where
  "on_plat f s = s\<lparr>plat := f (plat s)\<rparr>"

definition call_hook :: "('p \<Rightarrow> 'p) option \<Rightarrow> 'p psci_state \<Rightarrow> 'p psci_state" where
  "call_hook h s = (case h of None \<Rightarrow> s | Some f \<Rightarrow> on_plat f s)"

definition call_hook_rc :: "int \<Rightarrow> ('p \<Rightarrow> int \<times> 'p) option \<Rightarrow> 'p psci_state \<Rightarrow> int \<times> 'p psci_state" where
  "call_hook_rc rc h s = (case h of None \<Rightarrow> (rc, s) | Some f \<Rightarrow>
     (let (rc', p) = f (plat s) in (rc', s\<lparr>plat := p\<rparr>)))"

definition spd_hook :: "('p spd_pm_ops \<Rightarrow> 'a option) \<Rightarrow> 'p psci_state \<Rightarrow> 'a option" where
  "spd_hook sel s = (case psci_spd_pm s of None \<Rightarrow> None | Some spd \<Rightarrow> sel spd)"

lemmas psci_access [psci_defs] =
  upd_cpu_data_def psci_set_aff_info_state_by_idx_def psci_get_aff_info_state_by_idx_def
  psci_set_suspend_pwrlvl_def psci_get_suspend_pwrlvl_def psci_set_cpu_local_state_def
  psci_get_cpu_local_state_by_idx_def get_non_cpu_pd_node_local_state_def
  set_non_cpu_pd_node_local_state_def log_lock_def psci_lock_get_def psci_lock_release_def
  on_plat_def

end
