(* ===== verification/Psci_Common.thy ===== *)
theory Psci_Common
  imports Psci_Types
begin

unbundle bit_operations_syntax

text \<open>
  The shared routines of the PSCI service, \<open>lib/psci/psci_common.c\<close>: classification and
  validation of composite power states, the walk over the power-domain tree, the requested and the
  target states of the domains, state coordination in platform-coordinated and in OS-initiated
  mode, the locks of the domains and the validation of entry points; and the platform's default
  coordinator of \<open>plat/common/plat_psci_common.c\<close>.
\<close>

section \<open>Classification of local states\<close>

datatype plat_local_state_type = STATE_TYPE_RUN | STATE_TYPE_RETN | STATE_TYPE_OFF

definition state_type_rank :: "plat_local_state_type \<Rightarrow> nat" where
  "state_type_rank t = (case t of STATE_TYPE_RUN \<Rightarrow> 0 | STATE_TYPE_RETN \<Rightarrow> 1 | STATE_TYPE_OFF \<Rightarrow> 2)"

definition find_local_state_type :: "'p platform \<Rightarrow> u8 \<Rightarrow> plat_local_state_type" where
  "find_local_state_type pf st =
     (if st \<noteq> 0 then (if st > PLAT_MAX_RET_STATE pf then STATE_TYPE_OFF else STATE_TYPE_RETN)
      else STATE_TYPE_RUN)"

section \<open>Power-state parameters\<close>

definition psci_validate_power_state ::
  "'p platform \<Rightarrow> u32 \<Rightarrow> psci_power_state \<Rightarrow> 'p psci_state \<Rightarrow> (int \<times> psci_power_state, 'p psci_state) outcome" where
  "psci_validate_power_state pf power_state state_info s =
     (if psci_check_power_state pf power_state \<noteq> 0 then Ret (PSCI_E_INVALID_PARAMS, state_info) s
      else case validate_power_state (psci_plat_pm_ops pf) of
             None \<Rightarrow> Halt
           | Some f \<Rightarrow> Ret (f power_state state_info (plat s)) s)"

definition psci_query_sys_suspend_pwrstate ::
  "'p platform \<Rightarrow> psci_power_state \<Rightarrow> 'p psci_state \<Rightarrow> (psci_power_state, 'p psci_state) outcome" where
  "psci_query_sys_suspend_pwrstate pf state_info s =
     (case get_sys_suspend_power_state (psci_plat_pm_ops pf) of
        None \<Rightarrow> Halt
      | Some f \<Rightarrow> Ret (f state_info (plat s)) s)"

text \<open>The loops that look for a level from \<open>PLAT_MAX_PWR_LVL\<close> down to the CPU level.\<close>

fun find_lvl_down :: "(u8 \<Rightarrow> bool) \<Rightarrow> (nat \<Rightarrow> u8) \<Rightarrow> nat \<Rightarrow> nat option" where
  "find_lvl_down P st 0 = (if P (st 0) then Some 0 else None)"
| "find_lvl_down P st (Suc i) = (if P (st (Suc i)) then Some (Suc i) else find_lvl_down P st i)"

definition psci_find_max_off_lvl :: "'p platform \<Rightarrow> psci_power_state \<Rightarrow> nat" where
  "psci_find_max_off_lvl pf state_info =
     (case find_lvl_down (is_local_state_off pf) (pwr_domain_state state_info) (PLAT_MAX_PWR_LVL pf) of
        Some i \<Rightarrow> i
      | None \<Rightarrow> PSCI_INVALID_PWR_LVL pf)"

definition psci_find_target_suspend_lvl :: "'p platform \<Rightarrow> psci_power_state \<Rightarrow> nat" where
  "psci_find_target_suspend_lvl pf state_info =
     (case find_lvl_down (\<lambda>st. \<not> is_local_state_run st) (pwr_domain_state state_info) (PLAT_MAX_PWR_LVL pf) of
        Some i \<Rightarrow> i
      | None \<Rightarrow> PSCI_INVALID_PWR_LVL pf)"

text \<open>
  The descending loop of \<open>psci_validate_suspend_req\<close>: every level at least as deep, by type, as
  the level above it. The second argument is \<open>deepest_state_type\<close>.
\<close>

fun suspend_req_types_ok :: "'p platform \<Rightarrow> plat_local_state_type \<Rightarrow> (nat \<Rightarrow> u8) \<Rightarrow> nat \<Rightarrow> bool" where
  "suspend_req_types_ok pf deepest st 0 =
     (\<not> state_type_rank (find_local_state_type pf (st 0)) < state_type_rank deepest)"
| "suspend_req_types_ok pf deepest st (Suc i) =
     (if state_type_rank (find_local_state_type pf (st (Suc i))) < state_type_rank deepest then False
      else suspend_req_types_ok pf (find_local_state_type pf (st (Suc i))) st i)"

definition psci_validate_suspend_req :: "'p platform \<Rightarrow> psci_power_state \<Rightarrow> bool \<Rightarrow> int" where
  "psci_validate_suspend_req pf state_info power_down =
     (let target_lvl = psci_find_target_suspend_lvl pf state_info in
      if target_lvl = PSCI_INVALID_PWR_LVL pf then PSCI_E_INVALID_PARAMS
      else if \<not> suspend_req_types_ok pf STATE_TYPE_RUN (pwr_domain_state state_info) target_lvl
      then PSCI_E_INVALID_PARAMS
      else let max_off_lvl = psci_find_max_off_lvl pf state_info;
               max_retn_lvl = (if target_lvl \<noteq> max_off_lvl then target_lvl else PSCI_INVALID_PWR_LVL pf)
           in if \<not> power_down \<and>
                 (max_off_lvl \<noteq> PSCI_INVALID_PWR_LVL pf \<or> max_retn_lvl = PSCI_INVALID_PWR_LVL pf)
              then PSCI_E_INVALID_PARAMS
              else PSCI_E_SUCCESS)"

section \<open>Which CPUs are up\<close>

text \<open>
  The loop over CPUs of \<open>psci_is_last_on_cpu\<close>, from \<open>cpu_idx\<close> with \<open>k\<close> CPUs to go;
  \<open>None\<close> is the failed assertion that the calling CPU is on.
\<close>

fun is_last_on_cpu_loop :: "nat \<Rightarrow> nat \<Rightarrow> nat \<Rightarrow> 'p psci_state \<Rightarrow> bool option" where
  "is_last_on_cpu_loop my_idx cpu_idx 0 s = Some True"
| "is_last_on_cpu_loop my_idx cpu_idx (Suc k) s =
     (if cpu_idx = my_idx
      then if psci_get_aff_info_state_by_idx my_idx s = AFF_STATE_ON
           then is_last_on_cpu_loop my_idx (Suc cpu_idx) k s else None
      else if psci_get_aff_info_state_by_idx cpu_idx s \<noteq> AFF_STATE_OFF then Some False
      else is_last_on_cpu_loop my_idx (Suc cpu_idx) k s)"

definition psci_is_last_on_cpu :: "nat \<Rightarrow> 'p psci_state \<Rightarrow> (bool, 'p psci_state) outcome" where
  "psci_is_last_on_cpu my_idx s =
     (case is_last_on_cpu_loop my_idx 0 (psci_plat_core_count s) s of None \<Rightarrow> Halt | Some b \<Rightarrow> Ret b s)"

fun are_all_cpus_on_loop :: "nat \<Rightarrow> nat \<Rightarrow> 'p psci_state \<Rightarrow> bool" where
  "are_all_cpus_on_loop cpu_idx 0 s = True"
| "are_all_cpus_on_loop cpu_idx (Suc k) s =
     (if psci_get_aff_info_state_by_idx cpu_idx s = AFF_STATE_OFF then False
      else are_all_cpus_on_loop (Suc cpu_idx) k s)"

definition psci_are_all_cpus_on :: "'p psci_state \<Rightarrow> bool" where
  "psci_are_all_cpus_on s = are_all_cpus_on_loop 0 (psci_plat_core_count s) s"

fun num_cpus_running_loop :: "nat \<Rightarrow> nat \<Rightarrow> nat \<Rightarrow> 'p psci_state \<Rightarrow> nat" where
  "num_cpus_running_loop cpu_idx 0 no_of_cpus s = no_of_cpus"
| "num_cpus_running_loop cpu_idx (Suc k) no_of_cpus s =
     num_cpus_running_loop (Suc cpu_idx) k
       (if psci_get_aff_info_state_by_idx cpu_idx s = AFF_STATE_ON \<or>
           psci_get_aff_info_state_by_idx cpu_idx s = AFF_STATE_ON_PENDING
        then no_of_cpus + 1 else no_of_cpus) s"

definition psci_num_cpus_running :: "'p psci_state \<Rightarrow> nat" where
  "psci_num_cpus_running s = num_cpus_running_loop 0 (psci_plat_core_count s) 0 s"

definition get_power_on_target_pwrlvl :: "'p platform \<Rightarrow> nat \<Rightarrow> 'p psci_state \<Rightarrow> nat option" where
  "get_power_on_target_pwrlvl pf me s =
     (let pwrlvl = psci_get_suspend_pwrlvl me s
      in if pwrlvl < PSCI_INVALID_PWR_LVL pf then Some pwrlvl else None)"

section \<open>Requested states\<close>

definition psci_set_req_local_pwr_state ::
  "'p platform \<Rightarrow> nat \<Rightarrow> nat \<Rightarrow> u8 \<Rightarrow> 'p psci_state \<Rightarrow> 'p psci_state" where
  "psci_set_req_local_pwr_state pf pwrlvl cpu_idx req s =
     (if pwrlvl > PSCI_CPU_PWR_LVL \<and> pwrlvl \<le> PLAT_MAX_PWR_LVL pf \<and> cpu_idx < psci_plat_core_count s
      then s\<lparr>psci_req_local_pwr_states :=
               (psci_req_local_pwr_states s)(pwrlvl - 1 :=
                 (psci_req_local_pwr_states s (pwrlvl - 1))(cpu_idx := req))\<rparr>
      else s)"

text \<open>\<open>psci_get_req_local_pwr_states\<close> with the \<open>n\<close> entries its callers read from the reference.\<close>

definition psci_get_req_local_pwr_states ::
  "'p platform \<Rightarrow> nat \<Rightarrow> nat \<Rightarrow> nat \<Rightarrow> 'p psci_state \<Rightarrow> u8 list option" where
  "psci_get_req_local_pwr_states pf pwrlvl cpu_idx n s =
     (if pwrlvl > PSCI_CPU_PWR_LVL \<and> pwrlvl \<le> PLAT_MAX_PWR_LVL pf \<and> cpu_idx < psci_plat_core_count s
      then Some (map (psci_req_local_pwr_states s (pwrlvl - 1)) [cpu_idx ..< cpu_idx + n])
      else None)"

definition psci_init_req_local_pwr_states :: "'p platform \<Rightarrow> 'p psci_state \<Rightarrow> 'p psci_state" where
  "psci_init_req_local_pwr_states pf s =
     s\<lparr>psci_req_local_pwr_states := (\<lambda>pwrlvl core.
        if pwrlvl < PLAT_MAX_PWR_LVL pf \<and> core < psci_plat_core_count s then PLAT_MAX_OFF_STATE pf
        else psci_req_local_pwr_states s pwrlvl core)\<rparr>"

definition max_cpu_suspend_pwrlvl :: "'p platform \<Rightarrow> nat" where
  "max_cpu_suspend_pwrlvl pf =
     (case PLAT_MAX_CPU_SUSPEND_PWR_LVL pf of Some l \<Rightarrow> l | None \<Rightarrow> PLAT_MAX_PWR_LVL pf)"

text \<open>
  Loops over levels \<open>lvl = 1 .. end_pwrlvl\<close> are recursions on the number of levels to go,
  with the level and the node reached so far as arguments.
\<close>

fun update_req_loop ::
  "'p platform \<Rightarrow> nat \<Rightarrow> nat \<Rightarrow> nat \<Rightarrow> nat \<Rightarrow> psci_power_state \<Rightarrow> (nat \<Rightarrow> u8) \<Rightarrow> 'p psci_state
     \<Rightarrow> ((nat \<Rightarrow> u8), 'p psci_state) outcome" where
  "update_req_loop pf 0 lvl end_lvl cpu_idx state_info prev s = Ret prev s"
| "update_req_loop pf (Suc k) lvl end_lvl cpu_idx state_info prev s =
     (case psci_get_req_local_pwr_states pf lvl cpu_idx 1 s of
        None \<Rightarrow> Halt
      | Some old \<Rightarrow>
          let req_state = (if lvl \<le> end_lvl then pwr_domain_state state_info lvl
                           else pwr_domain_state state_info end_lvl)
          in update_req_loop pf k (lvl + 1) end_lvl cpu_idx state_info (prev(lvl - 1 := hd old))
               (psci_set_req_local_pwr_state pf lvl cpu_idx req_state s))"

definition psci_update_req_local_pwr_states ::
  "'p platform \<Rightarrow> nat \<Rightarrow> nat \<Rightarrow> psci_power_state \<Rightarrow> 'p psci_state \<Rightarrow> ((nat \<Rightarrow> u8), 'p psci_state) outcome" where
  "psci_update_req_local_pwr_states pf end_lvl cpu_idx state_info s =
     update_req_loop pf (max_cpu_suspend_pwrlvl pf) 1 end_lvl cpu_idx state_info (\<lambda>_. 0) s"

fun restore_req_loop :: "'p platform \<Rightarrow> nat \<Rightarrow> nat \<Rightarrow> nat \<Rightarrow> (nat \<Rightarrow> u8) \<Rightarrow> 'p psci_state \<Rightarrow> 'p psci_state" where
  "restore_req_loop pf 0 lvl cpu_idx prev s = s"
| "restore_req_loop pf (Suc k) lvl cpu_idx prev s =
     restore_req_loop pf k (lvl + 1) cpu_idx prev (psci_set_req_local_pwr_state pf lvl cpu_idx (prev (lvl - 1)) s)"

definition psci_restore_req_local_pwr_states ::
  "'p platform \<Rightarrow> nat \<Rightarrow> (nat \<Rightarrow> u8) \<Rightarrow> 'p psci_state \<Rightarrow> 'p psci_state" where
  "psci_restore_req_local_pwr_states pf cpu_idx prev s =
     restore_req_loop pf (max_cpu_suspend_pwrlvl pf) 1 cpu_idx prev s"

section \<open>Target states of the domains\<close>

fun get_target_loop :: "nat \<Rightarrow> nat \<Rightarrow> nat \<Rightarrow> (nat \<Rightarrow> u8) \<Rightarrow> 'p psci_state \<Rightarrow> (nat \<Rightarrow> u8)" where
  "get_target_loop 0 lvl parent_idx pd_state s = pd_state"
| "get_target_loop (Suc k) lvl parent_idx pd_state s =
     get_target_loop k (lvl + 1) (parent_node (psci_non_cpu_pd_nodes s parent_idx))
       (pd_state(lvl := get_non_cpu_pd_node_local_state parent_idx s)) s"

definition psci_get_target_local_pwr_states ::
  "'p platform \<Rightarrow> nat \<Rightarrow> nat \<Rightarrow> psci_power_state \<Rightarrow> 'p psci_state \<Rightarrow> psci_power_state" where
  "psci_get_target_local_pwr_states pf cpu_idx end_lvl target_state s =
     (let pd0 = (pwr_domain_state target_state)(PSCI_CPU_PWR_LVL := psci_get_cpu_local_state_by_idx cpu_idx s);
          pd = get_target_loop end_lvl 1 (cpu_parent_node (psci_cpu_pd_nodes s cpu_idx)) pd0 s
      in target_state\<lparr>pwr_domain_state :=
           (\<lambda>lvl. if end_lvl < lvl \<and> lvl \<le> PLAT_MAX_PWR_LVL pf then PSCI_LOCAL_STATE_RUN else pd lvl)\<rparr>)"

fun set_target_loop :: "nat \<Rightarrow> nat \<Rightarrow> nat \<Rightarrow> (nat \<Rightarrow> u8) \<Rightarrow> 'p psci_state \<Rightarrow> 'p psci_state" where
  "set_target_loop 0 lvl parent_idx pd_state s = s"
| "set_target_loop (Suc k) lvl parent_idx pd_state s =
     (let s' = set_non_cpu_pd_node_local_state parent_idx (pd_state lvl) s
      in set_target_loop k (lvl + 1) (parent_node (psci_non_cpu_pd_nodes s' parent_idx)) pd_state s')"

definition psci_set_target_local_pwr_states ::
  "nat \<Rightarrow> nat \<Rightarrow> psci_power_state \<Rightarrow> 'p psci_state \<Rightarrow> 'p psci_state" where
  "psci_set_target_local_pwr_states cpu_idx end_lvl target_state s =
     (let pd_state = pwr_domain_state target_state;
          s1 = psci_set_cpu_local_state cpu_idx (pd_state PSCI_CPU_PWR_LVL) s
      in set_target_loop end_lvl 1 (cpu_parent_node (psci_cpu_pd_nodes s1 cpu_idx)) pd_state s1)"

fun get_parent_loop :: "nat \<Rightarrow> nat \<Rightarrow> 'p psci_state \<Rightarrow> nat list" where
  "get_parent_loop 0 parent_idx s = []"
| "get_parent_loop (Suc k) parent_idx s =
     parent_idx # get_parent_loop k (parent_node (psci_non_cpu_pd_nodes s parent_idx)) s"

definition psci_get_parent_pwr_domain_nodes :: "nat \<Rightarrow> nat \<Rightarrow> 'p psci_state \<Rightarrow> nat list" where
  "psci_get_parent_pwr_domain_nodes cpu_idx end_lvl s =
     get_parent_loop end_lvl (cpu_parent_node (psci_cpu_pd_nodes s cpu_idx)) s"

fun set_to_run_loop :: "'p platform \<Rightarrow> nat \<Rightarrow> nat \<Rightarrow> nat \<Rightarrow> nat \<Rightarrow> 'p psci_state \<Rightarrow> 'p psci_state" where
  "set_to_run_loop pf 0 lvl parent_idx cpu_idx s = s"
| "set_to_run_loop pf (Suc k) lvl parent_idx cpu_idx s =
     (let s1 = set_non_cpu_pd_node_local_state parent_idx PSCI_LOCAL_STATE_RUN s;
          s2 = psci_set_req_local_pwr_state pf lvl cpu_idx PSCI_LOCAL_STATE_RUN s1
      in set_to_run_loop pf k (lvl + 1) (parent_node (psci_non_cpu_pd_nodes s2 parent_idx)) cpu_idx s2)"

definition psci_set_pwr_domains_to_run :: "'p platform \<Rightarrow> nat \<Rightarrow> nat \<Rightarrow> 'p psci_state \<Rightarrow> 'p psci_state" where
  "psci_set_pwr_domains_to_run pf cpu_idx end_lvl s =
     (let s1 = set_to_run_loop pf end_lvl 1 (cpu_parent_node (psci_cpu_pd_nodes s cpu_idx)) cpu_idx s;
          s2 = psci_set_aff_info_state_by_idx cpu_idx AFF_STATE_ON s1
      in psci_set_cpu_local_state cpu_idx PSCI_LOCAL_STATE_RUN s2)"

section \<open>State coordination, platform-coordinated mode\<close>

text \<open>
  The platform's default \<open>plat_get_target_pwr_state\<close>: the least of the requested states, and
  never above \<open>PLAT_MAX_OFF_STATE\<close>. \<open>None\<close> is the failed assertion \<open>ncpu > 0\<close>.
\<close>

fun target_pwr_state_loop :: "u8 \<Rightarrow> u8 list \<Rightarrow> u8" where
  "target_pwr_state_loop target [] = target"
| "target_pwr_state_loop target (temp # st) =
     target_pwr_state_loop (if temp < target then temp else target) st"

definition plat_get_target_pwr_state_default :: "u8 \<Rightarrow> nat \<Rightarrow> u8 list \<Rightarrow> u8 option" where
  "plat_get_target_pwr_state_default max_off lvl states =
     (if states = [] then None else Some (target_pwr_state_loop max_off states))"

definition set_lvl_state :: "nat \<Rightarrow> u8 \<Rightarrow> psci_power_state \<Rightarrow> psci_power_state" where
  "set_lvl_state lvl st state_info =
     state_info\<lparr>pwr_domain_state := (pwr_domain_state state_info)(lvl := st)\<rparr>"

text \<open>The first loop returns the level at which it stopped: the first level that stays in RUN.\<close>

fun coordinate_loop ::
  "'p platform \<Rightarrow> nat \<Rightarrow> nat \<Rightarrow> nat \<Rightarrow> nat \<Rightarrow> psci_power_state \<Rightarrow> 'p psci_state
     \<Rightarrow> (nat \<times> psci_power_state, 'p psci_state) outcome" where
  "coordinate_loop pf 0 lvl parent_idx cpu_idx state_info s = Ret (lvl, state_info) s"
| "coordinate_loop pf (Suc k) lvl parent_idx cpu_idx state_info s =
     (let s1 = psci_set_req_local_pwr_state pf lvl cpu_idx (pwr_domain_state state_info lvl) s;
          start_idx = cpu_start_idx (psci_non_cpu_pd_nodes s1 parent_idx);
          n = ncpus (psci_non_cpu_pd_nodes s1 parent_idx)
      in case psci_get_req_local_pwr_states pf lvl start_idx n s1 of
           None \<Rightarrow> Halt
         | Some req_states \<Rightarrow>
             (case plat_get_target_pwr_state pf lvl req_states of
                None \<Rightarrow> Halt
              | Some target_state \<Rightarrow>
                  (let si = set_lvl_state lvl target_state state_info
                   in if is_local_state_run target_state then Ret (lvl, si) s1
                      else coordinate_loop pf k (lvl + 1) (parent_node (psci_non_cpu_pd_nodes s1 parent_idx))
                             cpu_idx si s1)))"

fun coordinate_rest ::
  "'p platform \<Rightarrow> nat \<Rightarrow> nat \<Rightarrow> nat \<Rightarrow> psci_power_state \<Rightarrow> 'p psci_state \<Rightarrow> psci_power_state \<times> 'p psci_state" where
  "coordinate_rest pf 0 lvl cpu_idx state_info s = (state_info, s)"
| "coordinate_rest pf (Suc k) lvl cpu_idx state_info s =
     coordinate_rest pf k (lvl + 1) cpu_idx (set_lvl_state lvl PSCI_LOCAL_STATE_RUN state_info)
       (psci_set_req_local_pwr_state pf lvl cpu_idx (pwr_domain_state state_info lvl) s)"

definition psci_do_state_coordination ::
  "'p platform \<Rightarrow> nat \<Rightarrow> nat \<Rightarrow> psci_power_state \<Rightarrow> 'p psci_state \<Rightarrow> (psci_power_state, 'p psci_state) outcome" where
  "psci_do_state_coordination pf cpu_idx end_lvl state_info s =
     (if end_lvl \<le> PLAT_MAX_PWR_LVL pf
      then obind (coordinate_loop pf end_lvl 1 (cpu_parent_node (psci_cpu_pd_nodes s cpu_idx)) cpu_idx state_info s)
        (\<lambda>(lvl, si) s1. let (si', s2) = coordinate_rest pf (end_lvl - lvl) (lvl + 1) cpu_idx si s1 in Ret si' s2)
      else Halt)"

section \<open>State coordination, OS-initiated mode\<close>

definition psci_validate_subtree_state :: "nat \<Rightarrow> nat \<Rightarrow> u8 \<Rightarrow> 'p psci_state \<Rightarrow> bool" where
  "psci_validate_subtree_state node_idx lvl target_state s =
     (if lvl = PSCI_CPU_PWR_LVL then psci_get_cpu_local_state_by_idx node_idx s \<ge> target_state
      else get_non_cpu_pd_node_local_state node_idx s \<ge> target_state)"

fun siblings_deep_enough :: "nat \<Rightarrow> nat \<Rightarrow> nat \<Rightarrow> nat \<Rightarrow> u8 \<Rightarrow> 'p psci_state \<Rightarrow> bool" where
  "siblings_deep_enough 0 node path_node_idx lvl req s = True"
| "siblings_deep_enough (Suc k) node path_node_idx lvl req s =
     (if node = path_node_idx then siblings_deep_enough k (Suc node) path_node_idx lvl req s
      else if \<not> psci_validate_subtree_state node lvl req s then False
      else siblings_deep_enough k (Suc node) path_node_idx lvl req s)"

fun hierarchical_loop :: "nat \<Rightarrow> nat \<Rightarrow> nat \<Rightarrow> nat \<Rightarrow> psci_power_state \<Rightarrow> 'p psci_state \<Rightarrow> int" where
  "hierarchical_loop 0 lvl path_node_idx parent_node_idx state_info s = PSCI_E_SUCCESS"
| "hierarchical_loop (Suc k) lvl path_node_idx parent_node_idx state_info s =
     (let nd = psci_non_cpu_pd_nodes s parent_node_idx
      in if siblings_deep_enough (num_children nd) (first_child_idx nd) path_node_idx (lvl - 1)
              (pwr_domain_state state_info lvl) s
         then hierarchical_loop k (lvl + 1) parent_node_idx (parent_node nd) state_info s
         else PSCI_E_DENIED)"

definition psci_validate_hierarchical_state_consistency ::
  "nat \<Rightarrow> nat \<Rightarrow> psci_power_state \<Rightarrow> 'p psci_state \<Rightarrow> int" where
  "psci_validate_hierarchical_state_consistency cpu_idx end_lvl state_info s =
     hierarchical_loop end_lvl 1 cpu_idx (cpu_parent_node (psci_cpu_pd_nodes s cpu_idx)) state_info s"

fun up_loop :: "nat \<Rightarrow> nat \<Rightarrow> 'p psci_state \<Rightarrow> nat" where
  "up_loop 0 parent_idx s = parent_idx"
| "up_loop (Suc k) parent_idx s = up_loop k (parent_node (psci_non_cpu_pd_nodes s parent_idx)) s"

fun last_to_idle_loop :: "nat \<Rightarrow> nat \<Rightarrow> nat \<Rightarrow> 'p psci_state \<Rightarrow> bool option" where
  "last_to_idle_loop 0 cpu_idx my_idx s = Some True"
| "last_to_idle_loop (Suc k) cpu_idx my_idx s =
     (let st = psci_get_cpu_local_state_by_idx cpu_idx s
      in if cpu_idx = my_idx
         then if is_local_state_run st then last_to_idle_loop k (Suc cpu_idx) my_idx s else None
         else if is_local_state_run st then Some False
         else last_to_idle_loop k (Suc cpu_idx) my_idx s)"

definition psci_is_last_cpu_to_idle_at_pwrlvl :: "nat \<Rightarrow> nat \<Rightarrow> 'p psci_state \<Rightarrow> bool option" where
  "psci_is_last_cpu_to_idle_at_pwrlvl my_idx end_lvl s =
     (if end_lvl = PSCI_CPU_PWR_LVL then Some True
      else let nd = psci_non_cpu_pd_nodes s (up_loop (end_lvl - 1) (cpu_parent_node (psci_cpu_pd_nodes s my_idx)) s)
           in last_to_idle_loop (ncpus nd) (cpu_start_idx nd) my_idx s)"

definition psci_validate_state_coordination ::
  "'p platform \<Rightarrow> nat \<Rightarrow> nat \<Rightarrow> psci_power_state \<Rightarrow> 'p psci_state \<Rightarrow> (int, 'p psci_state) outcome" where
  "psci_validate_state_coordination pf cpu_idx end_lvl state_info s =
     (if end_lvl \<le> PLAT_MAX_PWR_LVL pf
      then obind (psci_update_req_local_pwr_states pf end_lvl cpu_idx state_info s)
        (\<lambda>prev s1.
          let exit = (\<lambda>rc. if rc \<noteq> PSCI_E_SUCCESS then Ret rc (psci_restore_req_local_pwr_states pf cpu_idx prev s1)
                           else Ret rc s1);
              rc = psci_validate_hierarchical_state_consistency cpu_idx end_lvl state_info s1;
              lvl = last_at_pwrlvl state_info
          in if rc \<noteq> PSCI_E_SUCCESS then exit rc
             else if lvl > PLAT_MAX_PWR_LVL pf then Ret PSCI_E_INVALID_PARAMS s1
             else if lvl > end_lvl
             then (case psci_is_last_cpu_to_idle_at_pwrlvl cpu_idx lvl s1 of
                     None \<Rightarrow> Halt
                   | Some is_last \<Rightarrow> exit (if is_last then PSCI_E_SUCCESS else PSCI_E_DENIED))
             else exit PSCI_E_SUCCESS)
      else Halt)"

section \<open>Locks of the domains\<close>

fun acquire_loop :: "nat \<Rightarrow> nat \<Rightarrow> nat list \<Rightarrow> 'p psci_state \<Rightarrow> 'p psci_state" where
  "acquire_loop 0 level parent_nodes s = s"
| "acquire_loop (Suc k) level parent_nodes s =
     acquire_loop k (level + 1) parent_nodes (psci_lock_get (parent_nodes ! (level - 1)) s)"

definition psci_acquire_pwr_domain_locks :: "nat \<Rightarrow> nat list \<Rightarrow> 'p psci_state \<Rightarrow> 'p psci_state" where
  "psci_acquire_pwr_domain_locks end_lvl parent_nodes s = acquire_loop end_lvl 1 parent_nodes s"

fun psci_release_pwr_domain_locks :: "nat \<Rightarrow> nat list \<Rightarrow> 'p psci_state \<Rightarrow> 'p psci_state" where
  "psci_release_pwr_domain_locks 0 parent_nodes s = s"
| "psci_release_pwr_domain_locks (Suc level) parent_nodes s =
     psci_release_pwr_domain_locks level parent_nodes (psci_lock_release (parent_nodes ! level) s)"

definition with_all_locks ::
  "'p platform \<Rightarrow> nat \<Rightarrow> ('p psci_state \<Rightarrow> ('a, 'p psci_state) outcome) \<Rightarrow> 'p psci_state
     \<Rightarrow> ('a, 'p psci_state) outcome" where
  "with_all_locks pf this_core f s =
     (let parent_nodes = psci_get_parent_pwr_domain_nodes this_core (PLAT_MAX_PWR_LVL pf) s;
          s1 = psci_acquire_pwr_domain_locks (PLAT_MAX_PWR_LVL pf) parent_nodes s
      in obind (f s1) (\<lambda>r s2. Ret r (psci_release_pwr_domain_locks (PLAT_MAX_PWR_LVL pf) parent_nodes s2)))"

definition psci_is_last_on_cpu_safe :: "'p platform \<Rightarrow> nat \<Rightarrow> 'p psci_state \<Rightarrow> (bool, 'p psci_state) outcome" where
  "psci_is_last_on_cpu_safe pf this_core s = with_all_locks pf this_core (psci_is_last_on_cpu this_core) s"

definition psci_are_all_cpus_on_safe :: "'p platform \<Rightarrow> nat \<Rightarrow> 'p psci_state \<Rightarrow> (bool, 'p psci_state) outcome" where
  "psci_are_all_cpus_on_safe pf this_core s =
     with_all_locks pf this_core (\<lambda>s. Ret (psci_are_all_cpus_on s) s) s"

definition psci_num_cpus_running_on_safe :: "'p platform \<Rightarrow> nat \<Rightarrow> 'p psci_state \<Rightarrow> (nat, 'p psci_state) outcome" where
  "psci_num_cpus_running_on_safe pf this_core s =
     with_all_locks pf this_core (\<lambda>s. Ret (psci_num_cpus_running s) s) s"

section \<open>Entry points\<close>

definition SPSR_64 :: "u32 \<Rightarrow> u32 \<Rightarrow> u32 \<Rightarrow> u32" where
  "SPSR_64 el sp daif =
     (push_bit 2 (el AND 0x3) OR (sp AND 0x1) OR push_bit 6 (daif AND 0xf)) AND NOT (push_bit 12 1)"

definition SPSR_MODE32 :: "u32 \<Rightarrow> u32 \<Rightarrow> u32 \<Rightarrow> u32 \<Rightarrow> u32" where
  "SPSR_MODE32 mode isa endian aif =
     (push_bit 4 1 OR (mode AND 0xf) OR push_bit 5 (isa AND 0x1) OR push_bit 9 (endian AND 0x1)
      OR push_bit 6 (aif AND 0x7)) AND NOT (push_bit 23 1)"

text \<open>
  The AArch64 \<open>psci_get_ns_ep_info\<close>. \<open>ep\<close> is the caller's structure: on the error path it
  has already been given its attributes, its address and its arguments, and keeps its old
  \<open>spsr\<close>.
\<close>

definition psci_get_ns_ep_info ::
  "'p platform \<Rightarrow> 'p \<Rightarrow> entry_point_info \<Rightarrow> uptr \<Rightarrow> u64 \<Rightarrow> int \<times> entry_point_info" where
  "psci_get_ns_ep_info pf p ep entrypoint context_id =
     (let ns_scr_el3 = read_scr_el3 pf p;
          hce = bit ns_scr_el3 8;
          sctlr = (if hce then read_sctlr_el2 pf p else read_sctlr_el1 pf p);
          ee = (if bit sctlr 25 then 1 else 0);
          ep1 = ep\<lparr>ep_attr := (if bit sctlr 25 then 0x1 OR 0x2 else 0x1), ep_pc := entrypoint,
                    ep_args := context_id # replicate 7 0\<rparr>
      in if bit ns_scr_el3 10
         then if bit entrypoint 0 then (PSCI_E_INVALID_ADDRESS, ep1)
              else (PSCI_E_SUCCESS, ep1\<lparr>ep_spsr := SPSR_64 (if hce then 2 else 1) 1 0xf\<rparr>)
         else (PSCI_E_SUCCESS,
               ep1\<lparr>ep_spsr := SPSR_MODE32 (if hce then 0xa else 0x3) (ucast (entrypoint AND 1)) ee 0x7\<rparr>))"

definition psci_validate_entry_point ::
  "'p platform \<Rightarrow> 'p \<Rightarrow> entry_point_info \<Rightarrow> uptr \<Rightarrow> u64 \<Rightarrow> int \<times> entry_point_info" where
  "psci_validate_entry_point pf p ep entrypoint context_id =
     (case validate_ns_entrypoint (psci_plat_pm_ops pf) of
        None \<Rightarrow> psci_get_ns_ep_info pf p ep entrypoint context_id
      | Some f \<Rightarrow> if f entrypoint p \<noteq> PSCI_E_SUCCESS then (PSCI_E_INVALID_ADDRESS, ep)
                  else psci_get_ns_ep_info pf p ep entrypoint context_id)"

section \<open>Secure Payload Dispatcher\<close>

definition psci_register_spd_pm_hook :: "'p spd_pm_ops \<Rightarrow> 'p psci_state \<Rightarrow> 'p psci_state" where
  "psci_register_spd_pm_hook pm s =
     (let c0 = psci_caps s;
          c1 = (if svc_migrate pm \<noteq> None then c0 OR define_psci_cap PSCI_MIG_AARCH64 else c0);
          c2 = (if svc_migrate_info pm \<noteq> None
                then c1 OR (define_psci_cap PSCI_MIG_INFO_UP_CPU_AARCH64 OR define_psci_cap PSCI_MIG_INFO_TYPE)
                else c1)
      in s\<lparr>psci_spd_pm := Some pm, psci_caps := c2\<rparr>)"

abbreviation (input) PSCI_TOS_UP_MIG_CAP :: int where "PSCI_TOS_UP_MIG_CAP \<equiv> 0"
abbreviation (input) PSCI_TOS_NOT_UP_MIG_CAP :: int where "PSCI_TOS_NOT_UP_MIG_CAP \<equiv> 1"
abbreviation (input) PSCI_TOS_NOT_PRESENT_MP :: int where "PSCI_TOS_NOT_PRESENT_MP \<equiv> 2"

definition psci_spd_migrate_info :: "u64 \<Rightarrow> 'p psci_state \<Rightarrow> (int \<times> u64, 'p psci_state) outcome" where
  "psci_spd_migrate_info mpidr s =
     (case spd_hook svc_migrate_info s of
        None \<Rightarrow> Ret (PSCI_E_NOT_SUPPORTED, mpidr) s
      | Some f \<Rightarrow>
          (let (rc, mpidr') = f mpidr (plat s)
           in if rc = PSCI_TOS_UP_MIG_CAP \<or> rc = PSCI_TOS_NOT_UP_MIG_CAP \<or> rc = PSCI_TOS_NOT_PRESENT_MP \<or>
                 rc = PSCI_E_NOT_SUPPORTED
              then Ret (rc, mpidr') s else Halt))"

section \<open>Powering the core down\<close>

text \<open>
  \<open>pwr_dwn_op pf lvl\<close> is the power-down operation the CPU driver has registered for a level
  (\<open>CPU_MAX_PWR_DWN_OPS\<close> is 2); \<open>terminal_wakeups\<close> says how often the core falls out of the final
  \<open>wfi\<close>.
\<close>

definition get_cpu_pwr_dwn :: "'p platform \<Rightarrow> nat \<Rightarrow> 'p \<Rightarrow> u64 \<times> 'p" where
  "get_cpu_pwr_dwn pf power_level = pwr_dwn_op pf (if power_level > 2 - 1 then 2 - 1 else power_level)"

definition psci_pwrdown_cpu_start :: "'p platform \<Rightarrow> nat \<Rightarrow> 'p psci_state \<Rightarrow> 'p psci_state" where
  "psci_pwrdown_cpu_start pf power_level s = on_plat (\<lambda>p. snd (get_cpu_pwr_dwn pf power_level p)) s"

definition psci_pwrdown_cpu_end_terminal :: "'p platform \<Rightarrow> 'p psci_state \<Rightarrow> ('a, 'p psci_state) outcome" where
  "psci_pwrdown_cpu_end_terminal pf s =
     (if terminal_wakeups pf (plat s) < 32 then Wfi s else Halt)"

definition PABANDON_ACK :: u64 where "PABANDON_ACK = 0xffaba4d4aba4d400"

definition prepare_cpu_pwr_up :: "'p platform \<Rightarrow> nat \<Rightarrow> 'p psci_state \<Rightarrow> (unit, 'p psci_state) outcome" where
  "prepare_cpu_pwr_up pf power_level s =
     (let (ret, p) = get_cpu_pwr_dwn pf power_level (plat s)
      in if ret \<noteq> PABANDON_ACK then Halt else Ret () (s\<lparr>plat := p\<rparr>))"

text \<open>What \<open>psci_pwrdown_cpu_end_wakeup\<close> does once the core has woken up from its \<open>wfi\<close>.\<close>

definition psci_pwrdown_cpu_end_wakeup :: "'p platform \<Rightarrow> nat \<Rightarrow> 'p psci_state \<Rightarrow> (unit, 'p psci_state) outcome" where
  "psci_pwrdown_cpu_end_wakeup pf power_level s =
     (if \<not> HW_ASSISTED_COHERENCY pf then Halt else prepare_cpu_pwr_up pf power_level s)"

section \<open>Stopping the other cores\<close>

definition psci_secondaries_brought_up :: "'p platform \<Rightarrow> 'p psci_state \<Rightarrow> (int, 'p psci_state) outcome" where
  "psci_secondaries_brought_up pf s =
     (let n_valid = length (filter (\<lambda>idx. cpu_mpidr (psci_cpu_pd_nodes s idx) \<noteq> PSCI_INVALID_MPIDR)
                      [0 ..< PLATFORM_CORE_COUNT pf])
      in obind (oassert (n_valid > 0) s) (\<lambda>_ s. Ret (if n_valid > 1 then 1 else 0) s))"

fun stop_cores_loop :: "nat \<Rightarrow> nat \<Rightarrow> nat \<Rightarrow> (u64 \<Rightarrow> 'p \<Rightarrow> 'p) \<Rightarrow> 'p psci_state \<Rightarrow> 'p psci_state" where
  "stop_cores_loop 0 idx this_cpu_idx stop_func s = s"
| "stop_cores_loop (Suc k) idx this_cpu_idx stop_func s =
     stop_cores_loop k (Suc idx) this_cpu_idx stop_func
       (if idx \<noteq> this_cpu_idx \<and> psci_get_aff_info_state_by_idx idx s = AFF_STATE_ON
        then on_plat (stop_func (cpu_mpidr (psci_cpu_pd_nodes s idx))) s else s)"

text \<open>\<open>delay\<close> is what the rest of the system does during one \<open>mdelay(1)\<close>.\<close>

fun wait_last_on_loop ::
  "nat \<Rightarrow> nat \<Rightarrow> ('p psci_state \<Rightarrow> 'p psci_state) \<Rightarrow> 'p psci_state \<Rightarrow> (unit, 'p psci_state) outcome" where
  "wait_last_on_loop 0 this_cpu_idx delay s = Ret () s"
| "wait_last_on_loop (Suc delay_ms) this_cpu_idx delay s =
     obind (psci_is_last_on_cpu this_cpu_idx s)
       (\<lambda>is_last s. if is_last then Ret () s else wait_last_on_loop delay_ms this_cpu_idx delay (delay s))"

definition psci_stop_other_cores ::
  "nat \<Rightarrow> nat \<Rightarrow> (u64 \<Rightarrow> 'p \<Rightarrow> 'p) \<Rightarrow> ('p psci_state \<Rightarrow> 'p psci_state) \<Rightarrow> 'p psci_state
     \<Rightarrow> (int, 'p psci_state) outcome" where
  "psci_stop_other_cores this_cpu_idx wait_ms stop_func delay s =
     (let s1 = stop_cores_loop (psci_plat_core_count s) 0 this_cpu_idx stop_func s
      in if wait_ms \<noteq> 0
         then obind (wait_last_on_loop wait_ms this_cpu_idx delay s1)
           (\<lambda>_ s2. obind (psci_is_last_on_cpu this_cpu_idx s2)
             (\<lambda>is_last s3. Ret (if is_last then PSCI_E_SUCCESS else PSCI_E_DENIED) s3))
         else Ret PSCI_E_SUCCESS s1)"

end
