(* ===== verification/Psci_Stat.thy ===== *)
theory Psci_Stat
  imports Psci_Common
begin

text \<open>
  The statistics of low-power states, \<open>lib/psci/psci_stat.c\<close>: who was the last CPU to take a
  domain down, residency and count of each CPU and domain, and the two calls that read them; and the
  default residency computation of \<open>plat/common/plat_psci_common.c\<close>.
\<close>

definition get_stat_idx :: "'p platform \<Rightarrow> u8 \<Rightarrow> nat \<Rightarrow> nat option" where
  "get_stat_idx pf st pwr_lvl =
     (case get_pwr_lvl_state_idx (psci_plat_pm_ops pf) of
        None \<Rightarrow> if PLAT_MAX_PWR_LVL_STATES pf \<noteq> 2 then None
                else if is_local_state_retn pf st then Some 0
                else if is_local_state_off pf st then Some 1 else None
      | Some f \<Rightarrow> if f st pwr_lvl < PLAT_MAX_PWR_LVL_STATES pf then Some (f st pwr_lvl) else None)"

fun stats_down_loop :: "nat \<Rightarrow> nat \<Rightarrow> nat \<Rightarrow> nat \<Rightarrow> psci_power_state \<Rightarrow> 'p psci_state \<Rightarrow> 'p psci_state" where
  "stats_down_loop 0 lvl parent_idx cpu_idx state_info s = s"
| "stats_down_loop (Suc k) lvl parent_idx cpu_idx state_info s =
     (if is_local_state_run (pwr_domain_state state_info lvl) then s
      else stats_down_loop k (lvl + 1) (parent_node (psci_non_cpu_pd_nodes s parent_idx)) cpu_idx state_info
             (s\<lparr>last_cpu_in_non_cpu_pd := (last_cpu_in_non_cpu_pd s)(parent_idx := int cpu_idx)\<rparr>))"

definition psci_stats_update_pwr_down ::
  "'p platform \<Rightarrow> nat \<Rightarrow> nat \<Rightarrow> psci_power_state \<Rightarrow> 'p psci_state \<Rightarrow> (unit, 'p psci_state) outcome" where
  "psci_stats_update_pwr_down pf cpu_idx end_lvl state_info s =
     (if end_lvl \<le> PLAT_MAX_PWR_LVL pf
      then Ret () (stats_down_loop end_lvl 1 (cpu_parent_node (psci_cpu_pd_nodes s cpu_idx)) cpu_idx state_info s)
      else Halt)"

definition bump_stat :: "u64 \<Rightarrow> psci_stat \<Rightarrow> psci_stat" where
  "bump_stat r st = st\<lparr>residency := residency st + r, count := count st + 1\<rparr>"

definition bump_table :: "nat \<Rightarrow> nat \<Rightarrow> u64 \<Rightarrow> (nat \<Rightarrow> nat \<Rightarrow> psci_stat) \<Rightarrow> (nat \<Rightarrow> nat \<Rightarrow> psci_stat)" where
  "bump_table i j r t = t(i := (t i)(j := bump_stat r (t i j)))"

fun stats_up_loop ::
  "'p platform \<Rightarrow> nat \<Rightarrow> nat \<Rightarrow> nat \<Rightarrow> psci_power_state \<Rightarrow> 'p psci_state \<Rightarrow> (unit, 'p psci_state) outcome" where
  "stats_up_loop pf 0 lvl parent_idx state_info s = Ret () s"
| "stats_up_loop pf (Suc k) lvl parent_idx state_info s =
     (let st = pwr_domain_state state_info lvl
      in if is_local_state_run st then Ret () s
         else if last_cpu_in_non_cpu_pd s parent_idx = - 1 then Halt
         else let r = plat_psci_stat_get_residency pf lvl state_info (nat (last_cpu_in_non_cpu_pd s parent_idx)) (plat s);
                  s1 = s\<lparr>last_cpu_in_non_cpu_pd := (last_cpu_in_non_cpu_pd s)(parent_idx := - 1)\<rparr>
              in case get_stat_idx pf st lvl of
                   None \<Rightarrow> Halt
                 | Some stat_idx \<Rightarrow>
                     stats_up_loop pf k (lvl + 1) (parent_node (psci_non_cpu_pd_nodes s1 parent_idx)) state_info
                       (s1\<lparr>psci_non_cpu_stat := bump_table parent_idx stat_idx r (psci_non_cpu_stat s1)\<rparr>))"

definition psci_stats_update_pwr_up ::
  "'p platform \<Rightarrow> nat \<Rightarrow> nat \<Rightarrow> psci_power_state \<Rightarrow> 'p psci_state \<Rightarrow> (unit, 'p psci_state) outcome" where
  "psci_stats_update_pwr_up pf cpu_idx end_lvl state_info s =
     (if end_lvl \<le> PLAT_MAX_PWR_LVL pf
      then case get_stat_idx pf (pwr_domain_state state_info PSCI_CPU_PWR_LVL) PSCI_CPU_PWR_LVL of
             None \<Rightarrow> Halt
           | Some stat_idx \<Rightarrow>
               let r = plat_psci_stat_get_residency pf PSCI_CPU_PWR_LVL state_info cpu_idx (plat s);
                   s1 = s\<lparr>psci_cpu_stat := bump_table cpu_idx stat_idx r (psci_cpu_stat s)\<rparr>;
                   parent_idx = cpu_parent_node (psci_cpu_pd_nodes s1 cpu_idx)
               in if last_cpu_in_non_cpu_pd s1 parent_idx = - 1 then Ret () s1
                  else stats_up_loop pf end_lvl 1 parent_idx state_info s1
      else Halt)"

definition psci_get_stat ::
  "'p platform \<Rightarrow> u64 \<Rightarrow> u32 \<Rightarrow> 'p psci_state \<Rightarrow> (int \<times> psci_stat option, 'p psci_state) outcome" where
  "psci_get_stat pf target_cpu power_state s =
     (let target_idx = core_pos pf target_cpu;
          run = \<lparr>pwr_domain_state = (\<lambda>_. PSCI_LOCAL_STATE_RUN), last_at_pwrlvl = 0\<rparr>;
          validated = (case translate_power_state_by_mpidr (psci_plat_pm_ops pf) of
                         None \<Rightarrow> psci_validate_power_state pf power_state run s
                       | Some f \<Rightarrow> Ret (f target_cpu power_state run (plat s)) s)
      in obind validated (\<lambda>(rc, state_info) s.
           if rc \<noteq> PSCI_E_SUCCESS then Ret (PSCI_E_INVALID_PARAMS, None) s
           else let pwrlvl = psci_find_target_suspend_lvl pf state_info
                in if pwrlvl = PSCI_INVALID_PWR_LVL pf then Halt
                   else case get_stat_idx pf (pwr_domain_state state_info pwrlvl) pwrlvl of
                          None \<Rightarrow> Halt
                        | Some stat_idx \<Rightarrow>
                            Ret (PSCI_E_SUCCESS,
                                 Some (if pwrlvl > PSCI_CPU_PWR_LVL
                                       then psci_non_cpu_stat s
                                              (up_loop (pwrlvl - 1) (cpu_parent_node (psci_cpu_pd_nodes s target_idx)) s)
                                              stat_idx
                                       else psci_cpu_stat s target_idx stat_idx)) s))"

definition psci_stat_residency :: "'p platform \<Rightarrow> u64 \<Rightarrow> u32 \<Rightarrow> 'p psci_state \<Rightarrow> (u64, 'p psci_state) outcome" where
  "psci_stat_residency pf target_cpu power_state s =
     (if \<not> is_valid_mpidr pf target_cpu then Ret 0 s
      else obind (psci_get_stat pf target_cpu power_state s)
             (\<lambda>(rc, st) s. Ret (case st of Some x \<Rightarrow> residency x | None \<Rightarrow> 0) s))"

definition psci_stat_count :: "'p platform \<Rightarrow> u64 \<Rightarrow> u32 \<Rightarrow> 'p psci_state \<Rightarrow> (u64, 'p psci_state) outcome" where
  "psci_stat_count pf target_cpu power_state s =
     (if \<not> is_valid_mpidr pf target_cpu then Ret 0 s
      else obind (psci_get_stat pf target_cpu power_state s)
             (\<lambda>(rc, st) s. Ret (case st of Some x \<Rightarrow> count x | None \<Rightarrow> 0) s))"

text \<open>
  The default residency in microseconds; \<open>cntfrq\<close> is the counter frequency and the divisor
  \<open>MHZ_TICKS_PER_SEC\<close> is 1000000.
\<close>

definition calc_stat_residency :: "u64 \<Rightarrow> u64 \<Rightarrow> u64 \<Rightarrow> u64 option" where
  "calc_stat_residency cntfrq pwrupts pwrdnts =
     (let residency_div = cntfrq div 1000000
      in if residency_div > 0
         then Some ((if pwrupts < pwrdnts then (- 1) - pwrdnts + pwrupts else pwrupts - pwrdnts) div residency_div)
         else None)"

end
