(* ===== verification/Psci_Power.thy ===== *)
theory Psci_Power
  imports Psci_Stat
begin

text \<open>
  Powering CPUs on, off and into suspend: \<open>lib/psci/psci_on.c\<close>, \<open>lib/psci/psci_off.c\<close>,
  \<open>lib/psci/psci_suspend.c\<close> and the warm-boot entry of \<open>lib/psci/psci_common.c\<close>.
  \<open>me\<close> is the index of the calling core (\<open>plat_my_core_pos\<close>). A routine that reaches a
  \<open>wfi\<close> ends in \<open>Wfi\<close>; when the core then wakes up with its context intact, it goes on with
  \<open>psci_wfi_return\<close>, and when it lost power it enters \<open>psci_warmboot_entrypoint\<close>. The
  operations run between two such points are atomic, which the locks of the domains are there for.
\<close>

section \<open>CPU on\<close>

definition psci_spin_lock_cpu :: "nat \<Rightarrow> 'p psci_state \<Rightarrow> 'p psci_state" where
  "psci_spin_lock_cpu idx s = log_lock (Spin_Lock_Cpu idx) s"

definition psci_spin_unlock_cpu :: "nat \<Rightarrow> 'p psci_state \<Rightarrow> 'p psci_state" where
  "psci_spin_unlock_cpu idx s = log_lock (Spin_Unlock_Cpu idx) s"

definition cpu_on_validate_state :: "aff_info_state \<Rightarrow> int" where
  "cpu_on_validate_state aff_state =
     (case aff_state of
        AFF_STATE_ON \<Rightarrow> PSCI_E_ALREADY_ON
      | AFF_STATE_ON_PENDING \<Rightarrow> PSCI_E_ON_PENDING
      | AFF_STATE_OFF \<Rightarrow> PSCI_E_SUCCESS)"

text \<open>
  On coherent memory the update to \<open>ON_PENDING\<close> is never lost, so the branch that retries it is
  not taken; it is kept as the code has it.
\<close>

definition psci_cpu_on_start ::
  "'p platform \<Rightarrow> nat \<Rightarrow> u64 \<Rightarrow> entry_point_info \<Rightarrow> 'p psci_state \<Rightarrow> (int, 'p psci_state) outcome" where
  "psci_cpu_on_start pf target_idx target_cpu ep s =
     (if target_idx \<ge> PLATFORM_CORE_COUNT pf then Ret PSCI_E_INVALID_PARAMS s
      else case (pwr_domain_on (psci_plat_pm_ops pf), pwr_domain_on_finish (psci_plat_pm_ops pf)) of
        (Some on_hook, Some _) \<Rightarrow>
          (let s1 = psci_spin_lock_cpu target_idx s;
               rc = cpu_on_validate_state (psci_get_aff_info_state_by_idx target_idx s1)
           in if rc \<noteq> PSCI_E_SUCCESS then Ret rc (psci_spin_unlock_cpu target_idx s1)
              else
                let s2 = s1\<lparr>warmboot_ep_info := (warmboot_ep_info s1)(target_idx := ep)\<rparr>;
                    s3 = call_hook (map_option (\<lambda>f. f target_cpu) (spd_hook svc_on s2)) s2;
                    s4 = psci_set_aff_info_state_by_idx target_idx AFF_STATE_ON_PENDING s3
                in obind (if psci_get_aff_info_state_by_idx target_idx s4 \<noteq> AFF_STATE_ON_PENDING
                          then obind (oassert (psci_get_aff_info_state_by_idx target_idx s4 = AFF_STATE_OFF) s4)
                            (\<lambda>_ s. let s' = psci_set_aff_info_state_by_idx target_idx AFF_STATE_ON_PENDING s
                                   in oassert (psci_get_aff_info_state_by_idx target_idx s' = AFF_STATE_ON_PENDING) s')
                          else Ret () s4)
                     (\<lambda>_ s5. let (rc, p) = on_hook target_cpu (plat s5); s6 = s5\<lparr>plat := p\<rparr>
                       in if rc = PSCI_E_SUCCESS then Ret rc (psci_spin_unlock_cpu target_idx s6)
                          else if rc = PSCI_E_INTERN_FAIL
                          then Ret rc (psci_spin_unlock_cpu target_idx
                                 (psci_set_aff_info_state_by_idx target_idx AFF_STATE_OFF s6))
                          else Halt))
      | _ \<Rightarrow> Halt)"

definition psci_cpu_on_finish ::
  "'p platform \<Rightarrow> nat \<Rightarrow> psci_power_state \<Rightarrow> 'p psci_state \<Rightarrow> (unit, 'p psci_state) outcome" where
  "psci_cpu_on_finish pf cpu_idx state_info s =
     (case pwr_domain_on_finish (psci_plat_pm_ops pf) of
        None \<Rightarrow> Halt
      | Some f \<Rightarrow>
          let s1 = on_plat (f state_info) s;
              s2 = call_hook (map_option (\<lambda>f. f state_info) (pwr_domain_on_finish_late (psci_plat_pm_ops pf))) s1;
              s3 = psci_spin_unlock_cpu cpu_idx (psci_spin_lock_cpu cpu_idx s2)
          in obind (oassert (psci_get_aff_info_state_by_idx cpu_idx s3 = AFF_STATE_ON_PENDING) s3)
               (\<lambda>_ s3. let s4 = call_hook (map_option (\<lambda>f. f 0) (spd_hook svc_on_finish s3)) s3
                 in Ret () (s4\<lparr>psci_cpu_pd_nodes := (psci_cpu_pd_nodes s4)(cpu_idx :=
                      (psci_cpu_pd_nodes s4 cpu_idx)\<lparr>cpu_mpidr := and (read_mpidr pf cpu_idx) MPIDR_AFFINITY_MASK\<rparr>)\<rparr>)))"

section \<open>CPU off\<close>

definition psci_set_power_off_state :: "'p platform \<Rightarrow> psci_power_state \<Rightarrow> psci_power_state" where
  "psci_set_power_off_state pf state_info =
     state_info\<lparr>pwr_domain_state := (\<lambda>lvl. if lvl \<le> PLAT_MAX_PWR_LVL pf then PLAT_MAX_OFF_STATE pf
                                          else pwr_domain_state state_info lvl)\<rparr>"

text \<open>The statistics calls the build may leave out.\<close>

definition stat_down ::
  "'p platform \<Rightarrow> nat \<Rightarrow> nat \<Rightarrow> psci_power_state \<Rightarrow> 'p psci_state \<Rightarrow> (unit, 'p psci_state) outcome" where
  "stat_down pf cpu_idx end_lvl state_info s =
     (if ENABLE_PSCI_STAT pf then psci_stats_update_pwr_down pf cpu_idx end_lvl state_info s else Ret () s)"

definition stat_up ::
  "'p platform \<Rightarrow> nat \<Rightarrow> nat \<Rightarrow> psci_power_state \<Rightarrow> 'p psci_state \<Rightarrow> (unit, 'p psci_state) outcome" where
  "stat_up pf cpu_idx end_lvl state_info s =
     (if ENABLE_PSCI_STAT pf then psci_stats_update_pwr_up pf cpu_idx end_lvl state_info s else Ret () s)"

definition stat_start :: "'p platform \<Rightarrow> psci_power_state \<Rightarrow> 'p psci_state \<Rightarrow> 'p psci_state" where
  "stat_start pf state_info s =
     (if ENABLE_PSCI_STAT pf then on_plat (plat_psci_stat_accounting_start pf state_info) s else s)"

definition stat_stop :: "'p platform \<Rightarrow> psci_power_state \<Rightarrow> 'p psci_state \<Rightarrow> 'p psci_state" where
  "stat_stop pf state_info s =
     (if ENABLE_PSCI_STAT pf then on_plat (plat_psci_stat_accounting_stop pf state_info) s else s)"

definition psci_do_cpu_off :: "'p platform \<Rightarrow> nat \<Rightarrow> nat \<Rightarrow> 'p psci_state \<Rightarrow> (int, 'p psci_state) outcome" where
  "psci_do_cpu_off pf me end_lvl s =
     (case pwr_domain_off (psci_plat_pm_ops pf) of
        None \<Rightarrow> Halt
      | Some off_hook \<Rightarrow>
          let si = psci_set_power_off_state pf (uninit_state pf);
              (rc0, s0) = call_hook_rc PSCI_E_SUCCESS
                 (map_option (\<lambda>f. f si) (pwr_domain_off_early (psci_plat_pm_ops pf))) s
          in if rc0 = PSCI_E_DENIED then Ret rc0 s0
             else
               let parent_nodes = psci_get_parent_pwr_domain_nodes me end_lvl s0;
                   s1 = psci_acquire_pwr_domain_locks end_lvl parent_nodes s0;
                   (rc, s2) = call_hook_rc rc0 (map_option (\<lambda>f. f 0) (spd_hook svc_off s1)) s1
               in if spd_hook svc_off s1 \<noteq> None \<and> rc \<noteq> PSCI_E_SUCCESS
                  then Ret rc (psci_release_pwr_domain_locks end_lvl parent_nodes s2)
                  else
                    obind (psci_do_state_coordination pf me end_lvl si s2) (\<lambda>si s3.
                    let s4 = psci_set_target_local_pwr_states me end_lvl si s3 in
                    obind (stat_down pf me end_lvl si s4) (\<lambda>_ s5.
                    let s6 = psci_pwrdown_cpu_start pf (psci_find_max_off_lvl pf si) s5;
                        s7 = on_plat (off_hook si) s6;
                        s8 = stat_start pf si s7;
                        s9 = psci_release_pwr_domain_locks end_lvl parent_nodes s8
                    in if rc = PSCI_E_SUCCESS
                       then psci_pwrdown_cpu_end_terminal pf
                              (call_hook (map_option (\<lambda>f. f si) (pwr_domain_pwr_down (psci_plat_pm_ops pf)))
                                (psci_set_aff_info_state_by_idx me AFF_STATE_OFF s9))
                       else Ret rc s9)))"

section \<open>CPU suspend\<close>

definition psci_cpu_suspend_to_standby_finish ::
  "'p platform \<Rightarrow> nat \<Rightarrow> psci_power_state \<Rightarrow> 'p psci_state \<Rightarrow> (unit, 'p psci_state) outcome" where
  "psci_cpu_suspend_to_standby_finish pf me state_info s =
     (case pwr_domain_suspend_finish (psci_plat_pm_ops pf) of
        None \<Rightarrow> Halt
      | Some f \<Rightarrow> Ret () (psci_set_suspend_pwrlvl me (PLAT_MAX_PWR_LVL pf) (on_plat (f state_info) s)))"

definition psci_suspend_to_pwrdown_start ::
  "'p platform \<Rightarrow> nat \<Rightarrow> nat \<Rightarrow> nat \<Rightarrow> psci_power_state \<Rightarrow> 'p psci_state \<Rightarrow> 'p psci_state" where
  "psci_suspend_to_pwrdown_start pf idx end_lvl max_off state_info s =
     (let lvl = (if PSCI_OS_INIT_MODE pf \<and> psci_suspend_mode s = OS_INIT
                 then max_cpu_suspend_pwrlvl pf else end_lvl);
          s1 = psci_set_suspend_pwrlvl idx lvl s;
          s2 = call_hook (map_option (\<lambda>f. f max_off) (spd_hook svc_suspend s1)) s1;
          s3 = (if HW_ASSISTED_COHERENCY pf then s2
                else call_hook (map_option (\<lambda>f. f state_info)
                       (pwr_domain_suspend_pwrdown_early (psci_plat_pm_ops pf))) s2)
      in psci_pwrdown_cpu_start pf max_off s3)"

text \<open>
  \<open>psci_cpu_suspend_start\<close> up to its \<open>wfi\<close>. The decision which mode is in force and what
  the coordination of the mode returns is \<open>suspend_coordinate\<close>.
\<close>

definition suspend_coordinate ::
  "'p platform \<Rightarrow> nat \<Rightarrow> nat \<Rightarrow> psci_power_state \<Rightarrow> 'p psci_state \<Rightarrow> (int \<times> psci_power_state, 'p psci_state) outcome" where
  "suspend_coordinate pf idx end_lvl state_info s =
     (if PSCI_OS_INIT_MODE pf \<and> psci_suspend_mode s = OS_INIT
      then obind (psci_validate_state_coordination pf idx end_lvl state_info s) (\<lambda>rc s. Ret (rc, state_info) s)
      else obind (psci_do_state_coordination pf idx end_lvl state_info s) (\<lambda>si s. Ret (PSCI_E_SUCCESS, si) s))"

definition psci_cpu_suspend_start ::
  "'p platform \<Rightarrow> nat \<Rightarrow> nat \<Rightarrow> psci_power_state \<Rightarrow> bool \<Rightarrow> 'p psci_state \<Rightarrow> (int, 'p psci_state) outcome" where
  "psci_cpu_suspend_start pf idx end_lvl state_info power_down s =
     (case (pwr_domain_suspend (psci_plat_pm_ops pf), pwr_domain_suspend_finish (psci_plat_pm_ops pf)) of
        (Some suspend_hook, Some _) \<Rightarrow>
          (let parent_nodes = psci_get_parent_pwr_domain_nodes idx end_lvl s;
               s1 = psci_acquire_pwr_domain_locks end_lvl parent_nodes s;
               suspend_exit = (\<lambda>rc s. Ret rc (psci_release_pwr_domain_locks end_lvl parent_nodes s))
           in if read_isr_el1 pf (plat s1) \<noteq> 0 then suspend_exit PSCI_E_SUCCESS s1
              else obind (suspend_coordinate pf idx end_lvl state_info s1) (\<lambda>(rc, si) s2.
                if rc \<noteq> PSCI_E_SUCCESS then suspend_exit rc s2
                else
                  let (rc, s3) = call_hook_rc PSCI_E_SUCCESS
                        (if PSCI_OS_INIT_MODE pf
                         then map_option (\<lambda>f. f si) (pwr_domain_validate_suspend (psci_plat_pm_ops pf)) else None) s2
                  in if rc \<noteq> PSCI_E_SUCCESS
                     then suspend_exit rc (psci_set_pwr_domains_to_run pf idx (max_cpu_suspend_pwrlvl pf) s3)
                     else
                       let s4 = psci_set_target_local_pwr_states idx end_lvl si s3
                       in obind (stat_down pf idx end_lvl si s4) (\<lambda>_ s5.
                       let max_off = (if power_down then psci_find_max_off_lvl pf si else 0);
                           s6 = (if power_down then psci_suspend_to_pwrdown_start pf idx end_lvl max_off si s5 else s5);
                           s7 = on_plat (suspend_hook si) s6;
                           s8 = stat_start pf si s7;
                           s9 = psci_release_pwr_domain_locks end_lvl parent_nodes s8;
                           s10 = (if power_down
                                  then call_hook (map_option (\<lambda>f. f si) (pwr_domain_pwr_down (psci_plat_pm_ops pf))) s9
                                  else s9)
                       in Wfi (s10\<lparr>stack := (stack s10)(idx := Some (Suspended end_lvl parent_nodes si power_down max_off))\<rparr>))))
      | _ \<Rightarrow> Halt)"

definition psci_cpu_suspend_to_powerdown_finish ::
  "'p platform \<Rightarrow> nat \<Rightarrow> nat \<Rightarrow> psci_power_state \<Rightarrow> bool \<Rightarrow> 'p psci_state \<Rightarrow> (unit, 'p psci_state) outcome" where
  "psci_cpu_suspend_to_powerdown_finish pf cpu_idx max_off state_info abandon s =
     (if psci_get_aff_info_state_by_idx cpu_idx s = AFF_STATE_ON \<and>
         is_local_state_off pf (pwr_domain_state state_info PSCI_CPU_PWR_LVL)
      then case pwr_domain_suspend_finish (psci_plat_pm_ops pf) of
             None \<Rightarrow> Halt
           | Some f \<Rightarrow>
               let s1 = on_plat (f state_info) s;
                   s2 = call_hook (map_option (\<lambda>f. f max_off abandon) (spd_hook svc_suspend_finish s1)) s1
               in Ret () (psci_set_suspend_pwrlvl cpu_idx (PLAT_MAX_PWR_LVL pf) s2)
      else Halt)"

text \<open>What follows the \<open>wfi\<close> of \<open>psci_cpu_suspend_start\<close>; its return code is success.\<close>

definition psci_cpu_suspend_resume ::
  "'p platform \<Rightarrow> nat \<Rightarrow> nat \<Rightarrow> nat list \<Rightarrow> psci_power_state \<Rightarrow> bool \<Rightarrow> nat \<Rightarrow> 'p psci_state
     \<Rightarrow> (int, 'p psci_state) outcome" where
  "psci_cpu_suspend_resume pf idx end_lvl parent_nodes state_info power_down max_off s =
     obind (if power_down then psci_pwrdown_cpu_end_wakeup pf max_off s else Ret () s) (\<lambda>_ s0.
     let s1 = psci_acquire_pwr_domain_locks end_lvl parent_nodes s0;
         si = psci_get_target_local_pwr_states pf idx end_lvl state_info s1;
         s2 = stat_stop pf si s1
     in obind (stat_up pf idx end_lvl si s2) (\<lambda>_ s3.
        obind (if power_down then psci_cpu_suspend_to_powerdown_finish pf idx max_off si True s3
               else psci_cpu_suspend_to_standby_finish pf idx si s3) (\<lambda>_ s4.
        Ret PSCI_E_SUCCESS (psci_release_pwr_domain_locks end_lvl parent_nodes
          (psci_set_pwr_domains_to_run pf idx end_lvl s4)))))"

section \<open>Warm boot\<close>

text \<open>The core comes out of reset, so nothing is left of its stack.\<close>

definition psci_warmboot_entrypoint :: "'p platform \<Rightarrow> nat \<Rightarrow> 'p psci_state \<Rightarrow> (unit, 'p psci_state) outcome" where
  "psci_warmboot_entrypoint pf cpu_idx s0 =
     (let s = s0\<lparr>stack := (stack s0)(cpu_idx := None)\<rparr> in
      if psci_get_aff_info_state_by_idx cpu_idx s = AFF_STATE_OFF then Halt
      else case get_power_on_target_pwrlvl pf cpu_idx s of
        None \<Rightarrow> Halt
      | Some end_lvl \<Rightarrow>
          let parent_nodes = psci_get_parent_pwr_domain_nodes cpu_idx end_lvl s;
              s1 = psci_acquire_pwr_domain_locks end_lvl parent_nodes s;
              run = \<lparr>pwr_domain_state = (\<lambda>_. PSCI_LOCAL_STATE_RUN), last_at_pwrlvl = 0\<rparr>;
              si = psci_get_target_local_pwr_states pf cpu_idx end_lvl run s1;
              s2 = stat_stop pf si s1
          in obind (if psci_get_aff_info_state_by_idx cpu_idx s2 = AFF_STATE_ON_PENDING
                    then psci_cpu_on_finish pf cpu_idx si s2
                    else let max_off = psci_find_max_off_lvl pf si
                         in if max_off = PSCI_INVALID_PWR_LVL pf then Halt
                            else psci_cpu_suspend_to_powerdown_finish pf cpu_idx max_off si False s2)
               (\<lambda>_ s3.
                 let s4 = s3\<lparr>ns_context := (ns_context s3)(cpu_idx := Some (warmboot_ep_info s3 cpu_idx))\<rparr>;
                     s5 = psci_set_pwr_domains_to_run pf cpu_idx end_lvl s4
                 in obind (stat_up pf cpu_idx end_lvl si s5)
                      (\<lambda>_ s6. Ret () (psci_release_pwr_domain_locks end_lvl parent_nodes s6))))"

end
