(* ===== verification/Psci_Main.thy ===== *)
theory Psci_Main
  imports Psci_Power
begin

unbundle bit_operations_syntax

text \<open>
  The PSCI interface offered to the normal world: \<open>lib/psci/psci_main.c\<close> with the SMC
  dispatcher, \<open>lib/psci/psci_mem_protect.c\<close> and \<open>lib/psci/psci_system_off.c\<close>. \<open>me\<close>
  is the calling core.
\<close>

section \<open>CPU on, off and suspend\<close>

text \<open>The caller-local entry point: every field is written before it is used.\<close>

definition local_ep :: entry_point_info where
  "local_ep = \<lparr>ep_attr = 0, ep_pc = 0, ep_spsr = 0, ep_args = []\<rparr>"

definition psci_cpu_on_by_core_pos ::
  "'p platform \<Rightarrow> nat \<Rightarrow> u64 \<Rightarrow> uptr \<Rightarrow> u64 \<Rightarrow> 'p psci_state \<Rightarrow> (int, 'p psci_state) outcome" where
  "psci_cpu_on_by_core_pos pf target_idx target_cpu entrypoint context_id s =
     (if \<not> is_valid_mpidr pf target_cpu then Ret PSCI_E_INVALID_PARAMS s
      else let (rc, ep) = psci_validate_entry_point pf (plat s) local_ep entrypoint context_id
           in if rc \<noteq> PSCI_E_SUCCESS then Ret rc s
              else psci_cpu_on_start pf target_idx target_cpu ep s)"

definition psci_cpu_on ::
  "'p platform \<Rightarrow> u64 \<Rightarrow> uptr \<Rightarrow> u64 \<Rightarrow> 'p psci_state \<Rightarrow> (int, 'p psci_state) outcome" where
  "psci_cpu_on pf target_cpu entrypoint context_id s =
     psci_cpu_on_by_core_pos pf (core_pos pf target_cpu) target_cpu entrypoint context_id s"

definition psci_version :: u32 where
  "psci_version = push_bit 16 1 OR 0x1"

text \<open>
  \<open>psci_cpu_suspend\<close> up to its \<open>wfi\<close>. In the local-standby path that is inside the
  platform's \<open>cpu_standby\<close>; the rest of the path is \<open>psci_cpu_standby_return\<close>.
\<close>

definition psci_cpu_suspend ::
  "'p platform \<Rightarrow> nat \<Rightarrow> u32 \<Rightarrow> uptr \<Rightarrow> u64 \<Rightarrow> 'p psci_state \<Rightarrow> (int, 'p psci_state) outcome" where
  "psci_cpu_suspend pf me power_state entrypoint context_id s =
     obind (psci_validate_power_state pf power_state \<lparr>pwr_domain_state = (\<lambda>_. PSCI_LOCAL_STATE_RUN), last_at_pwrlvl = 0\<rparr> s)
     (\<lambda>(rc, state_info) s.
       if rc \<noteq> PSCI_E_SUCCESS then (if rc = PSCI_E_INVALID_PARAMS then Ret rc s else Halt)
       else
         let power_down = psci_get_pstate_type pf power_state \<noteq> 0;
             target_lvl = psci_find_target_suspend_lvl pf state_info
         in if psci_validate_suspend_req pf state_info power_down \<noteq> PSCI_E_SUCCESS then Halt
            else if target_lvl = PSCI_INVALID_PWR_LVL pf then Halt
            else if is_cpu_standby_req power_down target_lvl
            then case cpu_standby (psci_plat_pm_ops pf) of
                   None \<Rightarrow> Ret PSCI_E_INVALID_PARAMS s
                 | Some f \<Rightarrow>
                     let cpu_pd_state = pwr_domain_state state_info PSCI_CPU_PWR_LVL;
                         s1 = psci_set_cpu_local_state me cpu_pd_state s;
                         s2 = on_plat (f cpu_pd_state) (stat_start pf state_info s1)
                     in Wfi (s2\<lparr>stack := (stack s2)(me := Some (Cpu_Standby state_info))\<rparr>)
            else if power_down
            then let (rc, ep) = psci_validate_entry_point pf (plat s) (warmboot_ep_info s me) entrypoint context_id;
                     s1 = s\<lparr>warmboot_ep_info := (warmboot_ep_info s)(me := ep)\<rparr>
                 in if rc \<noteq> PSCI_E_SUCCESS then Ret rc s1
                    else psci_cpu_suspend_start pf me target_lvl state_info power_down s1
            else psci_cpu_suspend_start pf me target_lvl state_info power_down s)"

definition psci_cpu_standby_return ::
  "'p platform \<Rightarrow> nat \<Rightarrow> psci_power_state \<Rightarrow> 'p psci_state \<Rightarrow> (int, 'p psci_state) outcome" where
  "psci_cpu_standby_return pf me state_info s =
     (let s1 = stat_stop pf state_info (psci_set_cpu_local_state me PSCI_LOCAL_STATE_RUN s)
      in obind (stat_up pf me PSCI_CPU_PWR_LVL state_info s1) (\<lambda>_ s2. Ret PSCI_E_SUCCESS s2))"

text \<open>A core that wakes up from \<open>wfi\<close> with its context goes on where its stack says.\<close>

definition psci_wfi_return :: "'p platform \<Rightarrow> nat \<Rightarrow> 'p psci_state \<Rightarrow> (int, 'p psci_state) outcome" where
  "psci_wfi_return pf me s =
     (let s0 = s\<lparr>stack := (stack s)(me := None)\<rparr>
      in case stack s me of
           None \<Rightarrow> Halt
         | Some (Cpu_Standby state_info) \<Rightarrow> psci_cpu_standby_return pf me state_info s0
         | Some (Suspended end_lvl parent_nodes state_info power_down max_off) \<Rightarrow>
             psci_cpu_suspend_resume pf me end_lvl parent_nodes state_info power_down max_off s0)"

definition psci_system_suspend ::
  "'p platform \<Rightarrow> nat \<Rightarrow> uptr \<Rightarrow> u64 \<Rightarrow> 'p psci_state \<Rightarrow> (int, 'p psci_state) outcome" where
  "psci_system_suspend pf me entrypoint context_id s =
     obind (psci_is_last_on_cpu me s) (\<lambda>is_last s.
     if \<not> is_last then Ret PSCI_E_DENIED s
     else let (rc, ep) = psci_validate_entry_point pf (plat s) (warmboot_ep_info s me) entrypoint context_id;
              s1 = s\<lparr>warmboot_ep_info := (warmboot_ep_info s)(me := ep)\<rparr>
          in if rc \<noteq> PSCI_E_SUCCESS then Ret rc s1
             else obind (psci_query_sys_suspend_pwrstate pf (uninit_state pf) s1) (\<lambda>state_info s2.
               if psci_find_target_suspend_lvl pf state_info < PLAT_MAX_PWR_LVL pf then Ret PSCI_E_DENIED s2
               else if psci_validate_suspend_req pf state_info True \<noteq> PSCI_E_SUCCESS then Halt
               else if \<not> is_local_state_off pf (pwr_domain_state state_info (PLAT_MAX_PWR_LVL pf)) then Halt
               else psci_cpu_suspend_start pf me (PLAT_MAX_PWR_LVL pf) state_info True s2))"

definition psci_cpu_off :: "'p platform \<Rightarrow> nat \<Rightarrow> 'p psci_state \<Rightarrow> (int, 'p psci_state) outcome" where
  "psci_cpu_off pf me s =
     obind (psci_do_cpu_off pf me (PLAT_MAX_PWR_LVL pf) s)
       (\<lambda>rc s. if rc = PSCI_E_DENIED then Ret rc s else Halt)"

section \<open>Queries and migration\<close>

definition psci_get_aff_by_idx :: "nat \<Rightarrow> 'p psci_state \<Rightarrow> aff_info_state" where
  "psci_get_aff_by_idx cpu_idx s = psci_get_aff_info_state_by_idx cpu_idx s"

definition psci_affinity_info :: "'p platform \<Rightarrow> u64 \<Rightarrow> u32 \<Rightarrow> 'p psci_state \<Rightarrow> int" where
  "psci_affinity_info pf target_affinity lowest_affinity_level s =
     (if \<not> is_valid_mpidr pf target_affinity then PSCI_E_INVALID_PARAMS
      else if lowest_affinity_level > 0 then PSCI_E_INVALID_PARAMS
      else aff_info_code (psci_get_aff_by_idx (core_pos pf target_affinity) s))"

definition psci_migrate :: "'p platform \<Rightarrow> nat \<Rightarrow> u64 \<Rightarrow> 'p psci_state \<Rightarrow> (int, 'p psci_state) outcome" where
  "psci_migrate pf me target_cpu s =
     (if \<not> is_valid_mpidr pf target_cpu then Ret PSCI_E_INVALID_PARAMS s
      else obind (psci_spd_migrate_info 0 s) (\<lambda>(rc, resident_cpu_mpidr) s.
        if rc \<noteq> PSCI_TOS_UP_MIG_CAP
        then Ret (if rc = PSCI_TOS_NOT_UP_MIG_CAP then PSCI_E_DENIED else PSCI_E_NOT_SUPPORTED) s
        else if resident_cpu_mpidr \<noteq> read_mpidr pf me then Ret PSCI_E_NOT_PRESENT s
        else if \<not> is_valid_mpidr pf target_cpu then Ret PSCI_E_INVALID_PARAMS s
        else case spd_hook svc_migrate s of
               None \<Rightarrow> Halt
             | Some f \<Rightarrow>
                 let (rc, p) = f (read_mpidr pf me) target_cpu (plat s)
                 in obind (oassert (rc = PSCI_E_SUCCESS \<or> rc = PSCI_E_INTERN_FAIL) (s\<lparr>plat := p\<rparr>))
                      (\<lambda>_ s. Ret rc s)))"

definition psci_migrate_info_type :: "'p psci_state \<Rightarrow> (int, 'p psci_state) outcome" where
  "psci_migrate_info_type s = obind (psci_spd_migrate_info 0 s) (\<lambda>(rc, _) s. Ret rc s)"

definition psci_migrate_info_up_cpu :: "'p psci_state \<Rightarrow> (u64, 'p psci_state) outcome" where
  "psci_migrate_info_up_cpu s =
     obind (psci_spd_migrate_info 0 s) (\<lambda>(rc, resident_cpu_mpidr) s.
       Ret (if rc \<noteq> PSCI_TOS_NOT_UP_MIG_CAP \<and> rc \<noteq> PSCI_TOS_UP_MIG_CAP
            then word_of_int PSCI_E_INVALID_PARAMS else resident_cpu_mpidr) s)"

definition psci_node_hw_state :: "'p platform \<Rightarrow> u64 \<Rightarrow> u32 \<Rightarrow> 'p psci_state \<Rightarrow> (int, 'p psci_state) outcome" where
  "psci_node_hw_state pf target_cpu power_level s =
     (if \<not> is_valid_mpidr pf target_cpu then Ret PSCI_E_INVALID_PARAMS s
      else if unat power_level > PLAT_MAX_PWR_LVL pf then Ret PSCI_E_INVALID_PARAMS s
      else case get_node_hw_state (psci_plat_pm_ops pf) of
             None \<Rightarrow> Halt
           | Some f \<Rightarrow>
               let rc = f target_cpu (unat power_level) (plat s)
               in if (0 \<le> rc \<and> rc \<le> 2) \<or> rc = PSCI_E_NOT_SUPPORTED \<or> rc = PSCI_E_INVALID_PARAMS
                  then Ret rc s else Halt)"

section \<open>Features and suspend mode\<close>

definition PSCI_GENERIC_CAP :: u32 where
  "PSCI_GENERIC_CAP = define_psci_cap PSCI_VERSION OR define_psci_cap PSCI_AFFINITY_INFO_AARCH64 OR
     define_psci_cap PSCI_FEATURES"

definition PSCI_CAP_64BIT_MASK :: u32 where
  "PSCI_CAP_64BIT_MASK = define_psci_cap PSCI_CPU_SUSPEND_AARCH64 OR define_psci_cap PSCI_CPU_ON_AARCH64 OR
     define_psci_cap PSCI_AFFINITY_INFO_AARCH64 OR define_psci_cap PSCI_MIG_AARCH64 OR
     define_psci_cap PSCI_MIG_INFO_UP_CPU_AARCH64 OR define_psci_cap PSCI_NODE_HW_STATE_AARCH64 OR
     define_psci_cap PSCI_SYSTEM_SUSPEND_AARCH64 OR define_psci_cap PSCI_STAT_RESIDENCY_AARCH64 OR
     define_psci_cap PSCI_STAT_COUNT_AARCH64 OR define_psci_cap PSCI_SYSTEM_RESET2_AARCH64 OR
     define_psci_cap PSCI_MEM_CHK_RANGE_AARCH64"

definition smc_cc_64 :: "u32 \<Rightarrow> bool" where
  "smc_cc_64 fid \<longleftrightarrow> drop_bit 30 fid AND 0x1 = 1"

definition is_std_svc_call :: "u32 \<Rightarrow> bool" where
  "is_std_svc_call fid \<longleftrightarrow> drop_bit 24 fid AND 0x3f = 4"

definition is_valid_fast_smc :: "u32 \<Rightarrow> bool" where
  "is_valid_fast_smc fid \<longleftrightarrow> drop_bit 16 fid AND 0xff = 0 \<and> drop_bit 31 fid AND 0x1 = 1"

definition is_psci_fid :: "u32 \<Rightarrow> bool" where
  "is_psci_fid fid \<longleftrightarrow> fid AND 0xffe0 = 0"

definition psci_features :: "'p platform \<Rightarrow> u32 \<Rightarrow> 'p psci_state \<Rightarrow> int" where
  "psci_features pf psci_fid s =
     (if psci_fid = SMCCC_VERSION then PSCI_E_SUCCESS
      else let local_caps = (if smc_cc_64 psci_fid then psci_caps s AND PSCI_CAP_64BIT_MASK else psci_caps s)
           in if \<not> (is_std_svc_call psci_fid \<and> is_valid_fast_smc psci_fid \<and> is_psci_fid psci_fid)
              then PSCI_E_NOT_SUPPORTED
              else if local_caps AND define_psci_cap psci_fid = 0 then PSCI_E_NOT_SUPPORTED
              else if psci_fid = PSCI_CPU_SUSPEND_AARCH32 \<or> psci_fid = PSCI_CPU_SUSPEND_AARCH64
              then (if PSCI_EXTENDED_STATE_ID pf then 2 else 0) + (if PSCI_OS_INIT_MODE pf then 1 else 0)
              else PSCI_E_SUCCESS)"

definition psci_set_suspend_mode :: "'p platform \<Rightarrow> nat \<Rightarrow> u32 \<Rightarrow> 'p psci_state \<Rightarrow> (int, 'p psci_state) outcome" where
  "psci_set_suspend_mode pf this_core mode s =
     (if mode \<noteq> suspend_mode_code PLAT_COORD \<and> mode \<noteq> suspend_mode_code OS_INIT
      then Ret PSCI_E_INVALID_PARAMS s
      else
        let new_mode = (if mode = suspend_mode_code PLAT_COORD then PLAT_COORD else OS_INIT)
        in if psci_suspend_mode s = new_mode then Ret PSCI_E_SUCCESS s
           else
             let allowed =
               (case new_mode of
                  PLAT_COORD \<Rightarrow> psci_is_last_on_cpu_safe pf this_core s
                | OS_INIT \<Rightarrow> obind (psci_are_all_cpus_on_safe pf this_core s)
                    (\<lambda>all_on s. if all_on then Ret True s else psci_is_last_on_cpu_safe pf this_core s))
             in obind allowed (\<lambda>ok s.
                  if \<not> ok then Ret PSCI_E_DENIED s else Ret PSCI_E_SUCCESS (s\<lparr>psci_suspend_mode := new_mode\<rparr>)))"

section \<open>Memory protection, system off and reset\<close>

definition psci_mem_protect :: "'p platform \<Rightarrow> u32 \<Rightarrow> 'p psci_state \<Rightarrow> (u64, 'p psci_state) outcome" where
  "psci_mem_protect pf enable s =
     (case (read_mem_protect (psci_plat_pm_ops pf), write_mem_protect (psci_plat_pm_ops pf)) of
        (Some rd, Some wr) \<Rightarrow>
          (let (rc, val) = rd (plat s)
           in if rc < 0 then Ret (word_of_int PSCI_E_NOT_SUPPORTED) s
              else let (rc, p) = wr (sint enable) (plat s); s1 = s\<lparr>plat := p\<rparr>
                   in if rc < 0 then Ret (word_of_int PSCI_E_NOT_SUPPORTED) s1
                      else Ret (if val \<noteq> 0 then 1 else 0) s1)
      | _ \<Rightarrow> Halt)"

definition check_uptr_overflow :: "uptr \<Rightarrow> uptr \<Rightarrow> bool" where
  "check_uptr_overflow ptr inc \<longleftrightarrow> ptr > (- 1) - inc"

definition psci_mem_chk_range :: "'p platform \<Rightarrow> uptr \<Rightarrow> u64 \<Rightarrow> 'p psci_state \<Rightarrow> (u64, 'p psci_state) outcome" where
  "psci_mem_chk_range pf base len s =
     (case mem_protect_chk (psci_plat_pm_ops pf) of
        None \<Rightarrow> Halt
      | Some f \<Rightarrow>
          if len = 0 \<or> check_uptr_overflow base (len - 1) then Ret (word_of_int PSCI_E_DENIED) s
          else Ret (word_of_int (if f base len (plat s) < 0 then PSCI_E_DENIED else PSCI_E_SUCCESS)) s)"

definition system_power_down :: "'p platform \<Rightarrow> 'p psci_state \<Rightarrow> ('a, 'p psci_state) outcome" where
  "system_power_down pf s = psci_pwrdown_cpu_end_terminal pf (psci_pwrdown_cpu_start pf (PLAT_MAX_PWR_LVL pf) s)"

definition psci_system_off :: "'p platform \<Rightarrow> 'p psci_state \<Rightarrow> ('a, 'p psci_state) outcome" where
  "psci_system_off pf s =
     (case system_off (psci_plat_pm_ops pf) of
        None \<Rightarrow> Halt
      | Some f \<Rightarrow> system_power_down pf (on_plat f (call_hook (spd_hook svc_system_off s) s)))"

definition psci_system_reset :: "'p platform \<Rightarrow> 'p psci_state \<Rightarrow> ('a, 'p psci_state) outcome" where
  "psci_system_reset pf s =
     (case system_reset (psci_plat_pm_ops pf) of
        None \<Rightarrow> Halt
      | Some f \<Rightarrow> system_power_down pf (on_plat f (call_hook (spd_hook svc_system_reset s) s)))"

definition psci_system_reset2 :: "'p platform \<Rightarrow> u32 \<Rightarrow> u64 \<Rightarrow> 'p psci_state \<Rightarrow> (u64, 'p psci_state) outcome" where
  "psci_system_reset2 pf reset_type cookie s =
     (case system_reset2 (psci_plat_pm_ops pf) of
        None \<Rightarrow> Halt
      | Some f \<Rightarrow>
          let is_vendor = drop_bit 31 reset_type AND 1 \<noteq> 0;
              notify_and_reset = (\<lambda>s.
                let s1 = call_hook (spd_hook svc_system_reset s) s;
                    (rc, p) = f is_vendor reset_type cookie (plat s1);
                    s2 = s1\<lparr>plat := p\<rparr>
                in if rc \<noteq> PSCI_E_SUCCESS then Ret (word_of_int rc) s2 else system_power_down pf s2)
          in if is_vendor then notify_and_reset s
             else if reset_type \<noteq> 0 then Ret (word_of_int PSCI_E_INVALID_PARAMS) s
             else let (rc, s1) = call_hook_rc 0 (map_option (\<lambda>f. f 0) (write_mem_protect (psci_plat_pm_ops pf))) s
                  in if rc < 0 then Ret (word_of_int PSCI_E_NOT_SUPPORTED) s1 else notify_and_reset s1)"

section \<open>SMC dispatcher\<close>

definition is_caller_non_secure :: "'p platform \<Rightarrow> u64 \<Rightarrow> bool" where
  "is_caller_non_secure pf flags \<longleftrightarrow>
     (if ENABLE_RMM pf then flags AND 0x21 = 0x1 else flags AND 0x1 \<noteq> 0)"

abbreviation (input) SMC_UNK :: u64 where "SMC_UNK \<equiv> - 1"

text \<open>\<open>(u_register_t)\<close> applied to an \<open>int\<close> return code.\<close>

definition as_reg :: "(int, 's) outcome \<Rightarrow> (u64, 's) outcome" where
  "as_reg m = obind m (\<lambda>rc s. Ret (word_of_int rc) s)"

definition psci_smc32 ::
  "'p platform \<Rightarrow> nat \<Rightarrow> u32 \<Rightarrow> u32 \<Rightarrow> u32 \<Rightarrow> u32 \<Rightarrow> 'p psci_state \<Rightarrow> (u64, 'p psci_state) outcome" where
  "psci_smc32 pf me fid r1 r2 r3 s =
     (if fid = PSCI_VERSION then Ret (ucast psci_version) s
      else if fid = PSCI_CPU_OFF then as_reg (psci_cpu_off pf me s)
      else if fid = PSCI_CPU_SUSPEND_AARCH32 then as_reg (psci_cpu_suspend pf me r1 (ucast r2) (ucast r3) s)
      else if fid = PSCI_CPU_ON_AARCH32 then as_reg (psci_cpu_on pf (ucast r1) (ucast r2) (ucast r3) s)
      else if fid = PSCI_AFFINITY_INFO_AARCH32 then Ret (word_of_int (psci_affinity_info pf (ucast r1) r2 s)) s
      else if fid = PSCI_MIG_AARCH32 then as_reg (psci_migrate pf me (ucast r1) s)
      else if fid = PSCI_MIG_INFO_TYPE then as_reg (psci_migrate_info_type s)
      else if fid = PSCI_MIG_INFO_UP_CPU_AARCH32 then psci_migrate_info_up_cpu s
      else if fid = PSCI_NODE_HW_STATE_AARCH32 then as_reg (psci_node_hw_state pf (ucast r1) r2 s)
      else if fid = PSCI_SYSTEM_SUSPEND_AARCH32 then as_reg (psci_system_suspend pf me (ucast r1) (ucast r2) s)
      else if fid = PSCI_SYSTEM_OFF then psci_system_off pf s
      else if fid = PSCI_SYSTEM_RESET then psci_system_reset pf s
      else if fid = PSCI_FEATURES then Ret (word_of_int (psci_features pf r1 s)) s
      else if PSCI_OS_INIT_MODE pf \<and> fid = PSCI_SET_SUSPEND_MODE then as_reg (psci_set_suspend_mode pf me r1 s)
      else if ENABLE_PSCI_STAT pf \<and> fid = PSCI_STAT_RESIDENCY_AARCH32 then psci_stat_residency pf (ucast r1) r2 s
      else if ENABLE_PSCI_STAT pf \<and> fid = PSCI_STAT_COUNT_AARCH32 then psci_stat_count pf (ucast r1) r2 s
      else if fid = PSCI_MEM_PROTECT then psci_mem_protect pf r1 s
      else if fid = PSCI_MEM_CHK_RANGE_AARCH32 then psci_mem_chk_range pf (ucast r1) (ucast r2) s
      else if fid = PSCI_SYSTEM_RESET2_AARCH32 then psci_system_reset2 pf r1 (ucast r2) s
      else Ret SMC_UNK s)"

definition psci_smc64 ::
  "'p platform \<Rightarrow> nat \<Rightarrow> u32 \<Rightarrow> u64 \<Rightarrow> u64 \<Rightarrow> u64 \<Rightarrow> 'p psci_state \<Rightarrow> (u64, 'p psci_state) outcome" where
  "psci_smc64 pf me fid x1 x2 x3 s =
     (if fid = PSCI_CPU_SUSPEND_AARCH64 then as_reg (psci_cpu_suspend pf me (ucast x1) x2 x3 s)
      else if fid = PSCI_CPU_ON_AARCH64 then as_reg (psci_cpu_on pf x1 x2 x3 s)
      else if fid = PSCI_AFFINITY_INFO_AARCH64 then Ret (word_of_int (psci_affinity_info pf x1 (ucast x2) s)) s
      else if fid = PSCI_MIG_AARCH64 then as_reg (psci_migrate pf me x1 s)
      else if fid = PSCI_MIG_INFO_UP_CPU_AARCH64 then psci_migrate_info_up_cpu s
      else if fid = PSCI_NODE_HW_STATE_AARCH64 then as_reg (psci_node_hw_state pf x1 (ucast x2) s)
      else if fid = PSCI_SYSTEM_SUSPEND_AARCH64 then as_reg (psci_system_suspend pf me x1 x2 s)
      else if ENABLE_PSCI_STAT pf \<and> fid = PSCI_STAT_RESIDENCY_AARCH64 then psci_stat_residency pf x1 (ucast x2) s
      else if ENABLE_PSCI_STAT pf \<and> fid = PSCI_STAT_COUNT_AARCH64 then psci_stat_count pf x1 (ucast x2) s
      else if fid = PSCI_MEM_CHK_RANGE_AARCH64 then psci_mem_chk_range pf x1 x2 s
      else if fid = PSCI_SYSTEM_RESET2_AARCH64 then psci_system_reset2 pf (ucast x1) x2 s
      else Ret SMC_UNK s)"

definition psci_smc_handler ::
  "'p platform \<Rightarrow> nat \<Rightarrow> u32 \<Rightarrow> u64 \<Rightarrow> u64 \<Rightarrow> u64 \<Rightarrow> u64 \<Rightarrow> 'p psci_state \<Rightarrow> (u64, 'p psci_state) outcome" where
  "psci_smc_handler pf me smc_fid x1 x2 x3 flags s =
     (if \<not> is_caller_non_secure pf flags then Ret SMC_UNK s
      else if psci_caps s AND define_psci_cap smc_fid = 0 then Ret SMC_UNK s
      else if \<not> smc_cc_64 smc_fid then psci_smc32 pf me smc_fid (ucast x1) (ucast x2) (ucast x3) s
      else psci_smc64 pf me smc_fid x1 x2 x3 s)"

end
