(* ===== verification/Psci_Setup.thy ===== *)
theory Psci_Setup
  imports Psci_Main
begin

unbundle bit_operations_syntax

text \<open>
  Cold boot of the PSCI service, \<open>lib/psci/psci_setup.c\<close>: the power-domain tree is built from
  the platform's breadth-first description, the ranges of CPUs below each domain are computed, and
  the capabilities are derived from the hooks the platform provides.
\<close>

section \<open>The power-domain tree\<close>

definition upd_node ::
  "nat \<Rightarrow> (non_cpu_pd_node \<Rightarrow> non_cpu_pd_node) \<Rightarrow> 'p psci_state \<Rightarrow> 'p psci_state" where
  "upd_node i f s = s\<lparr>psci_non_cpu_pd_nodes := (psci_non_cpu_pd_nodes s)(i := f (psci_non_cpu_pd_nodes s i))\<rparr>"

definition psci_init_pwr_domain_node ::
  "'p platform \<Rightarrow> nat \<Rightarrow> nat \<Rightarrow> nat \<Rightarrow> 'p psci_state \<Rightarrow> (unit, 'p psci_state) outcome" where
  "psci_init_pwr_domain_node pf node_idx parent_idx level s =
     (if level > PSCI_CPU_PWR_LVL
      then obind (oassert (node_idx < PSCI_NUM_NON_CPU_PWR_DOMAINS pf) s) (\<lambda>_ s.
        Ret () (upd_node node_idx (\<lambda>nd. nd\<lparr>node_level := level, lock_index := node_idx, parent_node := parent_idx,
                                           node_local_state := PLAT_MAX_OFF_STATE pf\<rparr>) s))
      else obind (oassert (node_idx < PLATFORM_CORE_COUNT pf) s) (\<lambda>_ s.
        Ret () (s\<lparr>psci_cpu_pd_nodes := (psci_cpu_pd_nodes s)(node_idx :=
                    \<lparr>cpu_mpidr = PSCI_INVALID_MPIDR, cpu_parent_node = parent_idx\<rparr>),
                  psci_svc_cpu_data := (psci_svc_cpu_data s)(node_idx :=
                    \<lparr>aff_info_state = AFF_STATE_OFF, target_pwrlvl = PLAT_MAX_PWR_LVL pf,
                     local_state = PLAT_MAX_OFF_STATE pf\<rparr>)\<rparr>)))"

text \<open>
  The loops of \<open>populate_power_domain_tree\<close>: over the children of a parent (\<open>j\<close> is a
  \<open>uint16_t\<close> in the call), over the parents of a level, over the levels. \<open>parent_node_index - 1U\<close>
  is unsigned, so the root nodes get \<open>PSCI_PARENT_NODE_INVALID\<close>. Reading past the
  description is \<open>Halt\<close>.
\<close>

fun init_children_loop ::
  "'p platform \<Rightarrow> nat \<Rightarrow> nat \<Rightarrow> nat \<Rightarrow> nat \<Rightarrow> 'p psci_state \<Rightarrow> (nat, 'p psci_state) outcome" where
  "init_children_loop pf 0 j parent_node_index level s = Ret j s"
| "init_children_loop pf (Suc k) j parent_node_index level s =
     obind (psci_init_pwr_domain_node pf (j mod 0x10000)
              (if parent_node_index = 0 then PSCI_PARENT_NODE_INVALID else parent_node_index - 1) level s)
       (\<lambda>_ s. init_children_loop pf k (j + 1) parent_node_index level s)"

fun populate_level_loop ::
  "'p platform \<Rightarrow> nat list \<Rightarrow> nat \<Rightarrow> nat \<Rightarrow> nat \<Rightarrow> nat \<Rightarrow> nat \<Rightarrow> nat \<Rightarrow> 'p psci_state
     \<Rightarrow> (nat \<times> nat \<times> nat \<times> nat, 'p psci_state) outcome" where
  "populate_level_loop pf topology 0 j node_index parent_node_index next_lvl level s =
     Ret (j, node_index, parent_node_index, next_lvl) s"
| "populate_level_loop pf topology (Suc k) j node_index parent_node_index next_lvl level s =
     obind (oassert (parent_node_index \<le> PSCI_NUM_NON_CPU_PWR_DOMAINS pf \<and> parent_node_index < length topology) s)
     (\<lambda>_ s. let n = topology ! parent_node_index in
       obind (init_children_loop pf n node_index parent_node_index level s) (\<lambda>j s.
         let s1 = (if PSCI_OS_INIT_MODE pf \<and> parent_node_index > 0
                   then upd_node (parent_node_index - 1)
                          (\<lambda>nd. nd\<lparr>first_child_idx := node_index, num_children := n\<rparr>) s
                   else s)
         in populate_level_loop pf topology k j j (parent_node_index + 1) (next_lvl + n) level s1))"

fun populate_levels ::
  "'p platform \<Rightarrow> nat list \<Rightarrow> nat \<Rightarrow> nat \<Rightarrow> nat \<Rightarrow> nat \<Rightarrow> nat \<Rightarrow> 'p psci_state \<Rightarrow> (nat, 'p psci_state) outcome" where
  "populate_levels pf topology 0 num_nodes j node_index parent_node_index s =
     obind (populate_level_loop pf topology num_nodes j node_index parent_node_index 0 0 s)
       (\<lambda>(j, _, _, _) s. Ret j s)"
| "populate_levels pf topology (Suc level) num_nodes j node_index parent_node_index s =
     obind (populate_level_loop pf topology num_nodes j node_index parent_node_index 0 (Suc level) s)
       (\<lambda>(j, i, p, next_lvl) s. populate_levels pf topology level next_lvl j (if level = 0 then 0 else i) p s)"

definition populate_power_domain_tree ::
  "'p platform \<Rightarrow> nat list \<Rightarrow> 'p psci_state \<Rightarrow> (nat, 'p psci_state) outcome" where
  "populate_power_domain_tree pf topology s =
     obind (populate_levels pf topology (PLAT_MAX_PWR_LVL pf) 1 0 0 0 s)
       (\<lambda>j s. obind (oassert (j \<le> PLATFORM_CORE_COUNT pf) s) (\<lambda>_ s. Ret j s))"

text \<open>
  \<open>psci_update_pwrlvl_limits\<close>: for every CPU, from the top level down, count the CPU in its
  ancestor and start a new range where the ancestor differs from that of the previous CPU.
\<close>

fun limits_levels_loop ::
  "nat \<Rightarrow> nat \<Rightarrow> nat list \<Rightarrow> (nat \<Rightarrow> nat) \<Rightarrow> 'p psci_state \<Rightarrow> (nat \<Rightarrow> nat) \<times> 'p psci_state" where
  "limits_levels_loop 0 cpu_idx temp_index nodes_idx s = (nodes_idx, s)"
| "limits_levels_loop (Suc j) cpu_idx temp_index nodes_idx s =
     (let changed = (temp_index ! j \<noteq> nodes_idx j);
          nodes_idx' = (if changed then nodes_idx(j := temp_index ! j) else nodes_idx);
          s1 = (if changed then upd_node (nodes_idx' j) (\<lambda>nd. nd\<lparr>cpu_start_idx := cpu_idx\<rparr>) s else s);
          s2 = upd_node (nodes_idx' j) (\<lambda>nd. nd\<lparr>ncpus := ncpus nd + 1\<rparr>) s1
      in limits_levels_loop j cpu_idx temp_index nodes_idx' s2)"

fun limits_cpus_loop :: "'p platform \<Rightarrow> nat \<Rightarrow> nat \<Rightarrow> (nat \<Rightarrow> nat) \<Rightarrow> 'p psci_state \<Rightarrow> 'p psci_state" where
  "limits_cpus_loop pf 0 cpu_idx nodes_idx s = s"
| "limits_cpus_loop pf (Suc k) cpu_idx nodes_idx s =
     (let temp_index = psci_get_parent_pwr_domain_nodes cpu_idx (PLAT_MAX_PWR_LVL pf) s;
          (nodes_idx', s1) = limits_levels_loop (PLAT_MAX_PWR_LVL pf) cpu_idx temp_index nodes_idx s
      in limits_cpus_loop pf k (cpu_idx + 1) nodes_idx' s1)"

definition psci_update_pwrlvl_limits :: "'p platform \<Rightarrow> 'p psci_state \<Rightarrow> 'p psci_state" where
  "psci_update_pwrlvl_limits pf s = limits_cpus_loop pf (psci_plat_core_count s) 0 (\<lambda>_. 0) s"

section \<open>Capabilities and cold boot\<close>

definition cap_if :: "bool \<Rightarrow> u32 \<Rightarrow> u32 \<Rightarrow> u32" where
  "cap_if b fid caps = (if b then caps OR define_psci_cap fid else caps)"

definition psci_setup_caps :: "'p platform \<Rightarrow> u32" where
  "psci_setup_caps pf =
     (let ops = psci_plat_pm_ops pf;
          susp = pwr_domain_suspend ops \<noteq> None \<and> pwr_domain_suspend_finish ops \<noteq> None;
          c = PSCI_GENERIC_CAP;
          c = cap_if (pwr_domain_off ops \<noteq> None) PSCI_CPU_OFF c;
          c = cap_if (pwr_domain_on ops \<noteq> None \<and> pwr_domain_on_finish ops \<noteq> None) PSCI_CPU_ON_AARCH64 c;
          c = cap_if (susp \<and> validate_power_state ops \<noteq> None) PSCI_CPU_SUSPEND_AARCH64 c;
          c = cap_if (susp \<and> get_sys_suspend_power_state ops \<noteq> None) PSCI_SYSTEM_SUSPEND_AARCH64 c;
          c = cap_if (susp \<and> PSCI_OS_INIT_MODE pf) PSCI_SET_SUSPEND_MODE c;
          c = cap_if (system_off ops \<noteq> None) PSCI_SYSTEM_OFF c;
          c = cap_if (system_reset ops \<noteq> None) PSCI_SYSTEM_RESET c;
          c = cap_if (get_node_hw_state ops \<noteq> None) PSCI_NODE_HW_STATE_AARCH64 c;
          c = cap_if (read_mem_protect ops \<noteq> None \<and> write_mem_protect ops \<noteq> None) PSCI_MEM_PROTECT c;
          c = cap_if (mem_protect_chk ops \<noteq> None) PSCI_MEM_CHK_RANGE_AARCH64 c;
          c = cap_if (system_reset2 ops \<noteq> None) PSCI_SYSTEM_RESET2_AARCH64 c;
          c = cap_if (ENABLE_PSCI_STAT pf) PSCI_STAT_RESIDENCY_AARCH64 c
      in cap_if (ENABLE_PSCI_STAT pf) PSCI_STAT_COUNT_AARCH64 c)"

definition psci_setup :: "'p platform \<Rightarrow> nat \<Rightarrow> 'p psci_state \<Rightarrow> (int, 'p psci_state) outcome" where
  "psci_setup pf cpu_idx s =
     obind (populate_power_domain_tree pf (plat_get_power_domain_tree_desc pf) s) (\<lambda>n s.
       let s1 = psci_update_pwrlvl_limits pf (s\<lparr>psci_plat_core_count := n\<rparr>);
           s2 = s1\<lparr>psci_cpu_pd_nodes := (psci_cpu_pd_nodes s1)(cpu_idx := (psci_cpu_pd_nodes s1 cpu_idx)
                     \<lparr>cpu_mpidr := read_mpidr pf cpu_idx AND MPIDR_AFFINITY_MASK\<rparr>)\<rparr>;
           s3 = psci_init_req_local_pwr_states pf s2;
           s4 = psci_set_pwr_domains_to_run pf cpu_idx (PLAT_MAX_PWR_LVL pf) s3
       in Ret 0 (s4\<lparr>psci_caps := psci_setup_caps pf\<rparr>))"

text \<open>The state before \<open>psci_setup\<close>: zero-initialised memory, and \<open>-1\<close> in the last-CPU table.\<close>

definition psci_bss :: "'p \<Rightarrow> 'p psci_state" where
  "psci_bss p = \<lparr>psci_req_local_pwr_states = \<lambda>_ _. 0,
     psci_non_cpu_pd_nodes = \<lambda>_. \<lparr>cpu_start_idx = 0, ncpus = 0, parent_node = 0, first_child_idx = 0,
       num_children = 0, node_local_state = 0, node_level = 0, lock_index = 0\<rparr>,
     psci_cpu_pd_nodes = \<lambda>_. \<lparr>cpu_mpidr = 0, cpu_parent_node = 0\<rparr>,
     psci_svc_cpu_data = \<lambda>_. \<lparr>aff_info_state = AFF_STATE_ON, target_pwrlvl = 0, local_state = 0\<rparr>,
     warmboot_ep_info = \<lambda>_. local_ep, psci_caps = 0, psci_plat_core_count = 0, psci_suspend_mode = PLAT_COORD,
     psci_spd_pm = None, psci_cpu_stat = \<lambda>_ _. \<lparr>residency = 0, count = 0\<rparr>,
     psci_non_cpu_stat = \<lambda>_ _. \<lparr>residency = 0, count = 0\<rparr>, last_cpu_in_non_cpu_pd = \<lambda>_. - 1,
     lock_log = [], stack = \<lambda>_. None, ns_context = \<lambda>_. None, plat = p\<rparr>"

end
