(* ===== verification/Psci_Topology.thy ===== *)
theory Psci_Topology
  imports Psci_Setup
begin

unbundle bit_operations_syntax

text \<open>
  Facts on composite power states and on the power-domain tree that every PSCI proof rests on: which
  level a state targets, what a well-formed tree is, and what the loops over a core's ancestors
  read and write.
\<close>

section \<open>Levels of a composite power state\<close>

lemma find_lvl_down_Some:
  "find_lvl_down P st n = Some i \<longleftrightarrow> i \<le> n \<and> P (st i) \<and> (\<forall>j. i < j \<and> j \<le> n \<longrightarrow> \<not> P (st j))"
proof (induction n)
  case 0
  then show ?case by auto
next
  case (Suc n)
  then show ?case
    by (auto simp: le_Suc_eq)
qed

lemma find_lvl_down_None: "find_lvl_down P st n = None \<longleftrightarrow> (\<forall>i\<le>n. \<not> P (st i))"
  by (induction n) (auto simp: le_Suc_eq)

lemma find_max_off_lvl_valid:
  "psci_find_max_off_lvl pf si = l \<and> l \<le> PLAT_MAX_PWR_LVL pf \<longleftrightarrow>
   l \<le> PLAT_MAX_PWR_LVL pf \<and> is_local_state_off pf (pwr_domain_state si l) \<and>
   (\<forall>j. l < j \<and> j \<le> PLAT_MAX_PWR_LVL pf \<longrightarrow> \<not> is_local_state_off pf (pwr_domain_state si j))"
  using find_lvl_down_Some[of "is_local_state_off pf" "pwr_domain_state si" "PLAT_MAX_PWR_LVL pf" l]
  by (auto simp: psci_find_max_off_lvl_def PSCI_INVALID_PWR_LVL_def split: option.splits)

lemma find_max_off_lvl_invalid:
  "psci_find_max_off_lvl pf si = PSCI_INVALID_PWR_LVL pf \<longleftrightarrow>
   (\<forall>l\<le>PLAT_MAX_PWR_LVL pf. \<not> is_local_state_off pf (pwr_domain_state si l))"
  by (auto simp: psci_find_max_off_lvl_def PSCI_INVALID_PWR_LVL_def find_lvl_down_None
      find_lvl_down_Some split: option.splits)

lemma find_target_suspend_lvl_valid:
  "psci_find_target_suspend_lvl pf si = l \<and> l \<le> PLAT_MAX_PWR_LVL pf \<longleftrightarrow>
   l \<le> PLAT_MAX_PWR_LVL pf \<and> pwr_domain_state si l \<noteq> PSCI_LOCAL_STATE_RUN \<and>
   (\<forall>j. l < j \<and> j \<le> PLAT_MAX_PWR_LVL pf \<longrightarrow> pwr_domain_state si j = PSCI_LOCAL_STATE_RUN)"
  using find_lvl_down_Some[of "\<lambda>st. \<not> is_local_state_run st" "pwr_domain_state si" "PLAT_MAX_PWR_LVL pf" l]
  by (auto simp: psci_find_target_suspend_lvl_def PSCI_INVALID_PWR_LVL_def is_local_state_run_def split: option.splits)

lemma find_target_suspend_lvl_invalid:
  "psci_find_target_suspend_lvl pf si = PSCI_INVALID_PWR_LVL pf \<longleftrightarrow>
   (\<forall>l\<le>PLAT_MAX_PWR_LVL pf. pwr_domain_state si l = PSCI_LOCAL_STATE_RUN)"
  by (auto simp: psci_find_target_suspend_lvl_def PSCI_INVALID_PWR_LVL_def find_lvl_down_None
      find_lvl_down_Some is_local_state_run_def split: option.splits)

lemma find_target_suspend_lvl_cases:
  "psci_find_target_suspend_lvl pf si = PSCI_INVALID_PWR_LVL pf \<or> psci_find_target_suspend_lvl pf si \<le> PLAT_MAX_PWR_LVL pf"
  using find_lvl_down_Some[of "\<lambda>st. \<not> is_local_state_run st" "pwr_domain_state si" "PLAT_MAX_PWR_LVL pf"]
  by (auto simp: psci_find_target_suspend_lvl_def simp del: split: option.splits)

text \<open>
  How deep a local state is: run, retention, off. A suspend request is well formed when it asks for
  some level below run, never for a deeper state at a higher level, and for an off state only when it
  is a power-down request.
\<close>

definition depth :: "'p platform \<Rightarrow> u8 \<Rightarrow> nat" where
  "depth pf st = state_type_rank (find_local_state_type pf st)"

lemma depth_simps [simp]: "depth pf 0 = 0" "depth pf st = 0 \<longleftrightarrow> st = 0"
  by (auto simp: depth_def state_type_rank_def find_local_state_type_def)

lemma suspend_req_types_ok_iff:
  "suspend_req_types_ok pf d st n \<longleftrightarrow>
   state_type_rank d \<le> depth pf (st n) \<and> (\<forall>i j. i \<le> j \<and> j \<le> n \<longrightarrow> depth pf (st j) \<le> depth pf (st i))"
proof (induction n arbitrary: d)
  case 0
  then show ?case by (auto simp: depth_def not_less)
next
  case (Suc n)
  have "(\<forall>i j. i \<le> j \<and> j \<le> Suc n \<longrightarrow> depth pf (st j) \<le> depth pf (st i)) \<longleftrightarrow>
     depth pf (st (Suc n)) \<le> depth pf (st n) \<and> (\<forall>i j. i \<le> j \<and> j \<le> n \<longrightarrow> depth pf (st j) \<le> depth pf (st i))"
  proof (intro iffI conjI allI impI; (elim conjE)?)
    fix i j
    assume le: "depth pf (st (Suc n)) \<le> depth pf (st n)" "i \<le> j" "j \<le> Suc n"
      and mono: "\<forall>i j. i \<le> j \<and> j \<le> n \<longrightarrow> depth pf (st j) \<le> depth pf (st i)"
    show "depth pf (st j) \<le> depth pf (st i)"
    proof (cases "j = Suc n \<and> i \<noteq> j")
      case True
      then have "depth pf (st n) \<le> depth pf (st i)"
        using mono le by simp
      then show ?thesis
        using le True by simp
    qed (use le mono in \<open>auto simp: le_Suc_eq\<close>)
  qed simp_all
  then show ?case
    using Suc by (auto simp: depth_def not_less)
qed

lemma validate_suspend_req_iff:
  "psci_validate_suspend_req pf si pd = PSCI_E_SUCCESS \<longleftrightarrow>
     (\<exists>l\<le>PLAT_MAX_PWR_LVL pf. pwr_domain_state si l \<noteq> PSCI_LOCAL_STATE_RUN) \<and>
     (\<forall>i j. i \<le> j \<and> j \<le> PLAT_MAX_PWR_LVL pf \<longrightarrow> depth pf (pwr_domain_state si j) \<le> depth pf (pwr_domain_state si i)) \<and>
     (\<not> pd \<longrightarrow> (\<forall>l\<le>PLAT_MAX_PWR_LVL pf. \<not> is_local_state_off pf (pwr_domain_state si l)))"
proof (cases "psci_find_target_suspend_lvl pf si = PSCI_INVALID_PWR_LVL pf")
  case True
  then show ?thesis
    using find_target_suspend_lvl_invalid[of pf si] by (auto simp: psci_validate_suspend_req_def)
next
  case False
  define t where "t = psci_find_target_suspend_lvl pf si"
  have t: "t \<le> PLAT_MAX_PWR_LVL pf"
    using False find_target_suspend_lvl_cases[of pf si] t_def by simp
  then have above: "pwr_domain_state si j = 0" if "t < j" "j \<le> PLAT_MAX_PWR_LVL pf" for j
    using find_target_suspend_lvl_valid[of pf si t] that t_def by auto
  have mono: "(\<forall>i j. i \<le> j \<and> j \<le> t \<longrightarrow> depth pf (pwr_domain_state si j) \<le> depth pf (pwr_domain_state si i)) \<longleftrightarrow>
    (\<forall>i j. i \<le> j \<and> j \<le> PLAT_MAX_PWR_LVL pf \<longrightarrow> depth pf (pwr_domain_state si j) \<le> depth pf (pwr_domain_state si i))"
  proof (intro iffI allI impI; elim conjE)
    fix i j
    assume "\<forall>i j. i \<le> j \<and> j \<le> t \<longrightarrow> depth pf (pwr_domain_state si j) \<le> depth pf (pwr_domain_state si i)"
      and "i \<le> j" "j \<le> PLAT_MAX_PWR_LVL pf"
    then show "depth pf (pwr_domain_state si j) \<le> depth pf (pwr_domain_state si i)"
      using above by (cases "j \<le> t") auto
  qed (use t in auto)
  have ex: "\<exists>l\<le>PLAT_MAX_PWR_LVL pf. pwr_domain_state si l \<noteq> 0"
    using False find_target_suspend_lvl_invalid[of pf si] by blast
  have types: "suspend_req_types_ok pf STATE_TYPE_RUN (pwr_domain_state si) t \<longleftrightarrow>
    (\<forall>i j. i \<le> j \<and> j \<le> PLAT_MAX_PWR_LVL pf \<longrightarrow> depth pf (pwr_domain_state si j) \<le> depth pf (pwr_domain_state si i))"
    by (simp only: suspend_req_types_ok_iff mono) (simp add: state_type_rank_def)
  show ?thesis
    unfolding psci_validate_suspend_req_def Let_def t_def[symmetric] types find_max_off_lvl_invalid
    using False ex find_max_off_lvl_invalid[of pf si] t_def by (simp, metis)
qed

section \<open>Walking up the tree\<close>

text \<open>
  The ancestor of a core at a level, and the part of the state no operation after cold boot changes:
  the number of cores, the parents, the CPU ranges, the levels and the locks of the nodes.
\<close>

definition ancestor :: "'p psci_state \<Rightarrow> nat \<Rightarrow> nat \<Rightarrow> nat" where
  "ancestor s c l = up_loop (l - 1) (cpu_parent_node (psci_cpu_pd_nodes s c)) s"

definition shape :: "'p psci_state \<Rightarrow> nat \<times> (nat \<Rightarrow> nat) \<times> (nat \<Rightarrow> non_cpu_pd_node)" where
  "shape s = (psci_plat_core_count s, \<lambda>c. cpu_parent_node (psci_cpu_pd_nodes s c),
     \<lambda>n. (psci_non_cpu_pd_nodes s n)\<lparr>node_local_state := 0\<rparr>)"

lemma shape_eqD:
  assumes "shape t = shape s"
  shows "psci_plat_core_count t = psci_plat_core_count s"
    and "cpu_parent_node (psci_cpu_pd_nodes t c) = cpu_parent_node (psci_cpu_pd_nodes s c)"
    and "cpu_start_idx (psci_non_cpu_pd_nodes t n) = cpu_start_idx (psci_non_cpu_pd_nodes s n)"
    and "ncpus (psci_non_cpu_pd_nodes t n) = ncpus (psci_non_cpu_pd_nodes s n)"
    and "parent_node (psci_non_cpu_pd_nodes t n) = parent_node (psci_non_cpu_pd_nodes s n)"
    and "first_child_idx (psci_non_cpu_pd_nodes t n) = first_child_idx (psci_non_cpu_pd_nodes s n)"
    and "num_children (psci_non_cpu_pd_nodes t n) = num_children (psci_non_cpu_pd_nodes s n)"
    and "node_level (psci_non_cpu_pd_nodes t n) = node_level (psci_non_cpu_pd_nodes s n)"
    and "lock_index (psci_non_cpu_pd_nodes t n) = lock_index (psci_non_cpu_pd_nodes s n)"
proof -
  have nd: "(psci_non_cpu_pd_nodes t n)\<lparr>node_local_state := 0\<rparr> = (psci_non_cpu_pd_nodes s n)\<lparr>node_local_state := 0\<rparr>"
    and p: "cpu_parent_node (psci_cpu_pd_nodes t c) = cpu_parent_node (psci_cpu_pd_nodes s c)" for n c
    using assms by (auto simp: shape_def fun_eq_iff)
  show "psci_plat_core_count t = psci_plat_core_count s"
    using assms by (simp add: shape_def)
  show "cpu_parent_node (psci_cpu_pd_nodes t c) = cpu_parent_node (psci_cpu_pd_nodes s c)"
    by (rule p)
  show "cpu_start_idx (psci_non_cpu_pd_nodes t n) = cpu_start_idx (psci_non_cpu_pd_nodes s n)"
    using arg_cong[OF nd, of cpu_start_idx] by simp
  show "ncpus (psci_non_cpu_pd_nodes t n) = ncpus (psci_non_cpu_pd_nodes s n)"
    using arg_cong[OF nd, of ncpus] by simp
  show "parent_node (psci_non_cpu_pd_nodes t n) = parent_node (psci_non_cpu_pd_nodes s n)"
    using arg_cong[OF nd, of parent_node] by simp
  show "first_child_idx (psci_non_cpu_pd_nodes t n) = first_child_idx (psci_non_cpu_pd_nodes s n)"
    using arg_cong[OF nd, of first_child_idx] by simp
  show "num_children (psci_non_cpu_pd_nodes t n) = num_children (psci_non_cpu_pd_nodes s n)"
    using arg_cong[OF nd, of num_children] by simp
  show "node_level (psci_non_cpu_pd_nodes t n) = node_level (psci_non_cpu_pd_nodes s n)"
    using arg_cong[OF nd, of node_level] by simp
  show "lock_index (psci_non_cpu_pd_nodes t n) = lock_index (psci_non_cpu_pd_nodes s n)"
    using arg_cong[OF nd, of lock_index] by simp
qed

lemma up_loop_shape:
  assumes "shape t = shape s"
  shows "up_loop k p t = up_loop k p s"
  by (induction k arbitrary: p) (simp_all add: shape_eqD[OF assms])

lemma ancestor_shape:
  assumes "shape t = shape s"
  shows "ancestor t = ancestor s"
  by (simp add: ancestor_def fun_eq_iff up_loop_shape[OF assms] shape_eqD[OF assms])

lemma ancestor_up: "up_loop i (cpu_parent_node (psci_cpu_pd_nodes s c)) s = ancestor s c (Suc i)"
  by (simp add: ancestor_def)

lemma shape_set_req [simp]: "shape (psci_set_req_local_pwr_state pf l c r s) = shape s"
  by (simp add: shape_def psci_set_req_local_pwr_state_def)

lemma shape_set_node_state [simp]: "shape (set_non_cpu_pd_node_local_state n st s) = shape s"
  by (auto simp: shape_def set_non_cpu_pd_node_local_state_def fun_eq_iff)

lemma shape_updates [simp]:
  "shape (s\<lparr>psci_req_local_pwr_states := a\<rparr>) = shape s"
  "shape (s\<lparr>psci_svc_cpu_data := b\<rparr>) = shape s"
  "shape (s\<lparr>warmboot_ep_info := ep\<rparr>) = shape s"
  "shape (s\<lparr>psci_caps := cp\<rparr>) = shape s"
  "shape (s\<lparr>psci_suspend_mode := m\<rparr>) = shape s"
  "shape (s\<lparr>psci_spd_pm := spd\<rparr>) = shape s"
  "shape (s\<lparr>psci_cpu_stat := st\<rparr>) = shape s"
  "shape (s\<lparr>psci_non_cpu_stat := st\<rparr>) = shape s"
  "shape (s\<lparr>last_cpu_in_non_cpu_pd := lc\<rparr>) = shape s"
  "shape (s\<lparr>lock_log := ll\<rparr>) = shape s"
  "shape (s\<lparr>stack := sk\<rparr>) = shape s"
  "shape (s\<lparr>ns_context := nc\<rparr>) = shape s"
  "shape (s\<lparr>plat := p\<rparr>) = shape s"
  by (simp_all add: shape_def)

section \<open>Well-formed trees\<close>

definition in_domain :: "'p psci_state \<Rightarrow> nat \<Rightarrow> nat \<Rightarrow> bool" where
  "in_domain s n d \<longleftrightarrow> cpu_start_idx (psci_non_cpu_pd_nodes s n) \<le> d \<and>
     d < cpu_start_idx (psci_non_cpu_pd_nodes s n) + ncpus (psci_non_cpu_pd_nodes s n)"

text \<open>
  Every ancestor of a core at level \<open>l\<close> is a node of that level with its own lock, and its
  CPU range is exactly the set of cores that have it as their ancestor.
\<close>

definition topology_ok :: "'p platform \<Rightarrow> 'p psci_state \<Rightarrow> bool" where
  "topology_ok pf s \<longleftrightarrow>
     psci_plat_core_count s \<le> PLATFORM_CORE_COUNT pf \<and>
     (\<forall>c<psci_plat_core_count s. \<forall>l. 1 \<le> l \<and> l \<le> PLAT_MAX_PWR_LVL pf \<longrightarrow>
        ancestor s c l < PSCI_NUM_NON_CPU_PWR_DOMAINS pf \<and>
        node_level (psci_non_cpu_pd_nodes s (ancestor s c l)) = l \<and>
        lock_index (psci_non_cpu_pd_nodes s (ancestor s c l)) = ancestor s c l \<and>
        (\<forall>d. in_domain s (ancestor s c l) d \<longleftrightarrow> d < psci_plat_core_count s \<and> ancestor s d l = ancestor s c l))"

lemma in_domain_shape:
  assumes "shape t = shape s"
  shows "in_domain t = in_domain s"
  by (simp add: in_domain_def fun_eq_iff shape_eqD[OF assms])

lemma topology_ok_shape:
  assumes "shape t = shape s"
  shows "topology_ok pf t = topology_ok pf s"
  by (simp add: topology_ok_def shape_eqD[OF assms] in_domain_shape[OF assms] ancestor_shape[OF assms])

lemma topology_okD:
  assumes "topology_ok pf s" and "c < psci_plat_core_count s" and "1 \<le> l" and "l \<le> PLAT_MAX_PWR_LVL pf"
  shows "node_level (psci_non_cpu_pd_nodes s (ancestor s c l)) = l"
    and "lock_index (psci_non_cpu_pd_nodes s (ancestor s c l)) = ancestor s c l"
    and "in_domain s (ancestor s c l) d \<longleftrightarrow> d < psci_plat_core_count s \<and> ancestor s d l = ancestor s c l"
    and "ancestor s c l < PSCI_NUM_NON_CPU_PWR_DOMAINS pf"
  using assms by (auto simp: topology_ok_def)

lemma ancestor_level_inj:
  assumes "topology_ok pf s" and "c < psci_plat_core_count s" and "d < psci_plat_core_count s"
    and "1 \<le> l" and "l \<le> PLAT_MAX_PWR_LVL pf" and "1 \<le> m" and "m \<le> PLAT_MAX_PWR_LVL pf"
    and "ancestor s c l = ancestor s d m"
  shows "l = m"
  using topology_okD(1)[OF assms(1,2,4,5)] topology_okD(1)[OF assms(1,3,6,7)] assms(8) by simp

section \<open>Target states\<close>

abbreviation node_state :: "'p psci_state \<Rightarrow> nat \<Rightarrow> u8" where
  "node_state s n \<equiv> node_local_state (psci_non_cpu_pd_nodes s n)"

abbreviation req_state :: "'p psci_state \<Rightarrow> nat \<Rightarrow> nat \<Rightarrow> u8" where
  "req_state s l c \<equiv> psci_req_local_pwr_states s (l - 1) c"

lemma get_parent_loop_eq: "get_parent_loop k p s = map (\<lambda>i. up_loop i p s) [0..<k]"
proof (induction k arbitrary: p)
  case (Suc k)
  have "[0..<Suc k] = 0 # map Suc [0..<k]"
    by (simp add: map_Suc_upt upt_conv_Cons)
  then show ?case
    using Suc by simp
qed simp

lemma parent_nodes_eq: "psci_get_parent_pwr_domain_nodes c k s = map (\<lambda>i. ancestor s c (Suc i)) [0..<k]"
  by (simp add: psci_get_parent_pwr_domain_nodes_def get_parent_loop_eq ancestor_up)

lemma node_state_set [simp]:
  "node_state (set_non_cpu_pd_node_local_state n st s) m = (if m = n then st else node_state s m)"
  by (simp add: set_non_cpu_pd_node_local_state_def)

lemma set_target_loop_only: "\<exists>N. set_target_loop k lvl p pd s = s\<lparr>psci_non_cpu_pd_nodes := N\<rparr>"
proof (induction k arbitrary: lvl p s)
  case 0
  show ?case
    by (rule exI[of _ "psci_non_cpu_pd_nodes s"]) simp
next
  case (Suc k)
  let ?s = "set_non_cpu_pd_node_local_state p (pd lvl) s"
  obtain N where "set_target_loop k (lvl + 1) (parent_node (psci_non_cpu_pd_nodes ?s p)) pd ?s =
      ?s\<lparr>psci_non_cpu_pd_nodes := N\<rparr>"
    using Suc by blast
  then show ?case
    by (intro exI[of _ N]) (simp add: Let_def set_non_cpu_pd_node_local_state_def)
qed

lemma shape_set_target_loop [simp]: "shape (set_target_loop k lvl p pd s) = shape s"
  by (induction k arbitrary: lvl p s) (simp_all add: Let_def)

lemma node_state_set_target_loop:
  assumes "inj_on (\<lambda>i. up_loop i p s) {..<k}"
  shows "(\<forall>i<k. node_state (set_target_loop k lvl p pd s) (up_loop i p s) = pd (lvl + i)) \<and>
    (\<forall>n. n \<notin> (\<lambda>i. up_loop i p s) ` {..<k} \<longrightarrow> node_state (set_target_loop k lvl p pd s) n = node_state s n)"
  using assms
proof (induction k arbitrary: lvl p s)
  case (Suc k)
  let ?s = "set_non_cpu_pd_node_local_state p (pd lvl) s"
  let ?p = "parent_node (psci_non_cpu_pd_nodes ?s p)"
  let ?t = "set_target_loop k (lvl + 1) ?p pd ?s"
  have sh: "shape ?s = shape s" by simp
  have up: "up_loop j ?p ?s = up_loop (Suc j) p s" for j
    using up_loop_shape[OF sh] shape_eqD(5)[OF sh, of p] by simp
  have inj: "inj_on (\<lambda>i. up_loop i ?p ?s) {..<k}"
    unfolding up by (rule inj_onI) (use inj_onD[OF Suc.prems] in fastforce)
  have top: "p \<notin> (\<lambda>i. up_loop i ?p ?s) ` {..<k}"
  proof
    assume "p \<in> (\<lambda>i. up_loop i ?p ?s) ` {..<k}"
    then obtain i where "i < k" "up_loop 0 p s = up_loop (Suc i) p s"
      unfolding up by auto
    then show False
      using inj_onD[OF Suc.prems, of 0 "Suc i"] by simp
  qed
  have hit: "node_state ?t (up_loop (Suc j) p s) = pd (lvl + Suc j)" if "j < k" for j
    using Suc.IH[OF inj, of "lvl + 1"] that unfolding up by simp
  have miss: "node_state ?t n = node_state ?s n" if "n \<notin> (\<lambda>i. up_loop i ?p ?s) ` {..<k}" for n
    using Suc.IH[OF inj, of "lvl + 1"] that by blast
  have "node_state ?t (up_loop i p s) = pd (lvl + i)" if "i < Suc k" for i
    using that hit miss[OF top] by (cases i) auto
  moreover have "node_state ?t n = node_state s n" if "n \<notin> (\<lambda>i. up_loop i p s) ` {..<Suc k}" for n
  proof -
    have "n \<noteq> p"
      using that image_eqI[of p "\<lambda>i. up_loop i p s" 0 "{..<Suc k}"] by auto
    moreover have "n \<notin> (\<lambda>i. up_loop i ?p ?s) ` {..<k}"
    proof
      assume "n \<in> (\<lambda>i. up_loop i ?p ?s) ` {..<k}"
      then obtain i where "i < k" "n = up_loop (Suc i) p s"
        unfolding up by auto
      then have "n \<in> (\<lambda>i. up_loop i p s) ` {..<Suc k}"
        by (intro image_eqI[of _ _ "Suc i"]) simp_all
      then show False
        using that by simp
    qed
    ultimately show ?thesis
      using miss by simp
  qed
  ultimately show ?case
    by (simp add: Let_def)
qed simp

lemma chain_inj:
  assumes "topology_ok pf s" and "c < psci_plat_core_count s" and "k \<le> PLAT_MAX_PWR_LVL pf"
  shows "inj_on (\<lambda>i. up_loop i (cpu_parent_node (psci_cpu_pd_nodes s c)) s) {..<k}"
  unfolding ancestor_up
proof (rule inj_onI)
  fix i j
  assume "i \<in> {..<k}" "j \<in> {..<k}" "ancestor s c (Suc i) = ancestor s c (Suc j)"
  then show "i = j"
    using ancestor_level_inj[OF assms(1,2,2), of "Suc i" "Suc j"] assms(3) by simp
qed

lemma set_target_only:
  "\<exists>N. psci_set_target_local_pwr_states c k si s =
     (psci_set_cpu_local_state c (pwr_domain_state si 0) s)\<lparr>psci_non_cpu_pd_nodes := N\<rparr>"
  unfolding psci_set_target_local_pwr_states_def Let_def by (rule set_target_loop_only)

lemma shape_set_target [simp]: "shape (psci_set_target_local_pwr_states c k si s) = shape s"
  by (simp add: psci_set_target_local_pwr_states_def Let_def psci_set_cpu_local_state_def upd_cpu_data_def)

lemma node_state_set_target:
  assumes "topology_ok pf s" and "c < psci_plat_core_count s" and "k \<le> PLAT_MAX_PWR_LVL pf"
    and "d < psci_plat_core_count s" and "1 \<le> l" and "l \<le> PLAT_MAX_PWR_LVL pf"
  shows "node_state (psci_set_target_local_pwr_states c k si s) (ancestor s d l) =
    (if l \<le> k \<and> ancestor s d l = ancestor s c l then pwr_domain_state si l else node_state s (ancestor s d l))"
proof -
  let ?s = "psci_set_cpu_local_state c (pwr_domain_state si 0) s"
  let ?p = "cpu_parent_node (psci_cpu_pd_nodes ?s c)"
  have sh: "shape ?s = shape s" and nd: "psci_non_cpu_pd_nodes ?s = psci_non_cpu_pd_nodes s"
    by (simp_all add: psci_set_cpu_local_state_def upd_cpu_data_def)
  have up: "up_loop i ?p ?s = ancestor s c (Suc i)" for i
    using ancestor_shape[OF sh] by (simp add: ancestor_up)
  have inj: "inj_on (\<lambda>i. up_loop i ?p ?s) {..<k}"
    using chain_inj[OF assms(1-3)] unfolding up by (simp add: ancestor_up)
  note loop = node_state_set_target_loop[OF inj, of 1 "pwr_domain_state si", unfolded up nd]
  show ?thesis
  proof (cases "l \<le> k \<and> ancestor s d l = ancestor s c l")
    case True
    then have "l - 1 < k"
      using assms(5) by linarith
    then show ?thesis
      using loop[THEN conjunct1, rule_format, of "l - 1"] assms(5) True
      by (simp add: psci_set_target_local_pwr_states_def Let_def)
  next
    case False
    have "ancestor s d l \<notin> (\<lambda>i. ancestor s c (Suc i)) ` {..<k}"
    proof
      assume "ancestor s d l \<in> (\<lambda>i. ancestor s c (Suc i)) ` {..<k}"
      then obtain i where "i < k" "ancestor s d l = ancestor s c (Suc i)"
        by auto
      then show False
        using False ancestor_level_inj[OF assms(1,4,2,5,6), of "Suc i"] assms(3) by simp
    qed
    then show ?thesis
      using loop[THEN conjunct2, rule_format] False
      by (auto simp: psci_set_target_local_pwr_states_def Let_def)
  qed
qed

lemma set_target_loop_nodes:
  "psci_non_cpu_pd_nodes x = psci_non_cpu_pd_nodes y \<Longrightarrow>
   psci_non_cpu_pd_nodes (set_target_loop k l p pd x) = psci_non_cpu_pd_nodes (set_target_loop k l p pd y)"
  by (induction k arbitrary: l p x y) (simp_all add: Let_def set_non_cpu_pd_node_local_state_def)

lemma set_target_loop_req:
  "set_target_loop k l p pd (x\<lparr>psci_req_local_pwr_states := R\<rparr>) =
   (set_target_loop k l p pd x)\<lparr>psci_req_local_pwr_states := R\<rparr>"
proof -
  obtain N M where N: "set_target_loop k l p pd (x\<lparr>psci_req_local_pwr_states := R\<rparr>) =
      x\<lparr>psci_req_local_pwr_states := R, psci_non_cpu_pd_nodes := N\<rparr>"
    and M: "set_target_loop k l p pd x = x\<lparr>psci_non_cpu_pd_nodes := M\<rparr>"
    using set_target_loop_only by metis
  have "N = M"
    using set_target_loop_nodes[of "x\<lparr>psci_req_local_pwr_states := R\<rparr>" x k l p pd] N M by simp
  then show ?thesis
    using N M by simp
qed

section \<open>Marking a core and its ancestors running\<close>

lemma set_to_run_loop_eq:
  "psci_plat_core_count s > c \<Longrightarrow> lvl \<ge> 1 \<Longrightarrow> lvl + k \<le> PLAT_MAX_PWR_LVL pf + 1 \<Longrightarrow>
   set_to_run_loop pf k lvl p c s =
     (set_target_loop k lvl p (\<lambda>_. PSCI_LOCAL_STATE_RUN) s)\<lparr>psci_req_local_pwr_states :=
        (\<lambda>r d. if d = c \<and> lvl \<le> Suc r \<and> Suc r < lvl + k then PSCI_LOCAL_STATE_RUN else psci_req_local_pwr_states s r d)\<rparr>"
proof (induction k arbitrary: lvl p s)
  case 0
  have "(\<lambda>r d. if d = c \<and> lvl \<le> Suc r \<and> Suc r < lvl then 0 else psci_req_local_pwr_states s r d) =
      psci_req_local_pwr_states s"
    by (auto simp: fun_eq_iff)
  then show ?case
    by simp
next
  case (Suc k)
  let ?s1 = "set_non_cpu_pd_node_local_state p 0 s"
  let ?R = "(psci_req_local_pwr_states s)(lvl - 1 := (psci_req_local_pwr_states s (lvl - 1))(c := 0))"
  let ?s2 = "?s1\<lparr>psci_req_local_pwr_states := ?R\<rparr>"
  have s2: "psci_set_req_local_pwr_state pf lvl c 0 ?s1 = ?s2"
    using Suc.prems by (simp add: psci_set_req_local_pwr_state_def set_non_cpu_pd_node_local_state_def)
  have R: "(\<lambda>r d. if d = c \<and> lvl + 1 \<le> Suc r \<and> Suc r < lvl + 1 + k then 0 else ?R r d) =
      (\<lambda>r d. if d = c \<and> lvl \<le> Suc r \<and> Suc r < lvl + Suc k then 0 else psci_req_local_pwr_states s r d)"
    using Suc.prems(2) by (auto simp: fun_eq_iff)
  have nodes: "psci_non_cpu_pd_nodes ?s2 = psci_non_cpu_pd_nodes ?s1" and req: "psci_req_local_pwr_states ?s2 = ?R"
    and count: "psci_plat_core_count ?s2 = psci_plat_core_count s"
    by (simp_all add: set_non_cpu_pd_node_local_state_def)
  have "set_to_run_loop pf k (lvl + 1) (parent_node (psci_non_cpu_pd_nodes ?s2 p)) c ?s2 =
      (set_target_loop k (lvl + 1) (parent_node (psci_non_cpu_pd_nodes ?s1 p)) (\<lambda>_. 0) ?s1)\<lparr>psci_req_local_pwr_states :=
        (\<lambda>r d. if d = c \<and> lvl \<le> Suc r \<and> Suc r < lvl + Suc k then 0 else psci_req_local_pwr_states s r d)\<rparr>"
    by (subst Suc.IH) (use Suc.prems count in \<open>simp_all only: nodes req R set_target_loop_req\<close>, simp_all)
  then show ?case
    by (simp only: set_to_run_loop.simps set_target_loop.simps Let_def s2)
qed

lemma set_to_run_only:
  assumes "c < psci_plat_core_count s" and "k \<le> PLAT_MAX_PWR_LVL pf"
  shows "\<exists>N. psci_set_pwr_domains_to_run pf c k s =
     s\<lparr>psci_non_cpu_pd_nodes := N,
       psci_req_local_pwr_states := (\<lambda>r d. if d = c \<and> r < k then 0 else psci_req_local_pwr_states s r d),
       psci_svc_cpu_data := (psci_svc_cpu_data s)(c := (psci_svc_cpu_data s c)\<lparr>aff_info_state := AFF_STATE_ON, local_state := 0\<rparr>)\<rparr>"
proof -
  obtain N where "set_target_loop k 1 (cpu_parent_node (psci_cpu_pd_nodes s c)) (\<lambda>_. 0) s = s\<lparr>psci_non_cpu_pd_nodes := N\<rparr>"
    using set_target_loop_only by blast
  then show ?thesis
    using assms by (intro exI[of _ N])
      (simp add: psci_set_pwr_domains_to_run_def Let_def set_to_run_loop_eq psci_access less_Suc_eq_le Suc_le_eq)
qed

lemma shape_set_to_run [simp]: "shape (psci_set_pwr_domains_to_run pf c k s) = shape s"
proof -
  have "shape (set_to_run_loop pf j l p c x) = shape x" for j l p and x :: "'a psci_state"
    by (induction j arbitrary: l p x) (simp_all add: Let_def)
  then show ?thesis
    by (simp add: psci_set_pwr_domains_to_run_def Let_def psci_access)
qed

lemma node_state_set_to_run:
  assumes "topology_ok pf s" and "c < psci_plat_core_count s" and "k \<le> PLAT_MAX_PWR_LVL pf"
    and "d < psci_plat_core_count s" and "1 \<le> l" and "l \<le> PLAT_MAX_PWR_LVL pf"
  shows "node_state (psci_set_pwr_domains_to_run pf c k s) (ancestor s d l) =
    (if l \<le> k \<and> ancestor s d l = ancestor s c l then 0 else node_state s (ancestor s d l))"
proof -
  have "node_state (psci_set_pwr_domains_to_run pf c k s) n =
      node_state (set_target_loop k 1 (cpu_parent_node (psci_cpu_pd_nodes s c)) (\<lambda>_. 0) s) n" for n
    using assms(2,3) by (simp add: psci_set_pwr_domains_to_run_def Let_def set_to_run_loop_eq psci_access)
  also have "\<dots> n = node_state (psci_set_target_local_pwr_states c k \<lparr>pwr_domain_state = \<lambda>_. 0, last_at_pwrlvl = 0\<rparr> s) n" for n
  proof -
    have "psci_non_cpu_pd_nodes (set_target_loop k 1 (cpu_parent_node (psci_cpu_pd_nodes s c)) (\<lambda>_. 0) (psci_set_cpu_local_state c 0 s)) =
       psci_non_cpu_pd_nodes (set_target_loop k 1 (cpu_parent_node (psci_cpu_pd_nodes s c)) (\<lambda>_. 0) s)"
      by (rule set_target_loop_nodes) (simp add: psci_access)
    then show ?thesis
      by (simp add: psci_set_target_local_pwr_states_def Let_def) (simp add: psci_access)
  qed
  finally show ?thesis
    using node_state_set_target[OF assms, of "\<lparr>pwr_domain_state = \<lambda>_. 0, last_at_pwrlvl = 0\<rparr>"] by simp
qed

lemma get_target_loop_eq:
  "get_target_loop k lvl p pd s l = (if lvl \<le> l \<and> l < lvl + k then node_state s (up_loop (l - lvl) p s) else pd l)"
proof (induction k arbitrary: lvl p pd l)
  case (Suc k)
  show ?case
  proof (cases "lvl < l")
    case True
    then have "l - lvl = Suc (l - Suc lvl)"
      by simp
    then show ?thesis
      using True by (simp add: Suc)
  qed (simp add: Suc get_non_cpu_pd_node_local_state_def)
qed auto

lemma get_target_states:
  "pwr_domain_state (psci_get_target_local_pwr_states pf c k si s) l =
    (if l = 0 then local_state (psci_svc_cpu_data s c)
     else if l \<le> k then node_state s (ancestor s c l)
     else if l \<le> PLAT_MAX_PWR_LVL pf then 0 else pwr_domain_state si l)"
  by (auto simp: psci_get_target_local_pwr_states_def Let_def get_target_loop_eq psci_access ancestor_def)

end
