(* ===== verification/Psci_Tree.thy ===== *)
theory Psci_Tree
  imports Psci_Topology
begin

unbundle bit_operations_syntax

text \<open>
  Correctness of the cold boot of PSCI for every valid tree description: the breadth-first
  population of the tree, the CPU ranges of the domains, and the state \<open>psci_setup\<close> leaves.
\<close>

section \<open>Populating the tree\<close>

definition par :: "nat \<Rightarrow> nat" where
  "par e = (if e = 0 then PSCI_PARENT_NODE_INVALID else e - 1)"

lemma init_children_nodes:
  assumes "0 < L" and "PSCI_NUM_NON_CPU_PWR_DOMAINS pf \<le> 0x10000"
  shows "j + k \<le> PSCI_NUM_NON_CPU_PWR_DOMAINS pf \<Longrightarrow>
    init_children_loop pf k j e L s = Ret (j + k) (s\<lparr>psci_non_cpu_pd_nodes := (\<lambda>n. if j \<le> n \<and> n < j + k
      then (psci_non_cpu_pd_nodes s n)\<lparr>node_level := L, lock_index := n, parent_node := par e, node_local_state := PLAT_MAX_OFF_STATE pf\<rparr>
      else psci_non_cpu_pd_nodes s n)\<rparr>)"
proof (induction k arbitrary: j s)
  case 0
  have "(\<lambda>n. if j \<le> n \<and> n < j then (psci_non_cpu_pd_nodes s n)\<lparr>node_level := L, lock_index := n, parent_node := par e, node_local_state := PLAT_MAX_OFF_STATE pf\<rparr>
      else psci_non_cpu_pd_nodes s n) = psci_non_cpu_pd_nodes s"
    by (auto simp: fun_eq_iff)
  then show ?case by (simp cong: if_cong)
next
  case (Suc k)
  let ?f = "\<lambda>n (nd :: non_cpu_pd_node). nd\<lparr>node_level := L, lock_index := n, parent_node := par e, node_local_state := PLAT_MAX_OFF_STATE pf\<rparr>"
  have j: "j mod 65536 = j" "j < PSCI_NUM_NON_CPU_PWR_DOMAINS pf"
    using Suc.prems assms(2) by simp_all
  let ?s1 = "upd_node j (?f j) s"
  have s1: "psci_init_pwr_domain_node pf (j mod 65536) (par e) L s = Ret () ?s1"
    using j assms(1) by (simp add: psci_init_pwr_domain_node_def)
  have "(\<lambda>n. if j + 1 \<le> n \<and> n < j + 1 + k then ?f n (psci_non_cpu_pd_nodes ?s1 n) else psci_non_cpu_pd_nodes ?s1 n) =
    (\<lambda>n. if j \<le> n \<and> n < j + Suc k then ?f n (psci_non_cpu_pd_nodes s n) else psci_non_cpu_pd_nodes s n)"
    by (auto simp: fun_eq_iff upd_node_def)
  moreover have "init_children_loop pf k (j + 1) e L ?s1 = Ret (j + 1 + k) (?s1\<lparr>psci_non_cpu_pd_nodes :=
     (\<lambda>n. if j + 1 \<le> n \<and> n < j + 1 + k then ?f n (psci_non_cpu_pd_nodes ?s1 n) else psci_non_cpu_pd_nodes ?s1 n)\<rparr>)"
    by (rule Suc.IH) (use Suc.prems in simp)
  ultimately show ?case
    using s1 by (simp add: par_def[symmetric]) (simp add: upd_node_def)
qed

lemma init_children_cpus:
  assumes "PLATFORM_CORE_COUNT pf \<le> 0x10000"
  shows "j + k \<le> PLATFORM_CORE_COUNT pf \<Longrightarrow>
    init_children_loop pf k j e 0 s = Ret (j + k) (s\<lparr>psci_cpu_pd_nodes := (\<lambda>n. if j \<le> n \<and> n < j + k
      then \<lparr>cpu_mpidr = PSCI_INVALID_MPIDR, cpu_parent_node = par e\<rparr> else psci_cpu_pd_nodes s n),
     psci_svc_cpu_data := (\<lambda>n. if j \<le> n \<and> n < j + k
      then \<lparr>aff_info_state = AFF_STATE_OFF, target_pwrlvl = PLAT_MAX_PWR_LVL pf, local_state = PLAT_MAX_OFF_STATE pf\<rparr>
      else psci_svc_cpu_data s n)\<rparr>)"
proof (induction k arbitrary: j s)
  case 0
  have "(\<lambda>n. if j \<le> n \<and> n < j then \<lparr>cpu_mpidr = PSCI_INVALID_MPIDR, cpu_parent_node = par e\<rparr> else psci_cpu_pd_nodes s n) =
     psci_cpu_pd_nodes s" "(\<lambda>n. if j \<le> n \<and> n < j
      then \<lparr>aff_info_state = AFF_STATE_OFF, target_pwrlvl = PLAT_MAX_PWR_LVL pf, local_state = PLAT_MAX_OFF_STATE pf\<rparr>
      else psci_svc_cpu_data s n) = psci_svc_cpu_data s"
    by (auto simp: fun_eq_iff)
  then show ?case by (simp cong: if_cong)
next
  case (Suc k)
  let ?c = "\<lparr>cpu_mpidr = PSCI_INVALID_MPIDR, cpu_parent_node = par e\<rparr>"
  let ?d = "\<lparr>aff_info_state = AFF_STATE_OFF, target_pwrlvl = PLAT_MAX_PWR_LVL pf, local_state = PLAT_MAX_OFF_STATE pf\<rparr>"
  have j: "j mod 65536 = j" "j < PLATFORM_CORE_COUNT pf"
    using Suc.prems assms by simp_all
  let ?s1 = "s\<lparr>psci_cpu_pd_nodes := (psci_cpu_pd_nodes s)(j := ?c), psci_svc_cpu_data := (psci_svc_cpu_data s)(j := ?d)\<rparr>"
  have s1: "psci_init_pwr_domain_node pf (j mod 65536) (par e) 0 s = Ret () ?s1"
    using j by (simp add: psci_init_pwr_domain_node_def)
  have "(\<lambda>n. if j + 1 \<le> n \<and> n < j + 1 + k then ?c else ((psci_cpu_pd_nodes s)(j := ?c)) n) =
    (\<lambda>n. if j \<le> n \<and> n < j + Suc k then ?c else psci_cpu_pd_nodes s n)"
    "(\<lambda>n. if j + 1 \<le> n \<and> n < j + 1 + k then ?d else ((psci_svc_cpu_data s)(j := ?d)) n) =
    (\<lambda>n. if j \<le> n \<and> n < j + Suc k then ?d else psci_svc_cpu_data s n)"
    by (auto simp: fun_eq_iff)
  moreover have "init_children_loop pf k (j + 1) e 0 ?s1 = Ret (j + 1 + k) (?s1\<lparr>psci_cpu_pd_nodes :=
     (\<lambda>n. if j + 1 \<le> n \<and> n < j + 1 + k then ?c else ((psci_cpu_pd_nodes s)(j := ?c)) n),
     psci_svc_cpu_data := (\<lambda>n. if j + 1 \<le> n \<and> n < j + 1 + k then ?d else ((psci_svc_cpu_data s)(j := ?d)) n)\<rparr>)"
    using Suc.IH[of "j + 1" ?s1] Suc.prems by (simp cong: if_cong)
  ultimately show ?case
    using s1 by (simp add: par_def[symmetric])
qed

text \<open>The fields of a node the later levels of the loop leave alone.\<close>

definition node_core :: "non_cpu_pd_node \<Rightarrow> nat \<times> nat \<times> nat \<times> u8 \<times> nat \<times> nat" where
  "node_core nd = (node_level nd, parent_node nd, lock_index nd, node_local_state nd, cpu_start_idx nd, ncpus nd)"

text \<open>The number of children of \<open>k\<close> consecutive entries of the description.\<close>

definition block :: "nat list \<Rightarrow> nat \<Rightarrow> nat \<Rightarrow> nat" where
  "block T e k = sum_list (take k (drop e T))"

lemma block_0 [simp]: "block T e 0 = 0"
  by (simp add: block_def)

lemma block_Suc: "e < length T \<Longrightarrow> block T e (Suc k) = T ! e + block T (Suc e) k"
  by (simp add: block_def Cons_nth_drop_Suc[symmetric])

text \<open>
  The nodes \<open>lo ..< hi\<close> are the nodes of level \<open>L\<close>; their parents are in
  \<open>plo ..< phi\<close> and never go back.
\<close>

definition level_nodes ::
  "u8 \<Rightarrow> nat \<Rightarrow> nat \<Rightarrow> nat \<Rightarrow> nat \<Rightarrow> nat \<Rightarrow> (nat \<Rightarrow> non_cpu_pd_node) \<Rightarrow> bool" where
  "level_nodes st L lo hi plo phi N \<longleftrightarrow>
     (\<forall>n. lo \<le> n \<and> n < hi \<longrightarrow> node_level (N n) = L \<and> node_local_state (N n) = st \<and> lock_index (N n) = n \<and> plo \<le> parent_node (N n) \<and> parent_node (N n) < phi) \<and>
     (\<forall>n m. lo \<le> n \<and> n \<le> m \<and> m < hi \<longrightarrow> parent_node (N n) \<le> parent_node (N m))"

definition same_limits :: "(nat \<Rightarrow> non_cpu_pd_node) \<Rightarrow> (nat \<Rightarrow> non_cpu_pd_node) \<Rightarrow> bool" where
  "same_limits N M \<longleftrightarrow> (\<forall>n. cpu_start_idx (N n) = cpu_start_idx (M n) \<and> ncpus (N n) = ncpus (M n))"

lemma populate_level_nodes:
  assumes L: "0 < L" and num: "PSCI_NUM_NON_CPU_PWR_DOMAINS pf \<le> 0x10000"
  shows "e + k \<le> length T \<Longrightarrow> e + k \<le> i + 1 \<Longrightarrow> 0 < e \<Longrightarrow> i + block T e k \<le> PSCI_NUM_NON_CPU_PWR_DOMAINS pf \<Longrightarrow>
    \<exists>j' N. populate_level_loop pf T k j i e nx L s =
       Ret (j', i + block T e k, e + k, nx + block T e k) (s\<lparr>psci_non_cpu_pd_nodes := N\<rparr>) \<and>
      level_nodes (PLAT_MAX_OFF_STATE pf) L i (i + block T e k) (e - 1) (e + k - 1) N \<and>
      (\<forall>n<i. node_core (N n) = node_core (psci_non_cpu_pd_nodes s n)) \<and> same_limits N (psci_non_cpu_pd_nodes s)"
proof (induction k arbitrary: j i e nx s)
  case 0
  show ?case
    by (intro exI[of _ j] exI[of _ "psci_non_cpu_pd_nodes s"]) (simp add: level_nodes_def same_limits_def)
next
  case (Suc k)
  let ?n = "T ! e"
  let ?f = "\<lambda>n (nd :: non_cpu_pd_node). nd\<lparr>node_level := L, lock_index := n, parent_node := par e, node_local_state := PLAT_MAX_OFF_STATE pf\<rparr>"
  define N1 where "N1 = (\<lambda>n. if i \<le> n \<and> n < i + ?n then ?f n (psci_non_cpu_pd_nodes s n) else psci_non_cpu_pd_nodes s n)"
  define N2 where "N2 = (if PSCI_OS_INIT_MODE pf then N1(e - 1 := (N1 (e - 1))\<lparr>first_child_idx := i, num_children := ?n\<rparr>) else N1)"
  have e: "e < length T" "e - 1 < i" "e \<le> PSCI_NUM_NON_CPU_PWR_DOMAINS pf"
    using Suc.prems by (simp_all add: block_Suc)
  have init: "init_children_loop pf ?n i e L s = Ret (i + ?n) (s\<lparr>psci_non_cpu_pd_nodes := N1\<rparr>)"
    unfolding N1_def by (rule init_children_nodes[OF L num]) (use Suc.prems e in \<open>simp add: block_Suc\<close>)
  have core2: "node_core (N2 n) = node_core (N1 n)" for n
    by (simp add: N2_def node_core_def)
  let ?s2 = "s\<lparr>psci_non_cpu_pd_nodes := N2\<rparr>"
  have "\<exists>j' N. populate_level_loop pf T k (i + ?n) (i + ?n) (e + 1) (nx + ?n) L ?s2 =
       Ret (j', i + ?n + block T (e + 1) k, e + 1 + k, nx + ?n + block T (e + 1) k) (?s2\<lparr>psci_non_cpu_pd_nodes := N\<rparr>) \<and>
      level_nodes (PLAT_MAX_OFF_STATE pf) L (i + ?n) (i + ?n + block T (e + 1) k) (e + 1 - 1) (e + 1 + k - 1) N \<and>
      (\<forall>n<i + ?n. node_core (N n) = node_core (psci_non_cpu_pd_nodes ?s2 n)) \<and> same_limits N (psci_non_cpu_pd_nodes ?s2)"
    by (rule Suc.IH) (use Suc.prems e in \<open>simp_all add: block_Suc\<close>)
  then obtain j' N where ih: "populate_level_loop pf T k (i + ?n) (i + ?n) (e + 1) (nx + ?n) L ?s2 =
       Ret (j', i + ?n + block T (e + 1) k, e + 1 + k, nx + ?n + block T (e + 1) k) (s\<lparr>psci_non_cpu_pd_nodes := N\<rparr>)"
      and lv: "level_nodes (PLAT_MAX_OFF_STATE pf) L (i + ?n) (i + ?n + block T (e + 1) k) (e + 1 - 1) (e + 1 + k - 1) N"
      and low: "\<And>n. n < i + ?n \<Longrightarrow> node_core (N n) = node_core (N2 n)"
      and lim: "same_limits N N2"
    by auto
  have mine: "node_level (N n) = L \<and> node_local_state (N n) = PLAT_MAX_OFF_STATE pf \<and> lock_index (N n) = n \<and> parent_node (N n) = e - 1" if "i \<le> n" "n < i + ?n" for n
    using low[of n] that Suc.prems(3) unfolding core2 by (simp add: node_core_def N1_def par_def)
  have tot: "block T e (Suc k) = ?n + block T (e + 1) k"
    using e by (simp add: block_Suc)
  have rest: "node_level (N n) = L \<and> node_local_state (N n) = PLAT_MAX_OFF_STATE pf \<and> lock_index (N n) = n \<and> e \<le> parent_node (N n) \<and> parent_node (N n) < e + k"
    if "\<not> n < i + ?n" "n < i + block T e (Suc k)" for n
    using lv that unfolding level_nodes_def tot by (auto simp: not_less add.assoc)
  have mono: "parent_node (N n) \<le> parent_node (N m)" if "\<not> n < i + ?n" "n \<le> m" "m < i + block T e (Suc k)" for n m
    using lv that unfolding level_nodes_def tot by (auto simp: not_less add.assoc)
  have "level_nodes (PLAT_MAX_OFF_STATE pf) L i (i + block T e (Suc k)) (e - 1) (e + Suc k - 1) N"
    unfolding level_nodes_def
  proof (intro conjI allI impI; elim conjE)
    fix n assume n: "i \<le> n" "n < i + block T e (Suc k)"
    show "node_level (N n) = L" "node_local_state (N n) = PLAT_MAX_OFF_STATE pf" "lock_index (N n) = n"
      using mine[of n] rest[of n] n by blast+
    show "e - 1 \<le> parent_node (N n)"
      using mine[of n] rest[of n] n by (cases "n < i + ?n") auto
    show "parent_node (N n) < e + Suc k - 1"
      using mine[of n] rest[of n] n Suc.prems(3) by (cases "n < i + ?n") auto
  next
    fix n m assume nm: "i \<le> n" "n \<le> m" "m < i + block T e (Suc k)"
    show "parent_node (N n) \<le> parent_node (N m)"
    proof (cases "n < i + ?n")
      case True
      then show ?thesis
        using mine[of n] mine[of m] rest[of m] nm by (cases "m < i + ?n") auto
    qed (use mono nm in blast)
  qed
  moreover have "node_core (N n) = node_core (psci_non_cpu_pd_nodes s n)" if "n < i" for n
    using low[of n] that unfolding core2 by (simp add: N1_def)
  moreover have "same_limits N (psci_non_cpu_pd_nodes s)"
    using lim by (simp add: same_limits_def N2_def N1_def)
  moreover have "populate_level_loop pf T (Suc k) j i e nx L s =
      Ret (j', i + block T e (Suc k), e + Suc k, nx + block T e (Suc k)) (s\<lparr>psci_non_cpu_pd_nodes := N\<rparr>)"
    using e ih init Suc.prems(3) by (auto simp: Let_def upd_node_def N2_def block_Suc add.assoc)
  ultimately show ?case
    by blast
qed

definition level_cpus :: "nat \<Rightarrow> nat \<Rightarrow> nat \<Rightarrow> (nat \<Rightarrow> cpu_pd_node) \<Rightarrow> bool" where
  "level_cpus n plo phi C \<longleftrightarrow>
     (\<forall>c<n. plo \<le> cpu_parent_node (C c) \<and> cpu_parent_node (C c) < phi) \<and>
     (\<forall>c d. c \<le> d \<and> d < n \<longrightarrow> cpu_parent_node (C c) \<le> cpu_parent_node (C d))"

text \<open>What a CPU looks like right after the tree has been populated.\<close>

definition fresh_cpu :: "'p platform \<Rightarrow> psci_cpu_data \<Rightarrow> bool" where
  "fresh_cpu pf d \<longleftrightarrow> d = \<lparr>aff_info_state = AFF_STATE_OFF, target_pwrlvl = PLAT_MAX_PWR_LVL pf, local_state = PLAT_MAX_OFF_STATE pf\<rparr>"

lemma populate_level_cpus:
  assumes cnt: "PLATFORM_CORE_COUNT pf \<le> 0x10000"
  shows "e + k \<le> length T \<Longrightarrow> e + k \<le> PSCI_NUM_NON_CPU_PWR_DOMAINS pf + 1 \<Longrightarrow> 0 < e \<Longrightarrow>
    i + block T e k \<le> PLATFORM_CORE_COUNT pf \<Longrightarrow>
    \<exists>j' N C D. populate_level_loop pf T k j i e nx 0 s =
       Ret (j', i + block T e k, e + k, nx + block T e k)
         (s\<lparr>psci_non_cpu_pd_nodes := N, psci_cpu_pd_nodes := C, psci_svc_cpu_data := D\<rparr>) \<and>
      (0 < k \<longrightarrow> j' = i + block T e k) \<and>
      (\<forall>c. i \<le> c \<and> c < i + block T e k \<longrightarrow> e - 1 \<le> cpu_parent_node (C c) \<and> cpu_parent_node (C c) < e + k - 1) \<and>
      (\<forall>c d. i \<le> c \<and> c \<le> d \<and> d < i + block T e k \<longrightarrow> cpu_parent_node (C c) \<le> cpu_parent_node (C d)) \<and>
      (\<forall>c. i \<le> c \<and> c < i + block T e k \<longrightarrow> fresh_cpu pf (D c)) \<and>
      (\<forall>c<i. C c = psci_cpu_pd_nodes s c \<and> D c = psci_svc_cpu_data s c) \<and>
      (\<forall>n. node_core (N n) = node_core (psci_non_cpu_pd_nodes s n))"
proof (induction k arbitrary: j i e nx s)
  case 0
  show ?case
    by (intro exI[of _ j] exI[of _ "psci_non_cpu_pd_nodes s"] exI[of _ "psci_cpu_pd_nodes s"] exI[of _ "psci_svc_cpu_data s"]) auto
next
  case (Suc k)
  let ?n = "T ! e"
  let ?c = "\<lparr>cpu_mpidr = PSCI_INVALID_MPIDR, cpu_parent_node = par e\<rparr>"
  let ?d = "\<lparr>aff_info_state = AFF_STATE_OFF, target_pwrlvl = PLAT_MAX_PWR_LVL pf, local_state = PLAT_MAX_OFF_STATE pf\<rparr>"
  define C1 where "C1 = (\<lambda>n. if i \<le> n \<and> n < i + ?n then ?c else psci_cpu_pd_nodes s n)"
  define D1 where "D1 = (\<lambda>n. if i \<le> n \<and> n < i + ?n then ?d else psci_svc_cpu_data s n)"
  define N1 where "N1 = (if PSCI_OS_INIT_MODE pf then (psci_non_cpu_pd_nodes s)(e - 1 := (psci_non_cpu_pd_nodes s (e - 1))
      \<lparr>first_child_idx := i, num_children := ?n\<rparr>) else psci_non_cpu_pd_nodes s)"
  have e: "e < length T" "e \<le> PSCI_NUM_NON_CPU_PWR_DOMAINS pf"
    using Suc.prems by simp_all
  have tot: "block T e (Suc k) = ?n + block T (e + 1) k"
    using e by (simp add: block_Suc)
  have init: "init_children_loop pf ?n i e 0 s = Ret (i + ?n) (s\<lparr>psci_cpu_pd_nodes := C1, psci_svc_cpu_data := D1\<rparr>)"
    unfolding C1_def D1_def by (rule init_children_cpus[OF cnt]) (use Suc.prems tot in simp)
  let ?s2 = "s\<lparr>psci_non_cpu_pd_nodes := N1, psci_cpu_pd_nodes := C1, psci_svc_cpu_data := D1\<rparr>"
  have s2: "(if PSCI_OS_INIT_MODE pf \<and> 0 < e then upd_node (e - 1) (\<lambda>nd. nd\<lparr>first_child_idx := i, num_children := ?n\<rparr>)
      (s\<lparr>psci_cpu_pd_nodes := C1, psci_svc_cpu_data := D1\<rparr>) else s\<lparr>psci_cpu_pd_nodes := C1, psci_svc_cpu_data := D1\<rparr>) = ?s2"
    using Suc.prems(3) by (simp add: upd_node_def N1_def)
  have prems: "e + 1 + k \<le> length T" "e + 1 + k \<le> PSCI_NUM_NON_CPU_PWR_DOMAINS pf + 1" "0 < e + 1"
    "i + ?n + block T (e + 1) k \<le> PLATFORM_CORE_COUNT pf"
    using Suc.prems tot by simp_all
  obtain j' N C D where ih: "populate_level_loop pf T k (i + ?n) (i + ?n) (e + 1) (nx + ?n) 0 ?s2 =
       Ret (j', i + ?n + block T (e + 1) k, e + 1 + k, nx + ?n + block T (e + 1) k)
        (?s2\<lparr>psci_non_cpu_pd_nodes := N, psci_cpu_pd_nodes := C, psci_svc_cpu_data := D\<rparr>)"
      and j': "0 < k \<longrightarrow> j' = i + ?n + block T (e + 1) k"
      and lv: "\<And>c. i + ?n \<le> c \<Longrightarrow> c < i + ?n + block T (e + 1) k \<Longrightarrow> e \<le> cpu_parent_node (C c) \<and> cpu_parent_node (C c) < e + k"
      and mono: "\<And>c d. i + ?n \<le> c \<Longrightarrow> c \<le> d \<Longrightarrow> d < i + ?n + block T (e + 1) k \<Longrightarrow> cpu_parent_node (C c) \<le> cpu_parent_node (C d)"
      and fr: "\<And>c. i + ?n \<le> c \<Longrightarrow> c < i + ?n + block T (e + 1) k \<Longrightarrow> fresh_cpu pf (D c)"
      and low: "\<And>c. c < i + ?n \<Longrightarrow> C c = C1 c \<and> D c = D1 c"
      and core: "\<And>n. node_core (N n) = node_core (N1 n)"
    using Suc.IH[OF prems, where ?s = ?s2 and ?nx = "nx + ?n" and ?j = "i + ?n"] by auto
  have jk: "j' = i + ?n + block T (e + 1) k"
    using j' ih by (cases k) auto
  have mine: "cpu_parent_node (C c) = e - 1 \<and> fresh_cpu pf (D c)" if "i \<le> c" "c < i + ?n" for c
    using low[of c] that Suc.prems(3) by (simp add: C1_def D1_def par_def fresh_cpu_def)
  have "e - 1 \<le> cpu_parent_node (C c) \<and> cpu_parent_node (C c) < e + Suc k - 1" if "i \<le> c" "c < i + block T e (Suc k)" for c
    using mine[of c] lv[of c] that Suc.prems(3) tot by (cases "c < i + ?n") auto
  moreover have "cpu_parent_node (C c) \<le> cpu_parent_node (C d)" if cd: "i \<le> c" "c \<le> d" "d < i + block T e (Suc k)" for c d
  proof (cases "c < i + ?n")
    case True
    then show ?thesis
      using mine[of c] mine[of d] lv[of d] cd tot by (cases "d < i + ?n") auto
  qed (use mono[of c d] cd tot in auto)
  moreover have "fresh_cpu pf (D c)" if "i \<le> c" "c < i + block T e (Suc k)" for c
    using mine[of c] fr[of c] that tot by (cases "c < i + ?n") auto
  moreover have "C c = psci_cpu_pd_nodes s c \<and> D c = psci_svc_cpu_data s c" if "c < i" for c
    using low[of c] that by (simp add: C1_def D1_def)
  moreover have "node_core (N n) = node_core (psci_non_cpu_pd_nodes s n)" for n
    using core[of n] by (simp add: N1_def node_core_def)
  moreover have "populate_level_loop pf T (Suc k) j i e nx 0 s =
      Ret (j', i + block T e (Suc k), e + Suc k, nx + block T e (Suc k))
       (s\<lparr>psci_non_cpu_pd_nodes := N, psci_cpu_pd_nodes := C, psci_svc_cpu_data := D\<rparr>)"
    using e ih init tot s2 by (simp add: Let_def add.assoc)
  ultimately show ?case
    using jk tot by (intro exI[of _ j'] exI[of _ N] exI[of _ C] exI[of _ D]) (simp add: add.assoc)
qed

text \<open>The levels from \<open>L\<close> down to the CPUs, below the nodes \<open>plo ..< phi\<close>.\<close>

fun tree_below ::
  "u8 \<Rightarrow> nat \<Rightarrow> nat \<Rightarrow> nat \<Rightarrow> nat \<Rightarrow> (nat \<Rightarrow> non_cpu_pd_node) \<Rightarrow> (nat \<Rightarrow> cpu_pd_node) \<Rightarrow> nat \<Rightarrow> bool" where
  "tree_below st num 0 plo phi N C n = level_cpus n plo phi C"
| "tree_below st num (Suc L) plo phi N C n =
     (\<exists>lo hi. hi \<le> num \<and> level_nodes st (Suc L) lo hi plo phi N \<and> tree_below st num L lo hi N C n)"

lemma level_nodes_cong:
  assumes "level_nodes st L lo hi plo phi M"
    and eq: "\<And>n. lo \<le> n \<Longrightarrow> n < hi \<Longrightarrow> node_core (N n) = node_core (M n)"
  shows "level_nodes st L lo hi plo phi N"
proof -
  have same: "node_level (N n) = node_level (M n)" "node_local_state (N n) = node_local_state (M n)" "lock_index (N n) = lock_index (M n)" "parent_node (N n) = parent_node (M n)"
    if "lo \<le> n" "n < hi" for n
    using eq[OF that] by (simp_all add: node_core_def)
  have "parent_node (N n) \<le> parent_node (N m)" if "lo \<le> n" "n \<le> m" "m < hi" for n m
    using assms(1) that same[of n] same[of m] by (auto simp: level_nodes_def)
  then show ?thesis
    using assms(1) same by (auto simp: level_nodes_def)
qed

text \<open>The number of CPUs the description gives.\<close>

fun leaf_count :: "nat list \<Rightarrow> nat \<Rightarrow> nat \<Rightarrow> nat \<Rightarrow> nat" where
  "leaf_count T 0 m e = block T e m"
| "leaf_count T (Suc L) m e = leaf_count T L (block T e m) (e + m)"

text \<open>The checks the code makes on the description, and that no level is empty.\<close>

fun valid_levels :: "'p platform \<Rightarrow> nat list \<Rightarrow> nat \<Rightarrow> nat \<Rightarrow> nat \<Rightarrow> nat \<Rightarrow> bool" where
  "valid_levels pf T 0 m i e \<longleftrightarrow>
     0 < m \<and> e + m \<le> length T \<and> e + m \<le> PSCI_NUM_NON_CPU_PWR_DOMAINS pf + 1 \<and> i + block T e m \<le> PLATFORM_CORE_COUNT pf"
| "valid_levels pf T (Suc L) m i e \<longleftrightarrow>
     0 < m \<and> e + m \<le> length T \<and> e + m \<le> PSCI_NUM_NON_CPU_PWR_DOMAINS pf + 1 \<and> i + block T e m \<le> PSCI_NUM_NON_CPU_PWR_DOMAINS pf \<and>
     valid_levels pf T L (block T e m) (if L = 0 then 0 else i + block T e m) (e + m)"

lemma populate_levels_tree:
  assumes cnt: "PLATFORM_CORE_COUNT pf \<le> 0x10000" and num: "PSCI_NUM_NON_CPU_PWR_DOMAINS pf \<le> 0x10000"
  shows "valid_levels pf T L m i e \<Longrightarrow> 0 < e \<Longrightarrow> (if L = 0 then i = 0 else e + m = i + 1) \<Longrightarrow>
    \<exists>n N C D. populate_levels pf T L m j i e s =
        Ret n (s\<lparr>psci_non_cpu_pd_nodes := N, psci_cpu_pd_nodes := C, psci_svc_cpu_data := D\<rparr>) \<and>
      n = leaf_count T L m e \<and> n \<le> PLATFORM_CORE_COUNT pf \<and> tree_below (PLAT_MAX_OFF_STATE pf) (PSCI_NUM_NON_CPU_PWR_DOMAINS pf) L (e - 1) (e + m - 1) N C n \<and> (\<forall>c<n. fresh_cpu pf (D c)) \<and>
      (\<forall>x. L = 0 \<or> x < i \<longrightarrow> node_core (N x) = node_core (psci_non_cpu_pd_nodes s x)) \<and>
      same_limits N (psci_non_cpu_pd_nodes s)"
proof (induction L arbitrary: m i e j s)
  case 0
  then obtain j' N C D where "populate_level_loop pf T m j i e 0 0 s =
       Ret (j', i + block T e m, e + m, 0 + block T e m)
         (s\<lparr>psci_non_cpu_pd_nodes := N, psci_cpu_pd_nodes := C, psci_svc_cpu_data := D\<rparr>)"
      "j' = i + block T e m"
      "\<And>c. i \<le> c \<Longrightarrow> c < i + block T e m \<Longrightarrow> e - 1 \<le> cpu_parent_node (C c) \<and> cpu_parent_node (C c) < e + m - 1"
      "\<And>c d. i \<le> c \<Longrightarrow> c \<le> d \<Longrightarrow> d < i + block T e m \<Longrightarrow> cpu_parent_node (C c) \<le> cpu_parent_node (C d)"
      "\<And>c. i \<le> c \<Longrightarrow> c < i + block T e m \<Longrightarrow> fresh_cpu pf (D c)"
      and core: "\<And>n. node_core (N n) = node_core (psci_non_cpu_pd_nodes s n)"
    using populate_level_cpus[OF cnt, of e m T i j 0 s] by auto
  moreover have "same_limits N (psci_non_cpu_pd_nodes s)"
    using core by (simp add: same_limits_def node_core_def)
  ultimately show ?case
    using 0 by (intro exI[of _ j'] exI[of _ N] exI[of _ C] exI[of _ D]) (auto simp: level_cpus_def)
next
  case (Suc L)
  let ?S = "block T e m"
  have v: "e + m \<le> length T" "e + m \<le> i + 1" "i + ?S \<le> PSCI_NUM_NON_CPU_PWR_DOMAINS pf"
    "valid_levels pf T L ?S (if L = 0 then 0 else i + ?S) (e + m)"
    using Suc.prems by simp_all
  obtain j' N1 where lvl: "populate_level_loop pf T m j i e 0 (Suc L) s = Ret (j', i + ?S, e + m, ?S) (s\<lparr>psci_non_cpu_pd_nodes := N1\<rparr>)"
    and ln: "level_nodes (PLAT_MAX_OFF_STATE pf) (Suc L) i (i + ?S) (e - 1) (e + m - 1) N1"
    and low1: "\<And>n. n < i \<Longrightarrow> node_core (N1 n) = node_core (psci_non_cpu_pd_nodes s n)"
    and lim1: "same_limits N1 (psci_non_cpu_pd_nodes s)"
    using populate_level_nodes[OF _ num v(1,2) Suc.prems(2) v(3), of "Suc L" j 0 s] by auto
  let ?s1 = "s\<lparr>psci_non_cpu_pd_nodes := N1\<rparr>"
  have next_ok: "if L = 0 then (if L = 0 then 0 else i + ?S) = 0 else e + m + ?S = (if L = 0 then 0 else i + ?S) + 1"
    using Suc.prems by simp
  obtain n N C D where ih: "populate_levels pf T L ?S j' (if L = 0 then 0 else i + ?S) (e + m) ?s1 =
        Ret n (s\<lparr>psci_non_cpu_pd_nodes := N, psci_cpu_pd_nodes := C, psci_svc_cpu_data := D\<rparr>)"
      and n: "n = leaf_count T L ?S (e + m)" "n \<le> PLATFORM_CORE_COUNT pf"
      and tb: "tree_below (PLAT_MAX_OFF_STATE pf) (PSCI_NUM_NON_CPU_PWR_DOMAINS pf) L (e + m - 1) (e + m + ?S - 1) N C n" and fr: "\<And>c. c < n \<Longrightarrow> fresh_cpu pf (D c)"
      and low: "\<And>x. L = 0 \<or> x < i + ?S \<Longrightarrow> node_core (N x) = node_core (N1 x)"
      and lim: "same_limits N N1"
    using Suc.IH[OF v(4) _ next_ok, of j' ?s1] Suc.prems(2) by (auto split: if_splits)
  have "level_nodes (PLAT_MAX_OFF_STATE pf) (Suc L) i (i + ?S) (e - 1) (e + m - 1) N"
    using level_nodes_cong[OF ln] low by blast
  moreover have "e + m - 1 = i" "e + m + ?S - 1 = i + ?S"
    using Suc.prems by simp_all
  ultimately have "tree_below (PLAT_MAX_OFF_STATE pf) (PSCI_NUM_NON_CPU_PWR_DOMAINS pf) (Suc L) (e - 1) (e + m - 1) N C n"
    using tb v(3) by auto
  moreover have "node_core (N x) = node_core (psci_non_cpu_pd_nodes s x)" if "x < i" for x
    using low[of x] low1[OF that] that by simp
  moreover have "same_limits N (psci_non_cpu_pd_nodes s)"
    using lim lim1 by (simp add: same_limits_def)
  ultimately show ?case
    using lvl ih n fr by (intro exI[of _ n] exI[of _ N] exI[of _ C] exI[of _ D]) auto
qed

lemma up_loop_snoc: "up_loop (Suc k) p s = parent_node (psci_non_cpu_pd_nodes s (up_loop k p s))"
  by (induction k arbitrary: p) simp_all

lemma ancestor_Suc: "1 \<le> l \<Longrightarrow> ancestor s c (Suc l) = parent_node (psci_non_cpu_pd_nodes s (ancestor s c l))"
  by (cases l) (simp_all add: ancestor_def up_loop_snoc del: up_loop.simps(2))

lemma ancestor_1: "ancestor s c (Suc 0) = cpu_parent_node (psci_cpu_pd_nodes s c)"
  by (simp add: ancestor_def)

text \<open>The ancestors of consecutive CPUs at a level never go back.\<close>

definition ancestors_ok :: "u8 \<Rightarrow> nat \<Rightarrow> nat \<Rightarrow> 'p psci_state \<Rightarrow> nat \<Rightarrow> bool" where
  "ancestors_ok st num n s l \<longleftrightarrow>
     (\<forall>c<n. ancestor s c l < num \<and> node_level (psci_non_cpu_pd_nodes s (ancestor s c l)) = l \<and> node_state s (ancestor s c l) = st \<and>
        lock_index (psci_non_cpu_pd_nodes s (ancestor s c l)) = ancestor s c l) \<and>
     (\<forall>c d. c \<le> d \<and> d < n \<longrightarrow> ancestor s c l \<le> ancestor s d l)"

lemma ancestors_okD:
  assumes "ancestors_ok st num n s l"
  shows "c < n \<Longrightarrow> ancestor s c l < num" and "c < n \<Longrightarrow> node_level (psci_non_cpu_pd_nodes s (ancestor s c l)) = l"
    and "c < n \<Longrightarrow> node_state s (ancestor s c l) = st" and "c < n \<Longrightarrow> lock_index (psci_non_cpu_pd_nodes s (ancestor s c l)) = ancestor s c l"
    and "c \<le> d \<Longrightarrow> d < n \<Longrightarrow> ancestor s c l \<le> ancestor s d l"
  using assms unfolding ancestors_ok_def by blast+

lemma tree_ancestors:
  assumes "tree_below st num L plo phi (psci_non_cpu_pd_nodes s) (psci_cpu_pd_nodes s) n"
  shows "(\<forall>c<n. plo \<le> ancestor s c (Suc L) \<and> ancestor s c (Suc L) < phi) \<and>
    (\<forall>c d. c \<le> d \<and> d < n \<longrightarrow> ancestor s c (Suc L) \<le> ancestor s d (Suc L)) \<and>
    (\<forall>l. 1 \<le> l \<and> l \<le> L \<longrightarrow> ancestors_ok st num n s l)"
  using assms
proof (induction L arbitrary: plo phi)
  case 0
  then show ?case
    by (simp add: level_cpus_def ancestor_1)
next
  case (Suc L)
  then obtain lo hi where hi: "hi \<le> num" and ln: "level_nodes st (Suc L) lo hi plo phi (psci_non_cpu_pd_nodes s)"
    and tb: "tree_below st num L lo hi (psci_non_cpu_pd_nodes s) (psci_cpu_pd_nodes s) n"
    by auto
  have in_lvl: "lo \<le> ancestor s c (Suc L) \<and> ancestor s c (Suc L) < hi" if "c < n" for c
    using Suc.IH[OF tb] that by blast
  have mono: "ancestor s c (Suc L) \<le> ancestor s d (Suc L)" if "c \<le> d" "d < n" for c d
    using Suc.IH[OF tb] that by blast
  have up: "ancestor s c (Suc (Suc L)) = parent_node (psci_non_cpu_pd_nodes s (ancestor s c (Suc L)))" for c
    by (rule ancestor_Suc) simp
  have "ancestors_ok st num n s (Suc L)"
    unfolding ancestors_ok_def using ln in_lvl mono hi by (auto simp: level_nodes_def intro: less_le_trans)
  then have "\<forall>l. 1 \<le> l \<and> l \<le> Suc L \<longrightarrow> ancestors_ok st num n s l"
    using Suc.IH[OF tb] by (auto simp: le_Suc_eq)
  moreover have "plo \<le> ancestor s c (Suc (Suc L)) \<and> ancestor s c (Suc (Suc L)) < phi" if "c < n" for c
    using ln in_lvl[OF that] unfolding up level_nodes_def by blast
  moreover have "ancestor s c (Suc (Suc L)) \<le> ancestor s d (Suc (Suc L))" if "c \<le> d" "d < n" for c d
    using ln in_lvl[of c] in_lvl[of d] mono[OF that] that unfolding up level_nodes_def by auto
  ultimately show ?case
    by blast
qed

section \<open>CPU ranges\<close>

lemma limits_levels_loop_eq:
  assumes "inj_on (\<lambda>j. temp ! j) {..<k}"
  shows "\<exists>idx' N. limits_levels_loop k c temp idx s = (idx', s\<lparr>psci_non_cpu_pd_nodes := N\<rparr>) \<and>
    (\<forall>j. idx' j = (if j < k then temp ! j else idx j)) \<and>
    (\<forall>j<k. N (temp ! j) = (psci_non_cpu_pd_nodes s (temp ! j))\<lparr>
        cpu_start_idx := (if temp ! j \<noteq> idx j then c else cpu_start_idx (psci_non_cpu_pd_nodes s (temp ! j))),
        ncpus := ncpus (psci_non_cpu_pd_nodes s (temp ! j)) + 1\<rparr>) \<and>
    (\<forall>x. x \<notin> (\<lambda>j. temp ! j) ` {..<k} \<longrightarrow> N x = psci_non_cpu_pd_nodes s x)"
  using assms
proof (induction k arbitrary: idx s)
  case 0
  show ?case
    by (intro exI[of _ idx] exI[of _ "psci_non_cpu_pd_nodes s"]) simp
next
  case (Suc k)
  let ?x = "temp ! k"
  define idx1 where "idx1 = (if ?x \<noteq> idx k then idx(k := ?x) else idx)"
  define N1 where "N1 = (psci_non_cpu_pd_nodes s)(?x := (psci_non_cpu_pd_nodes s ?x)\<lparr>
        cpu_start_idx := (if ?x \<noteq> idx k then c else cpu_start_idx (psci_non_cpu_pd_nodes s ?x)),
        ncpus := ncpus (psci_non_cpu_pd_nodes s ?x) + 1\<rparr>)"
  have idx1: "idx1 j = (if j = k then ?x else idx j)" for j
    by (simp add: idx1_def)
  have inj: "inj_on (\<lambda>j. temp ! j) {..<k}"
    using Suc.prems by (rule inj_on_subset) auto
  have new: "?x \<noteq> temp ! j" if "j < k" for j
    using inj_onD[OF Suc.prems, of k j] that by auto
  obtain idx' N where ih: "limits_levels_loop k c temp idx1 (s\<lparr>psci_non_cpu_pd_nodes := N1\<rparr>) = (idx', s\<lparr>psci_non_cpu_pd_nodes := N\<rparr>)"
    "\<And>j. idx' j = (if j < k then temp ! j else idx1 j)"
    "\<And>j. j < k \<Longrightarrow> N (temp ! j) = (N1 (temp ! j))\<lparr>
        cpu_start_idx := (if temp ! j \<noteq> idx1 j then c else cpu_start_idx (N1 (temp ! j))), ncpus := ncpus (N1 (temp ! j)) + 1\<rparr>"
    "\<And>x. x \<notin> (\<lambda>j. temp ! j) ` {..<k} \<Longrightarrow> N x = N1 x"
    using Suc.IH[OF inj, of idx1 "s\<lparr>psci_non_cpu_pd_nodes := N1\<rparr>"] by auto
  have step: "limits_levels_loop (Suc k) c temp idx s = limits_levels_loop k c temp idx1 (s\<lparr>psci_non_cpu_pd_nodes := N1\<rparr>)"
    by (auto simp: Let_def idx1_def N1_def upd_node_def)
  have "N (temp ! j) = (psci_non_cpu_pd_nodes s (temp ! j))\<lparr>
        cpu_start_idx := (if temp ! j \<noteq> idx j then c else cpu_start_idx (psci_non_cpu_pd_nodes s (temp ! j))),
        ncpus := ncpus (psci_non_cpu_pd_nodes s (temp ! j)) + 1\<rparr>" if "j < Suc k" for j
  proof (cases "j = k")
    case True
    moreover have "?x \<notin> (\<lambda>j. temp ! j) ` {..<k}"
      using new by auto
    ultimately show ?thesis
      using ih(4)[of ?x] by (simp add: N1_def)
  next
    case False
    then show ?thesis
      using ih(3)[of j] new[of j] that by (simp add: N1_def idx1)
  qed
  moreover have "N x = psci_non_cpu_pd_nodes s x" if "x \<notin> (\<lambda>j. temp ! j) ` {..<Suc k}" for x
  proof -
    have "x \<notin> (\<lambda>j. temp ! j) ` {..<k}" "x \<noteq> ?x"
      using that by auto
    then show ?thesis
      using ih(4)[of x] by (simp add: N1_def)
  qed
  moreover have "idx' j = (if j < Suc k then temp ! j else idx j)" for j
    using ih(2)[of j] by (auto simp: idx1 less_Suc_eq)
  ultimately show ?case
    unfolding step ih(1) by (intro exI[of _ idx'] exI[of _ N]) blast
qed

definition no_limits :: "(nat \<Rightarrow> non_cpu_pd_node) \<Rightarrow> (nat \<Rightarrow> non_cpu_pd_node)" where
  "no_limits N = (\<lambda>n. (N n)\<lparr>cpu_start_idx := 0, ncpus := 0\<rparr>)"

lemma no_limitsD:
  assumes "no_limits N = no_limits M"
  shows "node_level (N n) = node_level (M n)" "lock_index (N n) = lock_index (M n)" "parent_node (N n) = parent_node (M n)"
    "node_local_state (N n) = node_local_state (M n)"
proof -
  have nd: "(N n)\<lparr>cpu_start_idx := 0, ncpus := 0\<rparr> = (M n)\<lparr>cpu_start_idx := 0, ncpus := 0\<rparr>"
    using assms by (simp add: no_limits_def fun_eq_iff)
  show "node_level (N n) = node_level (M n)" using arg_cong[OF nd, of node_level] by simp
  show "lock_index (N n) = lock_index (M n)" using arg_cong[OF nd, of lock_index] by simp
  show "parent_node (N n) = parent_node (M n)" using arg_cong[OF nd, of parent_node] by simp
  show "node_local_state (N n) = node_local_state (M n)" using arg_cong[OF nd, of node_local_state] by simp
qed

lemma ancestor_no_limits:
  assumes "no_limits N = no_limits (psci_non_cpu_pd_nodes s)"
  shows "ancestor (s\<lparr>psci_non_cpu_pd_nodes := N\<rparr>) = ancestor s"
proof -
  have "up_loop k p (s\<lparr>psci_non_cpu_pd_nodes := N\<rparr>) = up_loop k p s" for k p
    by (induction k arbitrary: p) (simp_all add: no_limitsD[OF assms])
  then show ?thesis
    by (simp add: ancestor_def fun_eq_iff)
qed

lemma limits_step_other:
  assumes "A c \<noteq> (x :: nat)"
  shows "e < Suc c \<and> A e = x \<longleftrightarrow> e < c \<and> A e = x"
  using assms by (auto simp: less_Suc_eq)

lemma limits_step_same:
  assumes mono: "\<And>d e. d \<le> e \<Longrightarrow> e \<le> c \<Longrightarrow> A d \<le> (A e :: nat)"
    and dom: "\<And>e. e < c \<and> A e = A c \<longleftrightarrow> st \<le> e \<and> e < st + n"
    and idx: "idx = (if c = 0 then 0 else A (c - 1))" and st0: "c = 0 \<Longrightarrow> st = 0"
  shows "e < Suc c \<and> A e = A c \<longleftrightarrow> (if A c \<noteq> idx then c else st) \<le> e \<and> e < (if A c \<noteq> idx then c else st) + (n + 1)"
proof (cases "c = 0")
  case True
  then have "n = 0"
    using dom[of st] by auto
  then show ?thesis
    using True st0 by auto
next
  case False
  show ?thesis
  proof (cases "A c = A (c - 1)")
    case True
    then have "st \<le> c - 1" "c - 1 < st + n"
      using dom[of "c - 1"] False by auto
    moreover have "\<not> c < st + n"
      using dom[of c] calculation by auto
    ultimately have c: "c = st + n"
      by simp
    show ?thesis
    proof (cases "e = c")
      case True
      then show ?thesis
        using c idx False \<open>A c = A (c - 1)\<close> by simp
    next
      case ec: False
      then show ?thesis
        using dom[of e] c idx False True by (auto simp: less_Suc_eq)
    qed
  next
    case neq: False
    have none: "A e \<noteq> A c" if "e < c" for e
      using mono[of e "c - 1"] mono[of "c - 1" c] neq that by fastforce
    then have "n = 0"
      using dom[of st] by (metis le_refl less_add_same_cancel1 not_gr_zero)
    then show ?thesis
      using none neq idx False by (auto simp: less_Suc_eq)
  qed
qed

lemma in_domain_nodes:
  "in_domain (s\<lparr>psci_non_cpu_pd_nodes := N\<rparr>) n d \<longleftrightarrow> cpu_start_idx (N n) \<le> d \<and> d < cpu_start_idx (N n) + ncpus (N n)"
  by (simp add: in_domain_def)

lemma limits_cpus_loop_eq:
  assumes anc: "\<And>l. 1 \<le> l \<Longrightarrow> l \<le> PLAT_MAX_PWR_LVL pf \<Longrightarrow> ancestors_ok st num n s0 l"
  shows "c + k = n \<Longrightarrow> no_limits N = no_limits (psci_non_cpu_pd_nodes s0) \<Longrightarrow>
    (\<And>j. j < PLAT_MAX_PWR_LVL pf \<Longrightarrow> idx j = (if c = 0 then 0 else ancestor s0 (c - 1) (Suc j))) \<Longrightarrow>
    (\<And>x. c = 0 \<Longrightarrow> cpu_start_idx (N x) = 0) \<Longrightarrow>
    (\<And>l d e. 1 \<le> l \<Longrightarrow> l \<le> PLAT_MAX_PWR_LVL pf \<Longrightarrow> d < n \<Longrightarrow>
       e < c \<and> ancestor s0 e l = ancestor s0 d l \<longleftrightarrow> in_domain (s0\<lparr>psci_non_cpu_pd_nodes := N\<rparr>) (ancestor s0 d l) e) \<Longrightarrow>
    \<exists>M. limits_cpus_loop pf k c idx (s0\<lparr>psci_non_cpu_pd_nodes := N\<rparr>) = s0\<lparr>psci_non_cpu_pd_nodes := M\<rparr> \<and>
      no_limits M = no_limits (psci_non_cpu_pd_nodes s0) \<and>
      (\<forall>l d e. 1 \<le> l \<and> l \<le> PLAT_MAX_PWR_LVL pf \<and> d < n \<longrightarrow>
        (e < n \<and> ancestor s0 e l = ancestor s0 d l \<longleftrightarrow> in_domain (s0\<lparr>psci_non_cpu_pd_nodes := M\<rparr>) (ancestor s0 d l) e))"
proof (induction k arbitrary: c N idx)
  case 0
  then show ?case
    by (intro exI[of _ N]) simp
next
  case (Suc k)
  let ?L = "PLAT_MAX_PWR_LVL pf"
  let ?s = "s0\<lparr>psci_non_cpu_pd_nodes := N\<rparr>"
  let ?temp = "psci_get_parent_pwr_domain_nodes c ?L ?s"
  have c: "c < n" using Suc.prems(1) by simp
  have temp: "?temp ! j = ancestor s0 c (Suc j)" if "j < ?L" for j
    using that ancestor_no_limits[OF Suc.prems(2)] by (simp add: parent_nodes_eq)
  have lvl: "l = m" if "ancestor s0 d l = ancestor s0 e m" "d < n" "e < n" "1 \<le> l" "l \<le> ?L" "1 \<le> m" "m \<le> ?L" for d e l m
    using ancestors_okD(2)[OF anc[OF that(4,5)] that(2)] ancestors_okD(2)[OF anc[OF that(6,7)] that(3)] that(1) by simp
  have inj: "inj_on (\<lambda>j. ?temp ! j) {..<?L}"
  proof (rule inj_onI)
    fix i j assume "i \<in> {..<?L}" "j \<in> {..<?L}" "?temp ! i = ?temp ! j"
    then show "i = j"
      using lvl[of c "Suc i" c "Suc j"] c temp by simp
  qed
  obtain idx' M where loop: "limits_levels_loop ?L c ?temp idx ?s = (idx', s0\<lparr>psci_non_cpu_pd_nodes := M\<rparr>)"
    and idx': "\<And>j. idx' j = (if j < ?L then ?temp ! j else idx j)"
    and hit: "\<And>j. j < ?L \<Longrightarrow> M (?temp ! j) = (N (?temp ! j))\<lparr>
        cpu_start_idx := (if ?temp ! j \<noteq> idx j then c else cpu_start_idx (N (?temp ! j))), ncpus := ncpus (N (?temp ! j)) + 1\<rparr>"
    and miss: "\<And>x. x \<notin> (\<lambda>j. ?temp ! j) ` {..<?L} \<Longrightarrow> M x = N x"
    using limits_levels_loop_eq[OF inj, of c idx ?s] by auto
  have nl: "no_limits M = no_limits (psci_non_cpu_pd_nodes s0)"
  proof -
    have "(M x)\<lparr>cpu_start_idx := 0, ncpus := 0\<rparr> = (N x)\<lparr>cpu_start_idx := 0, ncpus := 0\<rparr>" for x
      using hit miss[of x] by (cases "x \<in> (\<lambda>j. ?temp ! j) ` {..<?L}") auto
    then show ?thesis
      using Suc.prems(2) by (simp add: no_limits_def)
  qed
  have dom: "e < Suc c \<and> ancestor s0 e l = ancestor s0 d l \<longleftrightarrow> in_domain (s0\<lparr>psci_non_cpu_pd_nodes := M\<rparr>) (ancestor s0 d l) e"
    if l: "1 \<le> l" "l \<le> ?L" and d: "d < n" for l d e
  proof (cases "ancestor s0 c l = ancestor s0 d l")
    case True
    have l1: "l - 1 < ?L" "?temp ! (l - 1) = ancestor s0 c l"
      using temp[of "l - 1"] l by simp_all
    have "e < Suc c \<and> ancestor s0 e l = ancestor s0 c l \<longleftrightarrow>
        (if ancestor s0 c l \<noteq> idx (l - 1) then c else cpu_start_idx (N (ancestor s0 c l))) \<le> e \<and>
        e < (if ancestor s0 c l \<noteq> idx (l - 1) then c else cpu_start_idx (N (ancestor s0 c l))) + (ncpus (N (ancestor s0 c l)) + 1)"
    proof (rule limits_step_same[of c "\<lambda>e. ancestor s0 e l"])
      show "ancestor s0 d l \<le> ancestor s0 e l" if "d \<le> e" "e \<le> c" for d e
        using ancestors_okD(5)[OF anc[OF l], of d e] c that by simp
      show "e < c \<and> ancestor s0 e l = ancestor s0 c l \<longleftrightarrow> cpu_start_idx (N (ancestor s0 c l)) \<le> e \<and>
         e < cpu_start_idx (N (ancestor s0 c l)) + ncpus (N (ancestor s0 c l))" for e
        using Suc.prems(5)[OF l c, of e] by (simp add: in_domain_nodes)
    qed (use Suc.prems(3)[of "l - 1"] Suc.prems(4) l in auto)
    then show ?thesis
      using hit[OF l1(1)] True l1(2) by (simp add: in_domain_nodes)
  next
    case False
    have "ancestor s0 d l \<notin> (\<lambda>j. ?temp ! j) ` {..<?L}"
    proof
      assume "ancestor s0 d l \<in> (\<lambda>j. ?temp ! j) ` {..<?L}"
      then obtain j where "j < ?L" "ancestor s0 d l = ancestor s0 c (Suc j)"
        using temp by auto
      then show False
        using False lvl[of d l c "Suc j"] c d l by simp
    qed
    then show ?thesis
      using Suc.prems(5)[OF l d, of e] miss limits_step_other[of "\<lambda>e. ancestor s0 e l" c] False
      by (auto simp: in_domain_nodes)
  qed
  have "\<exists>M'. limits_cpus_loop pf k (c + 1) idx' (s0\<lparr>psci_non_cpu_pd_nodes := M\<rparr>) = s0\<lparr>psci_non_cpu_pd_nodes := M'\<rparr> \<and>
      no_limits M' = no_limits (psci_non_cpu_pd_nodes s0) \<and>
      (\<forall>l d e. 1 \<le> l \<and> l \<le> PLAT_MAX_PWR_LVL pf \<and> d < n \<longrightarrow>
        (e < n \<and> ancestor s0 e l = ancestor s0 d l \<longleftrightarrow> in_domain (s0\<lparr>psci_non_cpu_pd_nodes := M'\<rparr>) (ancestor s0 d l) e))"
    by (rule Suc.IH) (use Suc.prems(1) nl idx' temp dom in auto)
  then show ?case
    using loop by simp
qed

definition valid_tree_desc :: "'p platform \<Rightarrow> bool" where
  "valid_tree_desc pf \<longleftrightarrow>
     (let T = plat_get_power_domain_tree_desc pf; L = PLAT_MAX_PWR_LVL pf in
      0 < L \<and> PLATFORM_CORE_COUNT pf \<le> 0x10000 \<and> PSCI_NUM_NON_CPU_PWR_DOMAINS pf \<le> 0x10000 \<and>
      T \<noteq> [] \<and> T ! 0 \<le> PSCI_NUM_NON_CPU_PWR_DOMAINS pf \<and>
      valid_levels pf T (L - 1) (T ! 0) (if L = 1 then 0 else T ! 0) 1)"

definition desc_cpus :: "'p platform \<Rightarrow> nat" where
  "desc_cpus pf = leaf_count (plat_get_power_domain_tree_desc pf) (PLAT_MAX_PWR_LVL pf) 1 0"

lemma populate_tree:
  assumes "valid_tree_desc pf"
  shows "\<exists>N C D. populate_power_domain_tree pf (plat_get_power_domain_tree_desc pf) s =
      Ret (desc_cpus pf) (s\<lparr>psci_non_cpu_pd_nodes := N, psci_cpu_pd_nodes := C, psci_svc_cpu_data := D\<rparr>) \<and>
    desc_cpus pf \<le> PLATFORM_CORE_COUNT pf \<and>
    (\<exists>lo hi. tree_below (PLAT_MAX_OFF_STATE pf) (PSCI_NUM_NON_CPU_PWR_DOMAINS pf) (PLAT_MAX_PWR_LVL pf) lo hi N C (desc_cpus pf)) \<and>
    (\<forall>c<desc_cpus pf. fresh_cpu pf (D c)) \<and> same_limits N (psci_non_cpu_pd_nodes s)"
proof -
  define T where "T = plat_get_power_domain_tree_desc pf"
  define L where "L = PLAT_MAX_PWR_LVL pf - 1"
  define N1 where "N1 = (\<lambda>n. if 0 \<le> n \<and> n < 0 + T ! 0 then (psci_non_cpu_pd_nodes s n)
      \<lparr>node_level := Suc L, lock_index := n, parent_node := par 0, node_local_state := PLAT_MAX_OFF_STATE pf\<rparr>
      else psci_non_cpu_pd_nodes s n)"
  let ?s1 = "s\<lparr>psci_non_cpu_pd_nodes := N1\<rparr>" and ?i = "if L = 0 then 0 else T ! 0"
  have L: "PLAT_MAX_PWR_LVL pf = Suc L"
    using assms by (simp add: valid_tree_desc_def Let_def L_def)
  have v: "PLAT_MAX_PWR_LVL pf = Suc L" "PLATFORM_CORE_COUNT pf \<le> 0x10000" "PSCI_NUM_NON_CPU_PWR_DOMAINS pf \<le> 0x10000"
    "T \<noteq> []" "T ! 0 \<le> PSCI_NUM_NON_CPU_PWR_DOMAINS pf" "valid_levels pf T L (T ! 0) ?i 1"
    using assms by (simp_all add: valid_tree_desc_def Let_def T_def[symmetric] L)
  have b: "block T 0 (Suc 0) = T ! 0"
    using v(4) by (simp add: block_Suc)
  have init: "init_children_loop pf (T ! 0) 0 0 (Suc L) s = Ret (0 + T ! 0) ?s1"
    unfolding N1_def by (rule init_children_nodes) (use v in simp_all)
  have stage: "populate_levels pf T (Suc L) 1 0 0 0 s = populate_levels pf T L (T ! 0) (T ! 0) ?i 1 ?s1"
    using v(4) init by (simp add: Let_def)
  have start: "if L = 0 then ?i = 0 else 1 + T ! 0 = ?i + 1"
    by simp
  obtain n N C D where run: "populate_levels pf T L (T ! 0) (T ! 0) ?i 1 ?s1 =
        Ret n (?s1\<lparr>psci_non_cpu_pd_nodes := N, psci_cpu_pd_nodes := C, psci_svc_cpu_data := D\<rparr>)"
    and n: "n = leaf_count T L (T ! 0) 1" "n \<le> PLATFORM_CORE_COUNT pf"
    and tb: "tree_below (PLAT_MAX_OFF_STATE pf) (PSCI_NUM_NON_CPU_PWR_DOMAINS pf) L (1 - 1) (1 + T ! 0 - 1) N C n"
    and fr: "\<forall>c<n. fresh_cpu pf (D c)"
    and low: "\<forall>x. L = 0 \<or> x < ?i \<longrightarrow> node_core (N x) = node_core (psci_non_cpu_pd_nodes ?s1 x)"
    and lim: "same_limits N (psci_non_cpu_pd_nodes ?s1)"
    using populate_levels_tree[OF v(2,3,6) zero_less_one start, of "T ! 0" ?s1] by blast
  have nd: "n = desc_cpus pf"
    using n(1) b v(1) by (simp add: desc_cpus_def T_def[symmetric])
  have "level_nodes (PLAT_MAX_OFF_STATE pf) (Suc L) 0 (T ! 0) (par 0) (Suc (par 0)) N"
    by (rule level_nodes_cong[where M = N1]) (use low in \<open>auto simp: level_nodes_def N1_def\<close>)
  then have "tree_below (PLAT_MAX_OFF_STATE pf) (PSCI_NUM_NON_CPU_PWR_DOMAINS pf) (Suc L) (par 0) (Suc (par 0)) N C n"
    using tb v(5) by auto
  moreover have "same_limits N (psci_non_cpu_pd_nodes s)"
    using lim by (simp add: same_limits_def N1_def)
  moreover have "populate_power_domain_tree pf T s =
      Ret n (s\<lparr>psci_non_cpu_pd_nodes := N, psci_cpu_pd_nodes := C, psci_svc_cpu_data := D\<rparr>)"
    unfolding populate_power_domain_tree_def v(1) stage run using n by simp
  ultimately show ?thesis
    using fr n(2) unfolding nd T_def[symmetric] v(1) by blast
qed

lemma update_limits_topology:
  assumes tb: "tree_below st (PSCI_NUM_NON_CPU_PWR_DOMAINS pf) (PLAT_MAX_PWR_LVL pf) lo hi
      (psci_non_cpu_pd_nodes s) (psci_cpu_pd_nodes s) (psci_plat_core_count s)"
    and lim: "\<And>x. cpu_start_idx (psci_non_cpu_pd_nodes s x) = 0 \<and> ncpus (psci_non_cpu_pd_nodes s x) = 0"
    and n: "psci_plat_core_count s \<le> PLATFORM_CORE_COUNT pf"
  shows "\<exists>M. psci_update_pwrlvl_limits pf s = s\<lparr>psci_non_cpu_pd_nodes := M\<rparr> \<and> topology_ok pf (s\<lparr>psci_non_cpu_pd_nodes := M\<rparr>) \<and>
    (\<forall>c l. c < psci_plat_core_count s \<and> 1 \<le> l \<and> l \<le> PLAT_MAX_PWR_LVL pf \<longrightarrow>
       node_local_state (M (ancestor (s\<lparr>psci_non_cpu_pd_nodes := M\<rparr>) c l)) = st)"
proof -
  let ?n = "psci_plat_core_count s"
  have anc: "ancestors_ok st (PSCI_NUM_NON_CPU_PWR_DOMAINS pf) ?n s l" if "1 \<le> l" "l \<le> PLAT_MAX_PWR_LVL pf" for l
    using tree_ancestors[OF tb] that by blast
  have "\<exists>M. limits_cpus_loop pf ?n 0 (\<lambda>_. 0) (s\<lparr>psci_non_cpu_pd_nodes := psci_non_cpu_pd_nodes s\<rparr>) = s\<lparr>psci_non_cpu_pd_nodes := M\<rparr> \<and>
      no_limits M = no_limits (psci_non_cpu_pd_nodes s) \<and>
      (\<forall>l d e. 1 \<le> l \<and> l \<le> PLAT_MAX_PWR_LVL pf \<and> d < ?n \<longrightarrow>
        (e < ?n \<and> ancestor s e l = ancestor s d l \<longleftrightarrow> in_domain (s\<lparr>psci_non_cpu_pd_nodes := M\<rparr>) (ancestor s d l) e))"
    by (rule limits_cpus_loop_eq[OF anc]) (use lim in \<open>auto simp: in_domain_def\<close>)
  then obtain M where run: "psci_update_pwrlvl_limits pf s = s\<lparr>psci_non_cpu_pd_nodes := M\<rparr>"
    and nl: "no_limits M = no_limits (psci_non_cpu_pd_nodes s)"
    and dom: "\<And>l d e. 1 \<le> l \<Longrightarrow> l \<le> PLAT_MAX_PWR_LVL pf \<Longrightarrow> d < ?n \<Longrightarrow>
        (e < ?n \<and> ancestor s e l = ancestor s d l) = in_domain (s\<lparr>psci_non_cpu_pd_nodes := M\<rparr>) (ancestor s d l) e"
    by (auto simp: psci_update_pwrlvl_limits_def)
  have "topology_ok pf (s\<lparr>psci_non_cpu_pd_nodes := M\<rparr>)"
    unfolding topology_ok_def ancestor_no_limits[OF nl]
    using ancestors_okD(1,2,4)[OF anc] n dom no_limitsD[OF nl] by simp
  then show ?thesis
    using run ancestors_okD(3)[OF anc] no_limitsD[OF nl] by (auto simp: ancestor_no_limits[OF nl])
qed

text \<open>
  The state the cold boot leaves, on any platform whose tree description is valid: the number of
  cores is the number of leaves described, the tree is well formed, the boot core and all its
  ancestors run, every other core is off with every request at the deepest state, and so is every
  domain that does not contain the boot core.
\<close>

definition cold_boot_state :: "'p platform \<Rightarrow> nat \<Rightarrow> 'p psci_state \<Rightarrow> bool" where
  "cold_boot_state pf me t \<longleftrightarrow>
     psci_plat_core_count t = desc_cpus pf \<and> topology_ok pf t \<and> psci_caps t = psci_setup_caps pf \<and>
     lock_log t = [] \<and> stack t = (\<lambda>_. None) \<and>
     (\<forall>c<desc_cpus pf. target_pwrlvl (psci_svc_cpu_data t c) = PLAT_MAX_PWR_LVL pf \<and> aff_info_state (psci_svc_cpu_data t c) = (if c = me then AFF_STATE_ON else AFF_STATE_OFF) \<and>
        local_state (psci_svc_cpu_data t c) = (if c = me then PSCI_LOCAL_STATE_RUN else PLAT_MAX_OFF_STATE pf) \<and>
        (\<forall>l. 1 \<le> l \<and> l \<le> PLAT_MAX_PWR_LVL pf \<longrightarrow>
           req_state t l c = (if c = me then PSCI_LOCAL_STATE_RUN else PLAT_MAX_OFF_STATE pf) \<and>
           node_state t (ancestor t c l) = (if ancestor t c l = ancestor t me l then PSCI_LOCAL_STATE_RUN else PLAT_MAX_OFF_STATE pf)))"

lemma setup_cold_boot:
  assumes "valid_tree_desc pf" and me: "me < desc_cpus pf"
  shows "\<exists>t. psci_setup pf me (psci_bss p) = Ret 0 t \<and> cold_boot_state pf me t"
proof -
  let ?n = "desc_cpus pf"
  let ?s = "psci_bss p"
  obtain N C D where pop: "populate_power_domain_tree pf (plat_get_power_domain_tree_desc pf) ?s =
      Ret ?n (?s\<lparr>psci_non_cpu_pd_nodes := N, psci_cpu_pd_nodes := C, psci_svc_cpu_data := D\<rparr>)"
    and n: "?n \<le> PLATFORM_CORE_COUNT pf"
    and ex: "\<exists>lo hi. tree_below (PLAT_MAX_OFF_STATE pf) (PSCI_NUM_NON_CPU_PWR_DOMAINS pf) (PLAT_MAX_PWR_LVL pf) lo hi N C ?n"
    and fr: "\<forall>c<?n. fresh_cpu pf (D c)" and lim: "same_limits N (psci_non_cpu_pd_nodes ?s)"
    using populate_tree[OF assms(1), of ?s] by blast
  define s0 where "s0 = ?s\<lparr>psci_non_cpu_pd_nodes := N, psci_cpu_pd_nodes := C, psci_svc_cpu_data := D, psci_plat_core_count := ?n\<rparr>"
  have s0: "psci_non_cpu_pd_nodes s0 = N" "psci_cpu_pd_nodes s0 = C" "psci_plat_core_count s0 = ?n"
    "cpu_start_idx (N x) = 0 \<and> ncpus (N x) = 0" for x
    using lim by (simp_all add: s0_def same_limits_def psci_bss_def)
  obtain lo hi where tb: "tree_below (PLAT_MAX_OFF_STATE pf) (PSCI_NUM_NON_CPU_PWR_DOMAINS pf) (PLAT_MAX_PWR_LVL pf) lo hi
      (psci_non_cpu_pd_nodes s0) (psci_cpu_pd_nodes s0) (psci_plat_core_count s0)"
    using ex unfolding s0 by blast
  obtain M where upd: "psci_update_pwrlvl_limits pf s0 = s0\<lparr>psci_non_cpu_pd_nodes := M\<rparr>"
    and top: "topology_ok pf (s0\<lparr>psci_non_cpu_pd_nodes := M\<rparr>)"
    and off: "\<And>c l. c < ?n \<Longrightarrow> 1 \<le> l \<Longrightarrow> l \<le> PLAT_MAX_PWR_LVL pf \<Longrightarrow>
       node_local_state (M (ancestor (s0\<lparr>psci_non_cpu_pd_nodes := M\<rparr>) c l)) = PLAT_MAX_OFF_STATE pf"
    using update_limits_topology[OF tb, unfolded s0(1,3), OF s0(4) n] by blast
  define s1 where "s1 = s0\<lparr>psci_non_cpu_pd_nodes := M\<rparr>"
  define s3 where "s3 = psci_init_req_local_pwr_states pf
     (s1\<lparr>psci_cpu_pd_nodes := (psci_cpu_pd_nodes s1)(me := (psci_cpu_pd_nodes s1 me)\<lparr>cpu_mpidr := read_mpidr pf me AND MPIDR_AFFINITY_MASK\<rparr>)\<rparr>)"
  have cnt: "psci_plat_core_count s3 = ?n" "me < psci_plat_core_count s3"
    using me by (simp_all add: s3_def s1_def s0_def psci_init_req_local_pwr_states_def)
  have sh: "shape s3 = shape s1"
    by (auto simp: s3_def psci_init_req_local_pwr_states_def shape_def fun_eq_iff)
  have top3: "topology_ok pf s3"
    using top topology_ok_shape[OF sh] by (simp add: s1_def)
  have anc3: "ancestor s3 = ancestor s1"
    by (rule ancestor_shape[OF sh])
  have req3: "req_state s3 l c = PLAT_MAX_OFF_STATE pf" if "c < ?n" "1 \<le> l" "l \<le> PLAT_MAX_PWR_LVL pf" for l c
    using that by (auto simp: s3_def psci_init_req_local_pwr_states_def s1_def s0_def)
  have node3: "node_state s3 (ancestor s3 c l) = PLAT_MAX_OFF_STATE pf" if "c < ?n" "1 \<le> l" "l \<le> PLAT_MAX_PWR_LVL pf" for l c
    using off[OF that] unfolding anc3 by (simp add: s3_def psci_init_req_local_pwr_states_def s1_def)
  have cpu3: "psci_svc_cpu_data s3 = D"
    by (simp add: s3_def psci_init_req_local_pwr_states_def s1_def s0_def)
  have idle3: "stack s3 = (\<lambda>_. None)" "lock_log s3 = []"
    by (simp_all add: s3_def psci_init_req_local_pwr_states_def s1_def s0_def psci_bss_def)
  define s4 where "s4 = psci_set_pwr_domains_to_run pf me (PLAT_MAX_PWR_LVL pf) s3"
  have setup_run: "psci_setup pf me ?s = Ret 0 (s4\<lparr>psci_caps := psci_setup_caps pf\<rparr>)"
    using pop upd by (simp add: psci_setup_def Let_def s0_def[symmetric] s1_def[symmetric] s3_def s4_def)
  have sh4: "shape (s4\<lparr>psci_caps := x\<rparr>) = shape s3" for x
    unfolding s4_def by simp
  obtain N4 where s4: "s4 = s3\<lparr>psci_non_cpu_pd_nodes := N4,
       psci_req_local_pwr_states := (\<lambda>r d. if d = me \<and> r < PLAT_MAX_PWR_LVL pf then 0 else psci_req_local_pwr_states s3 r d),
       psci_svc_cpu_data := D(me := (D me)\<lparr>aff_info_state := AFF_STATE_ON, local_state := 0\<rparr>)\<rparr>"
    using set_to_run_only[OF cnt(2) order_refl] unfolding s4_def cpu3 by blast
  have nodes: "node_state s4 (ancestor s3 c l) = (if ancestor s3 c l = ancestor s3 me l then 0 else PLAT_MAX_OFF_STATE pf)"
    if "c < ?n" "1 \<le> l" "l \<le> PLAT_MAX_PWR_LVL pf" for c l
    using node_state_set_to_run[OF top3 cnt(2) order_refl, of c l] node3[OF that] that cnt(1) unfolding s4_def by simp
  have "cold_boot_state pf me (s4\<lparr>psci_caps := psci_setup_caps pf\<rparr>)"
    unfolding cold_boot_state_def topology_ok_shape[OF sh4] ancestor_shape[OF sh4]
    using top3 nodes req3 fr cnt idle3 by (auto simp: s4 fresh_cpu_def)
  then show ?thesis
    using setup_run by blast
qed

section \<open>A platform\<close>

text \<open>
  Two clusters of two cores under one system domain, with every mandatory hook: the platform the
  witnesses of the PSCI theorems run on.
\<close>

definition demo_ops :: "unit plat_psci_ops" where
  "demo_ops = \<lparr>cpu_standby = Some (\<lambda>_ p. p), pwr_domain_on = Some (\<lambda>_ p. (0, p)), pwr_domain_off = Some (\<lambda>_ p. p),
     pwr_domain_off_early = None, pwr_domain_validate_suspend = None, pwr_domain_suspend_pwrdown_early = None,
     pwr_domain_suspend = Some (\<lambda>_ p. p), pwr_domain_on_finish = Some (\<lambda>_ p. p), pwr_domain_on_finish_late = None,
     pwr_domain_suspend_finish = Some (\<lambda>_ p. p), pwr_domain_pwr_down = None, system_off = Some (\<lambda>p. p),
     system_reset = Some (\<lambda>p. p),
     validate_power_state = Some (\<lambda>ps si _. (0, si\<lparr>pwr_domain_state := (\<lambda>l. if l \<le> unat (psci_get_pstate_pwrlvl ps)
        then (if bit ps 16 then 2 else 1) else 0)\<rparr>)),
     validate_ns_entrypoint = None, get_sys_suspend_power_state = Some (\<lambda>si _. si\<lparr>pwr_domain_state := \<lambda>_. 2\<rparr>),
     get_pwr_lvl_state_idx = None, translate_power_state_by_mpidr = None, get_node_hw_state = None, mem_protect_chk = None,
     read_mem_protect = None, write_mem_protect = None, system_reset2 = None\<rparr>"

definition demo :: "unit platform" where
  "demo = \<lparr>PLAT_MAX_PWR_LVL = 2, PLATFORM_CORE_COUNT = 4, PSCI_NUM_NON_CPU_PWR_DOMAINS = 3, PLAT_MAX_RET_STATE = 1,
     PLAT_MAX_OFF_STATE = 2, PLAT_MAX_PWR_LVL_STATES = 2, PLAT_MAX_CPU_SUSPEND_PWR_LVL = None,
     HW_ASSISTED_COHERENCY = True, PSCI_OS_INIT_MODE = False, ENABLE_PSCI_STAT = False, PSCI_EXTENDED_STATE_ID = False,
     ENABLE_RMM = False, psci_plat_pm_ops = demo_ops, plat_core_pos_by_mpidr = (\<lambda>m. if m < 4 then uint m else - 1),
     plat_get_target_pwr_state = plat_get_target_pwr_state_default 2,
     plat_psci_stat_accounting_start = \<lambda>_ p. p, plat_psci_stat_accounting_stop = \<lambda>_ p. p,
     plat_psci_stat_get_residency = \<lambda>_ _ _ _. 0, plat_get_power_domain_tree_desc = [1, 2, 2, 2],
     read_isr_el1 = \<lambda>_. 0, read_mpidr = of_nat, read_scr_el3 = \<lambda>_. 0x500, read_sctlr_el1 = \<lambda>_. 0, read_sctlr_el2 = \<lambda>_. 0,
     pwr_dwn_op = \<lambda>_ p. (PABANDON_ACK, p), terminal_wakeups = \<lambda>_. 0,
     uninit_state = \<lparr>pwr_domain_state = \<lambda>_. 0, last_at_pwrlvl = 0\<rparr>\<rparr>"

lemma demo_simps [simp]:
  "PLAT_MAX_PWR_LVL demo = 2" "PLATFORM_CORE_COUNT demo = 4" "PSCI_NUM_NON_CPU_PWR_DOMAINS demo = 3"
  "PLAT_MAX_RET_STATE demo = 1" "PLAT_MAX_OFF_STATE demo = 2" "PLAT_MAX_PWR_LVL_STATES demo = 2"
  "HW_ASSISTED_COHERENCY demo" "\<not> PSCI_OS_INIT_MODE demo" "\<not> ENABLE_PSCI_STAT demo"
  "plat_get_power_domain_tree_desc demo = [1,2,2,2]"
  "psci_plat_pm_ops demo = demo_ops"
  by (simp_all add: demo_def)

lemma demo_desc [simp]: "valid_tree_desc demo" "desc_cpus demo = 4"
  by (simp_all add: valid_tree_desc_def desc_cpus_def block_def numeral_2_eq_2)

text \<open>
  C26. The cold boot of PSCI succeeds on every platform whose tree description is consistent with its
  node counts, for every boot core: \<open>psci_setup\<close> returns 0, the number of cores is the number of
  leaves the description gives, every ancestor of a core is a node of the right level whose CPU range is
  exactly the set of cores below it, the boot core and all its ancestor domains are in the run state, and
  every other core and every other domain is off.
\<close>

theorem psci_setup_builds_tree:
  assumes "valid_tree_desc pf" and "me < desc_cpus pf"
  shows "\<exists>t. psci_setup pf me (psci_bss p) = Ret 0 t \<and> cold_boot_state pf me t"
  using assms by (rule setup_cold_boot)

theorem psci_setup_builds_tree_witness:
  "valid_tree_desc demo \<and> 1 < desc_cpus demo \<and> (\<exists>t. psci_setup demo 1 (psci_bss ()) = Ret 0 t \<and> cold_boot_state demo 1 t)"
  using psci_setup_builds_tree[of demo 1 "()"] by simp

lemma demo_boot:
  assumes "me < 4"
  obtains t where "psci_setup demo me (psci_bss ()) = Ret 0 t" and "psci_plat_core_count t = 4" and "topology_ok demo t"
    and "cold_boot_state demo me t"
  using setup_cold_boot[of demo me "()"] assms by (auto simp: cold_boot_state_def)

end
