(* ===== verification/Psci_Coord.thy ===== *)
theory Psci_Coord
  imports Psci_Tree
begin

unbundle bit_operations_syntax

text \<open>
  State coordination in platform-coordinated mode: the interface of the platform's coordination function,
  the specification of \<open>psci_do_state_coordination\<close>, and the properties of it.
\<close>

section \<open>The platform's coordination function\<close>

text \<open>
  What PSCI relies on \<open>plat_get_target_pwr_state\<close> for: it decides for every non-empty list of
  requests, and never picks a state deeper than one that was requested.
\<close>

locale pwr_coordinator =
  fixes coordinate :: "nat \<Rightarrow> u8 list \<Rightarrow> u8 option"
  assumes total: "states \<noteq> [] \<Longrightarrow> \<exists>t. coordinate lvl states = Some t"
    and shallowest: "coordinate lvl states = Some t \<Longrightarrow> st \<in> set states \<Longrightarrow> t \<le> st"
begin

lemma run_wins: "coordinate lvl states = Some t \<Longrightarrow> 0 \<in> set states \<Longrightarrow> t = 0"
  using shallowest by fastforce

lemma low_power_unanimous: "coordinate lvl states = Some t \<Longrightarrow> t \<noteq> 0 \<Longrightarrow> st \<in> set states \<Longrightarrow> st \<noteq> 0"
  using run_wins by auto

end

lemma target_pwr_state_loop_le: "target_pwr_state_loop t states \<le> t"
  by (induction states arbitrary: t) (auto intro: order.trans order.strict_implies_order)

lemma target_pwr_state_loop_least: "st \<in> set states \<Longrightarrow> target_pwr_state_loop t states \<le> st"
  by (induction states arbitrary: t) (auto simp: not_less intro: order.trans[OF target_pwr_state_loop_le] target_pwr_state_loop_le)

interpretation default_coordinator: pwr_coordinator "plat_get_target_pwr_state_default max_off" for max_off
  by unfold_locales (auto simp: plat_get_target_pwr_state_default_def target_pwr_state_loop_least split: if_splits)

section \<open>State coordination\<close>

text \<open>
  What \<open>psci_do_state_coordination\<close> promises: the requests of the calling core become those of the
  composite state it passed, nothing else in the state changes, and the target of a level is what the
  platform picks from the requests of all the cores of the domain, unless a lower level stays running,
  which keeps every level above it running.
\<close>

definition domain_requests :: "'p psci_state \<Rightarrow> nat \<Rightarrow> nat \<Rightarrow> u8 list" where
  "domain_requests s l n = map (psci_req_local_pwr_states s (l - 1))
     [cpu_start_idx (psci_non_cpu_pd_nodes s n) ..< cpu_start_idx (psci_non_cpu_pd_nodes s n) + ncpus (psci_non_cpu_pd_nodes s n)]"

definition coordination_spec ::
  "'p platform \<Rightarrow> nat \<Rightarrow> nat \<Rightarrow> psci_power_state \<Rightarrow> 'p psci_state \<Rightarrow> psci_power_state \<Rightarrow> 'p psci_state \<Rightarrow> bool" where
  "coordination_spec pf c k si s si' t \<longleftrightarrow>
     t = s\<lparr>psci_req_local_pwr_states := (\<lambda>r d. if d = c \<and> r < k then pwr_domain_state si (Suc r) else psci_req_local_pwr_states s r d)\<rparr> \<and>
     last_at_pwrlvl si' = last_at_pwrlvl si \<and>
     (\<forall>l. l = 0 \<or> k < l \<longrightarrow> pwr_domain_state si' l = pwr_domain_state si l) \<and>
     (\<forall>l. 1 \<le> l \<and> l \<le> k \<longrightarrow>
        (if \<exists>m. 1 \<le> m \<and> m < l \<and> pwr_domain_state si' m = 0 then pwr_domain_state si' l = 0
         else plat_get_target_pwr_state pf l (domain_requests t l (ancestor s c l)) = Some (pwr_domain_state si' l)))"

lemma set_lvl_state_simps [simp]:
  "pwr_domain_state (set_lvl_state l st si) = (pwr_domain_state si)(l := st)"
  "last_at_pwrlvl (set_lvl_state l st si) = last_at_pwrlvl si"
  by (simp_all add: set_lvl_state_def)

lemma set_req_eq:
  assumes "1 \<le> l" and "l \<le> PLAT_MAX_PWR_LVL pf" and "c < psci_plat_core_count s"
  shows "psci_set_req_local_pwr_state pf l c r s = s\<lparr>psci_req_local_pwr_states :=
    (\<lambda>i d. if d = c \<and> Suc i = l then r else psci_req_local_pwr_states s i d)\<rparr>"
proof -
  have "(psci_req_local_pwr_states s)(l - 1 := (req_state s l)(c := r)) =
     (\<lambda>i d. if d = c \<and> Suc i = l then r else psci_req_local_pwr_states s i d)"
    using assms(1) by (auto simp: fun_eq_iff)
  then show ?thesis
    using assms by (simp add: psci_set_req_local_pwr_state_def)
qed

lemma coordinate_rest_eq:
  "1 \<le> lvl \<Longrightarrow> lvl + k \<le> PLAT_MAX_PWR_LVL pf + 1 \<Longrightarrow> c < psci_plat_core_count s \<Longrightarrow>
   coordinate_rest pf k lvl c si s =
     (si\<lparr>pwr_domain_state := (\<lambda>l. if lvl \<le> l \<and> l < lvl + k then 0 else pwr_domain_state si l)\<rparr>,
      s\<lparr>psci_req_local_pwr_states := (\<lambda>r d. if d = c \<and> lvl \<le> Suc r \<and> Suc r < lvl + k then pwr_domain_state si (Suc r)
         else psci_req_local_pwr_states s r d)\<rparr>)"
proof (induction k arbitrary: lvl si s)
  case 0
  have "(\<lambda>r d. if d = c \<and> lvl \<le> Suc r \<and> Suc r < lvl then pwr_domain_state si (Suc r) else psci_req_local_pwr_states s r d) =
      psci_req_local_pwr_states s" "(\<lambda>l. if lvl \<le> l \<and> l < lvl then 0 else pwr_domain_state si l) = pwr_domain_state si"
    by (auto simp: fun_eq_iff)
  then show ?case
    by simp
next
  case (Suc k)
  have "(\<lambda>l. if lvl + 1 \<le> l \<and> l < lvl + 1 + k then 0 else ((pwr_domain_state si)(lvl := 0)) l) =
     (\<lambda>l. if lvl \<le> l \<and> l < lvl + Suc k then 0 else pwr_domain_state si l)"
    by (auto simp: fun_eq_iff)
  moreover have "(\<lambda>r d. if d = c \<and> lvl + 1 \<le> Suc r \<and> Suc r < lvl + 1 + k then ((pwr_domain_state si)(lvl := 0)) (Suc r)
       else if d = c \<and> Suc r = lvl then pwr_domain_state si lvl else psci_req_local_pwr_states s r d) =
     (\<lambda>r d. if d = c \<and> lvl \<le> Suc r \<and> Suc r < lvl + Suc k then pwr_domain_state si (Suc r) else psci_req_local_pwr_states s r d)"
    by (auto simp: fun_eq_iff)
  ultimately show ?case
    using Suc.prems by (simp add: Suc.IH set_req_eq set_lvl_state_def cong: if_cong)
qed

lemma get_req_eq:
  assumes "1 \<le> l" and "l \<le> PLAT_MAX_PWR_LVL pf" and "cpu_start_idx (psci_non_cpu_pd_nodes s n) < psci_plat_core_count s"
  shows "psci_get_req_local_pwr_states pf l (cpu_start_idx (psci_non_cpu_pd_nodes s n)) (ncpus (psci_non_cpu_pd_nodes s n)) s =
     Some (domain_requests s l n)"
  using assms by (simp add: psci_get_req_local_pwr_states_def domain_requests_def)

definition loop_spec ::
  "'p platform \<Rightarrow> nat \<Rightarrow> nat \<Rightarrow> nat \<Rightarrow> nat \<Rightarrow> psci_power_state \<Rightarrow> 'p psci_state \<Rightarrow> nat \<Rightarrow> psci_power_state
     \<Rightarrow> (nat \<Rightarrow> nat \<Rightarrow> u8) \<Rightarrow> bool" where
  "loop_spec pf c k lvl p si s m si' R \<longleftrightarrow>
     lvl \<le> m \<and> m \<le> lvl + k \<and> last_at_pwrlvl si' = last_at_pwrlvl si \<and>
     (m < lvl + k \<longrightarrow> pwr_domain_state si' m = 0) \<and>
     (\<forall>l. lvl \<le> l \<and> l < m \<longrightarrow> pwr_domain_state si' l \<noteq> 0) \<and>
     (\<forall>l. l < lvl \<or> m < l \<or> lvl + k \<le> l \<longrightarrow> pwr_domain_state si' l = pwr_domain_state si l) \<and>
     R = (\<lambda>r d. if d = c \<and> lvl \<le> Suc r \<and> Suc r \<le> m \<and> Suc r < lvl + k then pwr_domain_state si (Suc r)
                else psci_req_local_pwr_states s r d) \<and>
     (\<forall>l. lvl \<le> l \<and> l \<le> m \<and> l < lvl + k \<longrightarrow>
        plat_get_target_pwr_state pf l (domain_requests (s\<lparr>psci_req_local_pwr_states := R\<rparr>) l (up_loop (l - lvl) p s)) =
          Some (pwr_domain_state si' l))"

lemma loop_specD:
  assumes "loop_spec pf c k lvl p si s m si' R"
  shows "lvl \<le> m" and "m \<le> lvl + k" and "last_at_pwrlvl si' = last_at_pwrlvl si"
    and "m < lvl + k \<Longrightarrow> pwr_domain_state si' m = 0"
    and "lvl \<le> l \<Longrightarrow> l < m \<Longrightarrow> pwr_domain_state si' l \<noteq> 0"
    and "l < lvl \<or> m < l \<or> lvl + k \<le> l \<Longrightarrow> pwr_domain_state si' l = pwr_domain_state si l"
    and "R r d = (if d = c \<and> lvl \<le> Suc r \<and> Suc r \<le> m \<and> Suc r < lvl + k then pwr_domain_state si (Suc r)
                else psci_req_local_pwr_states s r d)"
    and "lvl \<le> l \<Longrightarrow> l \<le> m \<Longrightarrow> l < lvl + k \<Longrightarrow>
        plat_get_target_pwr_state pf l (domain_requests (s\<lparr>psci_req_local_pwr_states := R\<rparr>) l (up_loop (l - lvl) p s)) =
          Some (pwr_domain_state si' l)"
  using assms by (auto simp: loop_spec_def)

lemma coordinate_loop_spec:
  assumes coord: "pwr_coordinator (plat_get_target_pwr_state pf)"
  shows "1 \<le> lvl \<Longrightarrow> lvl + k \<le> PLAT_MAX_PWR_LVL pf + 1 \<Longrightarrow> c < psci_plat_core_count s \<Longrightarrow>
   (\<And>i. i < k \<Longrightarrow> cpu_start_idx (psci_non_cpu_pd_nodes s (up_loop i p s)) < psci_plat_core_count s \<and>
       0 < ncpus (psci_non_cpu_pd_nodes s (up_loop i p s))) \<Longrightarrow>
   \<exists>m si' R. coordinate_loop pf k lvl p c si s = Ret (m, si') (s\<lparr>psci_req_local_pwr_states := R\<rparr>) \<and>
     loop_spec pf c k lvl p si s m si' R"
proof (induction k arbitrary: lvl p si s)
  case 0
  have "(\<lambda>r d. if d = c \<and> lvl \<le> Suc r \<and> Suc r \<le> lvl \<and> Suc r < lvl then pwr_domain_state si (Suc r) else psci_req_local_pwr_states s r d) =
      psci_req_local_pwr_states s"
    by (auto simp: fun_eq_iff)
  then show ?case
    by (intro exI[of _ lvl] exI[of _ si] exI[of _ "psci_req_local_pwr_states s"]) (auto simp: loop_spec_def)
next
  case (Suc k)
  define R1 where "R1 = (\<lambda>i d. if d = c \<and> Suc i = lvl then pwr_domain_state si lvl else psci_req_local_pwr_states s i d)"
  let ?s1 = "s\<lparr>psci_req_local_pwr_states := R1\<rparr>"
  have s1: "psci_set_req_local_pwr_state pf lvl c (pwr_domain_state si lvl) s = ?s1"
    using Suc.prems by (simp add: set_req_eq R1_def)
  have up: "up_loop j q ?s1 = up_loop j q s" for j q
    by (rule up_loop_shape) simp
  have range: "cpu_start_idx (psci_non_cpu_pd_nodes s p) < psci_plat_core_count s" "0 < ncpus (psci_non_cpu_pd_nodes s p)"
    using Suc.prems(4)[of 0] by simp_all
  then have ne: "domain_requests ?s1 lvl p \<noteq> []"
    by (simp add: domain_requests_def)
  then obtain t where t: "plat_get_target_pwr_state pf lvl (domain_requests ?s1 lvl p) = Some t"
    using pwr_coordinator.total[OF coord] by blast
  have reqs: "psci_get_req_local_pwr_states pf lvl (cpu_start_idx (psci_non_cpu_pd_nodes ?s1 p))
      (ncpus (psci_non_cpu_pd_nodes ?s1 p)) ?s1 = Some (domain_requests ?s1 lvl p)"
    using Suc.prems range by (intro get_req_eq) simp_all
  show ?case
  proof (cases "t = 0")
    case True
    have R1: "R1 = (\<lambda>r d. if d = c \<and> lvl \<le> Suc r \<and> Suc r \<le> lvl \<and> Suc r < lvl + Suc k then pwr_domain_state si (Suc r)
        else psci_req_local_pwr_states s r d)"
      by (auto simp: R1_def fun_eq_iff)
    have "loop_spec pf c (Suc k) lvl p si s lvl (set_lvl_state lvl t si) R1"
      unfolding loop_spec_def using True t R1 by auto
    then show ?thesis
      using True s1 reqs t by (intro exI) (auto simp: Let_def is_local_state_run_def)
  next
    case False
    let ?p = "parent_node (psci_non_cpu_pd_nodes ?s1 p)"
    have "\<exists>m si' R. coordinate_loop pf k (lvl + 1) ?p c (set_lvl_state lvl t si) ?s1 =
        Ret (m, si') (?s1\<lparr>psci_req_local_pwr_states := R\<rparr>) \<and> loop_spec pf c k (lvl + 1) ?p (set_lvl_state lvl t si) ?s1 m si' R"
    proof (rule Suc.IH)
      show "cpu_start_idx (psci_non_cpu_pd_nodes ?s1 (up_loop i ?p ?s1)) < psci_plat_core_count ?s1 \<and>
        0 < ncpus (psci_non_cpu_pd_nodes ?s1 (up_loop i ?p ?s1))" if "i < k" for i
        using Suc.prems(4)[of "Suc i"] that by (simp add: up)
    qed (use Suc.prems in simp_all)
    then obtain m si' R where ih: "coordinate_loop pf k (lvl + 1) ?p c (set_lvl_state lvl t si) ?s1 =
        Ret (m, si') (s\<lparr>psci_req_local_pwr_states := R\<rparr>)"
      "loop_spec pf c k (lvl + 1) ?p (set_lvl_state lvl t si) ?s1 m si' R"
      by auto
    note ihD = loop_specD[OF ih(2)]
    have m: "lvl + 1 \<le> m" "pwr_domain_state si' lvl = t"
      using ihD(1) ihD(6)[of lvl] by simp_all
    have R: "R = (\<lambda>r d. if d = c \<and> lvl \<le> Suc r \<and> Suc r \<le> m \<and> Suc r < lvl + Suc k then pwr_domain_state si (Suc r)
        else psci_req_local_pwr_states s r d)"
      using m(1) by (auto simp: fun_eq_iff ihD(7) R1_def)
    have row: "R (lvl - 1) = R1 (lvl - 1)"
      using Suc.prems(1) m(1) by (auto simp: R R1_def fun_eq_iff)
    have target: "plat_get_target_pwr_state pf l (domain_requests (s\<lparr>psci_req_local_pwr_states := R\<rparr>) l (up_loop (l - lvl) p s)) =
        Some (pwr_domain_state si' l)" if "lvl \<le> l" "l \<le> m" "l < lvl + Suc k" for l
    proof (cases "l = lvl")
      case True
      then show ?thesis
        using t m row by (simp add: domain_requests_def)
    next
      case neq: False
      then have "l - lvl = Suc (l - Suc lvl)"
        using that by simp
      then show ?thesis
        using ihD(8)[of l] neq that by (simp add: up)
    qed
    have low: "pwr_domain_state si' l \<noteq> 0" if "lvl \<le> l" "l < m" for l
      using ihD(5)[of l] m(2) False that by (cases "l = lvl") simp_all
    have other: "pwr_domain_state si' l = pwr_domain_state si l" if "l < lvl \<or> m < l \<or> lvl + Suc k \<le> l" for l
      using ihD(6)[of l] ihD(2) m(1) that by fastforce
    have "loop_spec pf c (Suc k) lvl p si s m si' R"
      unfolding loop_spec_def
    proof (intro conjI allI impI)
      show "R = (\<lambda>r d. if d = c \<and> lvl \<le> Suc r \<and> Suc r \<le> m \<and> Suc r < lvl + Suc k then pwr_domain_state si (Suc r)
        else psci_req_local_pwr_states s r d)"
        by (rule R)
    qed (use ihD(1-4) target low other in auto)
    then show ?thesis
      using False s1 reqs t ih(1) by (intro exI) (auto simp: Let_def is_local_state_run_def)
  qed
qed

lemma own_domain:
  assumes "topology_ok pf s" and "c < psci_plat_core_count s" and "1 \<le> l" and "l \<le> PLAT_MAX_PWR_LVL pf"
  shows "cpu_start_idx (psci_non_cpu_pd_nodes s (ancestor s c l)) < psci_plat_core_count s"
    and "0 < ncpus (psci_non_cpu_pd_nodes s (ancestor s c l))"
  using topology_okD(3)[OF assms, of c] assms(2) by (auto simp: in_domain_def)

lemma set_domain_requests:
  assumes "topology_ok pf s" and "c < psci_plat_core_count s" and "1 \<le> l" and "l \<le> PLAT_MAX_PWR_LVL pf"
    and "shape t = shape s"
  shows "set (domain_requests t l (ancestor s c l)) =
    {req_state t l d | d. d < psci_plat_core_count s \<and> ancestor s d l = ancestor s c l}"
proof -
  have "set (domain_requests t l (ancestor s c l)) = req_state t l ` {d. in_domain s (ancestor s c l) d}"
    unfolding in_domain_shape[OF assms(5), symmetric] by (auto simp: domain_requests_def in_domain_def)
  then show ?thesis
    using topology_okD(3)[OF assms(1-4)] by auto
qed

lemma do_state_coordination_spec:
  assumes top: "topology_ok pf s" and coord: "pwr_coordinator (plat_get_target_pwr_state pf)"
    and c: "c < psci_plat_core_count s" and k: "k \<le> PLAT_MAX_PWR_LVL pf"
  shows "\<exists>si' t. psci_do_state_coordination pf c k si s = Ret si' t \<and> coordination_spec pf c k si s si' t"
proof -
  let ?p = "cpu_parent_node (psci_cpu_pd_nodes s c)"
  have "cpu_start_idx (psci_non_cpu_pd_nodes s (up_loop i ?p s)) < psci_plat_core_count s \<and>
       0 < ncpus (psci_non_cpu_pd_nodes s (up_loop i ?p s))" if "i < k" for i
    using own_domain[OF top c, of "Suc i"] that k unfolding ancestor_up by simp
  then obtain m si1 R where loop: "coordinate_loop pf k 1 ?p c si s = Ret (m, si1) (s\<lparr>psci_req_local_pwr_states := R\<rparr>)"
      "loop_spec pf c k 1 ?p si s m si1 R"
    using coordinate_loop_spec[OF coord, of 1 k c s ?p si] c k by auto
  note D = loop_specD[OF loop(2)]
  define si' where "si' = si1\<lparr>pwr_domain_state := (\<lambda>l. if m < l \<and> l \<le> k then 0 else pwr_domain_state si1 l)\<rparr>"
  define t where "t = s\<lparr>psci_req_local_pwr_states := (\<lambda>r d. if d = c \<and> r < k then pwr_domain_state si (Suc r)
      else psci_req_local_pwr_states s r d)\<rparr>"
  have "coordinate_rest pf (k - m) (m + 1) c si1 (s\<lparr>psci_req_local_pwr_states := R\<rparr>) = (si', t)"
  proof (cases "m \<le> k")
    case True
    have "(\<lambda>r d. if d = c \<and> m + 1 \<le> Suc r \<and> Suc r < m + 1 + (k - m) then pwr_domain_state si1 (Suc r) else R r d) =
      (\<lambda>r d. if d = c \<and> r < k then pwr_domain_state si (Suc r) else psci_req_local_pwr_states s r d)"
      using True D(6,7) by (auto simp: fun_eq_iff)
    moreover have "(\<lambda>l. if m + 1 \<le> l \<and> l < m + 1 + (k - m) then 0 else pwr_domain_state si1 l) =
      (\<lambda>l. if m < l \<and> l \<le> k then 0 else pwr_domain_state si1 l)"
      using True by (auto simp: fun_eq_iff)
    ultimately show ?thesis
      using True c k by (simp add: coordinate_rest_eq si'_def t_def cong: if_cong)
  next
    case False
    then have "m = k + 1"
      using D(2) by simp
    moreover from this have "R = (\<lambda>r d. if d = c \<and> r < k then pwr_domain_state si (Suc r) else psci_req_local_pwr_states s r d)"
      by (auto simp: fun_eq_iff D(7))
    moreover have "(\<lambda>l. if m < l \<and> l \<le> k then 0 else pwr_domain_state si1 l) = pwr_domain_state si1"
      using False by (auto simp: fun_eq_iff)
    ultimately show ?thesis
      by (simp add: si'_def t_def cong: if_cong)
  qed
  moreover have "coordination_spec pf c k si s si' t"
    unfolding coordination_spec_def
  proof (intro conjI allI impI)
    show "pwr_domain_state si' l = pwr_domain_state si l" if "l = 0 \<or> k < l" for l
      using that D(6)[of l] by (auto simp: si'_def)
    show "last_at_pwrlvl si' = last_at_pwrlvl si"
      using D(3) by (simp add: si'_def)
    fix l assume l: "1 \<le> l \<and> l \<le> k"
    show "if \<exists>m. 1 \<le> m \<and> m < l \<and> pwr_domain_state si' m = 0 then pwr_domain_state si' l = 0
      else plat_get_target_pwr_state pf l (domain_requests t l (ancestor s c l)) = Some (pwr_domain_state si' l)"
    proof (cases "l \<le> m")
      case True
      have "pwr_domain_state si' i \<noteq> 0" if "1 \<le> i" "i < l" for i
        using D(5)[of i] that True by (auto simp: si'_def)
      moreover have "domain_requests (s\<lparr>psci_req_local_pwr_states := R\<rparr>) l = domain_requests t l"
        using l True D(7) by (auto simp: domain_requests_def t_def fun_eq_iff)
      ultimately show ?thesis
        using D(8)[of l] l True by (auto simp: si'_def ancestor_def)
    next
      case False
      then show ?thesis
        using l D(1,4) by (auto simp: si'_def intro!: exI[of _ m])
    qed
  qed (simp add: t_def)
  ultimately show ?thesis
    using loop(1) k by (simp add: psci_do_state_coordination_def)
qed

lemma coordination_specD:
  assumes spec: "coordination_spec pf c k si s si' t" and top: "topology_ok pf s" and c: "c < psci_plat_core_count s"
    and k: "k \<le> PLAT_MAX_PWR_LVL pf" and coord: "pwr_coordinator (plat_get_target_pwr_state pf)"
    and l: "1 \<le> l" "l \<le> k"
  shows "d < psci_plat_core_count s \<Longrightarrow> ancestor s d l = ancestor s c l \<Longrightarrow> pwr_domain_state si' l \<le> req_state t l d"
    and "pwr_domain_state si' l \<le> pwr_domain_state si l"
    and "l \<le> m \<Longrightarrow> m \<le> k \<Longrightarrow> pwr_domain_state si' l = 0 \<Longrightarrow> pwr_domain_state si' m = 0"
proof -
  have t: "t = s\<lparr>psci_req_local_pwr_states := (\<lambda>r d. if d = c \<and> r < k then pwr_domain_state si (Suc r) else psci_req_local_pwr_states s r d)\<rparr>"
    and lvl: "if \<exists>m. 1 \<le> m \<and> m < l \<and> pwr_domain_state si' m = 0 then pwr_domain_state si' l = 0
         else plat_get_target_pwr_state pf l (domain_requests t l (ancestor s c l)) = Some (pwr_domain_state si' l)"
    using spec l unfolding coordination_spec_def by auto
  have sh: "shape t = shape s" by (simp add: t)
  show le: "pwr_domain_state si' l \<le> req_state t l d" if "d < psci_plat_core_count s" "ancestor s d l = ancestor s c l" for d
  proof (cases "pwr_domain_state si' l = 0")
    case False
    then have "plat_get_target_pwr_state pf l (domain_requests t l (ancestor s c l)) = Some (pwr_domain_state si' l)"
      using lvl by (meson)
    moreover have "req_state t l d \<in> set (domain_requests t l (ancestor s c l))"
      using set_domain_requests[OF top c l(1) _ sh] k l that by auto
    ultimately show ?thesis
      by (rule pwr_coordinator.shallowest[OF coord])
  qed simp
  show "pwr_domain_state si' l \<le> pwr_domain_state si l"
    using le[OF c refl] l by (cases l) (simp_all add: t)
  show "pwr_domain_state si' m = 0" if "l \<le> m" "m \<le> k" "pwr_domain_state si' l = 0"
  proof (cases "l = m")
    case False
    then show ?thesis
      using spec that l unfolding coordination_spec_def by (meson le_neq_implies_less le_trans)
  qed (use that in simp)
qed

lemma demo_coordinator: "pwr_coordinator (plat_get_target_pwr_state demo)"
  using default_coordinator.pwr_coordinator_axioms[of 2] by (simp add: demo_def)

text \<open>
  C25. State coordination between the cores of a power domain, for every well-formed tree, every core and
  every level up to the highest: \<open>psci_do_state_coordination\<close> returns, it changes nothing but
  the requested states of the calling core, the target state of every level is what the platform picks
  from the requests of all the cores below that domain unless a lower level keeps running, the target
  is never deeper than what any core below the domain asked for, and a level that keeps running keeps all
  the levels above it running.
\<close>

theorem psci_coordination_correct:
  assumes "topology_ok pf s" and "pwr_coordinator (plat_get_target_pwr_state pf)"
    and "c < psci_plat_core_count s" and "k \<le> PLAT_MAX_PWR_LVL pf"
  shows "\<exists>si' t. psci_do_state_coordination pf c k si s = Ret si' t \<and> coordination_spec pf c k si s si' t \<and>
    (\<forall>l. 1 \<le> l \<and> l \<le> k \<longrightarrow>
       (\<forall>d<psci_plat_core_count s. ancestor s d l = ancestor s c l \<longrightarrow> pwr_domain_state si' l \<le> req_state t l d) \<and>
       (pwr_domain_state si' l = PSCI_LOCAL_STATE_RUN \<longrightarrow> (\<forall>m. l \<le> m \<and> m \<le> k \<longrightarrow> pwr_domain_state si' m = PSCI_LOCAL_STATE_RUN)))"
proof -
  obtain si' t where run: "psci_do_state_coordination pf c k si s = Ret si' t" and spec: "coordination_spec pf c k si s si' t"
    using do_state_coordination_spec[OF assms] by blast
  note D = coordination_specD[OF spec assms(1,3,4,2)]
  show ?thesis
    using run spec D(1,3) by (intro exI[of _ si'] exI[of _ t]) blast
qed

theorem psci_coordination_correct_witness:
  "\<exists>s. psci_setup demo 0 (psci_bss ()) = Ret 0 s \<and> topology_ok demo s \<and> pwr_coordinator (plat_get_target_pwr_state demo) \<and>
     1 < psci_plat_core_count s \<and> (2::nat) \<le> PLAT_MAX_PWR_LVL demo \<and>
     (\<exists>si' t. psci_do_state_coordination demo 1 2 \<lparr>pwr_domain_state = \<lambda>_. 2, last_at_pwrlvl = 0\<rparr> s = Ret si' t \<and>
        pwr_domain_state si' 0 = 2 \<and> pwr_domain_state si' 2 \<le> req_state t 2 1)"
proof -
  obtain s where s: "psci_setup demo 0 (psci_bss ()) = Ret 0 s" "psci_plat_core_count s = 4" "topology_ok demo s"
    by (rule demo_boot[of 0]) simp_all
  obtain si' t where run: "psci_do_state_coordination demo 1 2 \<lparr>pwr_domain_state = \<lambda>_. 2, last_at_pwrlvl = 0\<rparr> s = Ret si' t"
    and spec: "coordination_spec demo 1 2 \<lparr>pwr_domain_state = \<lambda>_. 2, last_at_pwrlvl = 0\<rparr> s si' t"
    and le: "\<forall>l. 1 \<le> l \<and> l \<le> 2 \<longrightarrow>
      (\<forall>d<psci_plat_core_count s. ancestor s d l = ancestor s 1 l \<longrightarrow> pwr_domain_state si' l \<le> req_state t l d)"
    using psci_coordination_correct[OF s(3) demo_coordinator, of 1 2 "\<lparr>pwr_domain_state = \<lambda>_. 2, last_at_pwrlvl = 0\<rparr>"] s(2) by auto
  have "pwr_domain_state si' 0 = 2"
    using spec by (simp add: coordination_spec_def)
  moreover have "pwr_domain_state si' 2 \<le> req_state t 2 1"
    using le[rule_format, of 2 1] s(2) by simp
  ultimately show ?thesis
    using s run demo_coordinator by (intro exI[of _ s]) simp
qed

text \<open>
  C27. Which suspend requests the generic code accepts: \<open>psci_validate_suspend_req\<close> returns success
  exactly when some level asks for a state other than run, no level asks for a deeper kind of state (run,
  retention, off) than the level below it, and an off state is asked for only in a power-down request.
\<close>

theorem psci_validate_suspend_req_correct:
  "psci_validate_suspend_req pf si pd = PSCI_E_SUCCESS \<longleftrightarrow>
     (\<exists>l\<le>PLAT_MAX_PWR_LVL pf. pwr_domain_state si l \<noteq> PSCI_LOCAL_STATE_RUN) \<and>
     (\<forall>i j. i \<le> j \<and> j \<le> PLAT_MAX_PWR_LVL pf \<longrightarrow> depth pf (pwr_domain_state si j) \<le> depth pf (pwr_domain_state si i)) \<and>
     (pd \<or> (\<forall>l\<le>PLAT_MAX_PWR_LVL pf. \<not> is_local_state_off pf (pwr_domain_state si l)))"
  using validate_suspend_req_iff[of pf si pd] by blast

theorem psci_validate_suspend_req_correct_witness:
  "psci_validate_suspend_req demo \<lparr>pwr_domain_state = (\<lambda>l. if l \<le> 1 then 2 else 0), last_at_pwrlvl = 0\<rparr> True = PSCI_E_SUCCESS \<and>
   psci_validate_suspend_req demo \<lparr>pwr_domain_state = (\<lambda>l. if l \<le> 1 then 2 else 0), last_at_pwrlvl = 0\<rparr> False \<noteq> PSCI_E_SUCCESS"
  using psci_validate_suspend_req_correct[of demo "\<lparr>pwr_domain_state = (\<lambda>l. if l \<le> 1 then 2 else 0), last_at_pwrlvl = 0\<rparr>" True]
    psci_validate_suspend_req_correct[of demo "\<lparr>pwr_domain_state = (\<lambda>l. if l \<le> 1 then 2 else 0), last_at_pwrlvl = 0\<rparr>" False]
  by (auto simp: is_local_state_off_def)

end
