(* ===== verification/Psci_Frame.thy ===== *)
theory Psci_Frame
  imports Psci_Coord
begin

text \<open>
  What the PSCI operations leave alone. The view of a state is all of it but the platform's own
  state, the statistics and the trace of the locks; most helpers keep the view, and the few that
  change it change the parts that are written out here.
\<close>

section \<open>The view of a state\<close>

definition view :: "'p psci_state \<Rightarrow> (nat \<Rightarrow> nat \<Rightarrow> u8) \<times> (nat \<Rightarrow> non_cpu_pd_node) \<times> (nat \<Rightarrow> cpu_pd_node) \<times>
    (nat \<Rightarrow> psci_cpu_data) \<times> (nat \<Rightarrow> entry_point_info) \<times> u32 \<times> nat \<times> suspend_mode \<times> 'p spd_pm_ops option \<times>
    (nat \<Rightarrow> wfi_frame option) \<times> (nat \<Rightarrow> entry_point_info option)" where
  "view s = (psci_req_local_pwr_states s, psci_non_cpu_pd_nodes s, psci_cpu_pd_nodes s, psci_svc_cpu_data s,
     warmboot_ep_info s, psci_caps s, psci_plat_core_count s, psci_suspend_mode s, psci_spd_pm s, stack s, ns_context s)"

lemma view_eqD:
  assumes "view t = view s"
  shows "psci_req_local_pwr_states t = psci_req_local_pwr_states s" and "psci_non_cpu_pd_nodes t = psci_non_cpu_pd_nodes s"
    and "psci_cpu_pd_nodes t = psci_cpu_pd_nodes s" and "psci_svc_cpu_data t = psci_svc_cpu_data s"
    and "warmboot_ep_info t = warmboot_ep_info s" and "psci_caps t = psci_caps s"
    and "psci_plat_core_count t = psci_plat_core_count s" and "psci_suspend_mode t = psci_suspend_mode s"
    and "psci_spd_pm t = psci_spd_pm s" and "stack t = stack s" and "ns_context t = ns_context s"
  using assms by (simp_all add: view_def)

lemma view_shape:
  assumes "view t = view s"
  shows "shape t = shape s"
  by (simp add: shape_def view_eqD[OF assms])

text \<open>The state may differ from another one in the platform's part and the statistics only.\<close>

definition same :: "'p psci_state \<Rightarrow> 'p psci_state \<Rightarrow> bool" where
  "same s t \<longleftrightarrow> view t = view s \<and> lock_log t = lock_log s"

lemma same_refl [simp]: "same s s"
  by (simp add: same_def)

lemma same_trans [trans]: "same s t \<Longrightarrow> same t u \<Longrightarrow> same s u"
  by (simp add: same_def)

section \<open>Outcomes\<close>

lemma obind_Wfi_eq: "obind m f = Wfi t \<longleftrightarrow> m = Wfi t \<or> (\<exists>a s. m = Ret a s \<and> f a s = Wfi t)"
  by (cases m) auto

lemma obind_Halt_eq: "obind m f = Halt \<longleftrightarrow> m = Halt \<or> (\<exists>a s. m = Ret a s \<and> f a s = Halt)"
  by (cases m) auto

lemma oassert_eq: "oassert b s = Ret u t \<longleftrightarrow> b \<and> t = s" "oassert b s \<noteq> Wfi t"
  by (cases b; auto)+

text \<open>The state an outcome leaves, when the core goes on or waits.\<close>

fun leaves :: "('a, 's) outcome \<Rightarrow> 's \<Rightarrow> bool" where
  "leaves (Ret a s) t \<longleftrightarrow> t = s"
| "leaves (Wfi s) t \<longleftrightarrow> t = s"
| "leaves Halt t \<longleftrightarrow> False"

lemma leaves_obind:
  "leaves (obind m f) t \<longleftrightarrow> m = Wfi t \<or> (\<exists>a s. m = Ret a s \<and> leaves (f a s) t)"
  by (cases m) auto

lemma leaves_oassert [simp]: "leaves (obind (oassert b s) f) t \<longleftrightarrow> b \<and> leaves (f () s) t"
  by (cases b) auto

lemma leaves_iff: "leaves m t \<longleftrightarrow> (\<exists>a. m = Ret a t) \<or> m = Wfi t"
  by (cases m) auto

section \<open>Per-CPU data\<close>

lemma get_set_aff [simp]:
  "psci_get_aff_info_state_by_idx c (psci_set_aff_info_state_by_idx d a s) = (if c = d then a else psci_get_aff_info_state_by_idx c s)"
  by (simp add: psci_access)

lemma aff_view: "view t = view s \<Longrightarrow> psci_get_aff_info_state_by_idx c t = psci_get_aff_info_state_by_idx c s"
  by (simp add: psci_access view_def)

section \<open>Helpers that keep the view\<close>

lemma same_on_plat [simp]: "same s (on_plat f s)"
  by (simp add: same_def view_def on_plat_def)

lemma same_call_hook [simp]: "same s (call_hook h s)"
  by (simp add: call_hook_def split: option.splits)

lemma same_plat [simp]: "same s (s\<lparr>plat := p\<rparr>)"
  by (simp add: same_def view_def)

lemma same_call_hook_rc: "call_hook_rc rc h s = (rc', t) \<Longrightarrow> same s t"
  by (auto simp: call_hook_rc_def split: option.splits prod.splits)

lemma same_stat_start [simp]: "same s (stat_start pf si s)" "same s (stat_stop pf si s)"
  by (simp_all add: stat_start_def stat_stop_def)

lemma same_pwrdown_start [simp]: "same s (psci_pwrdown_cpu_start pf l s)"
  by (simp add: psci_pwrdown_cpu_start_def)

lemma same_last_cpu: "same s (s\<lparr>last_cpu_in_non_cpu_pd := x\<rparr>)"
  by (simp add: same_def view_def)

lemma same_stats_down_loop: "same s (stats_down_loop k l p c si s)"
proof (induction k arbitrary: l p s)
  case (Suc k)
  show ?case
    using same_trans[OF same_last_cpu Suc.IH] by simp
qed simp

lemma same_stat_down: "leaves (stat_down pf c e si s) t \<Longrightarrow> same s t"
  by (auto simp: stat_down_def psci_stats_update_pwr_down_def same_stats_down_loop split: if_splits)

lemma stat_down_not_wfi [simp]: "stat_down pf c e si s \<noteq> Wfi t"
  by (simp add: stat_down_def psci_stats_update_pwr_down_def)

lemma same_stats_up_loop: "leaves (stats_up_loop pf k l p si s) t \<Longrightarrow> same s t"
proof (induction k arbitrary: l p s)
  case (Suc k)
  have one: "same s (s\<lparr>last_cpu_in_non_cpu_pd := x, psci_non_cpu_stat := y\<rparr>)" for x y
    by (simp add: same_def view_def)
  show ?case
  proof (cases "is_local_state_run (pwr_domain_state si l) \<or> last_cpu_in_non_cpu_pd s p = - 1")
    case True
    then show ?thesis
      using Suc.prems by (auto simp: Let_def split: if_splits)
  next
    case False
    then show ?thesis
      using Suc.prems by (cases "get_stat_idx pf (pwr_domain_state si l) l")
        (simp_all add: Let_def, rule same_trans[OF one Suc.IH])
  qed
qed simp

lemma stats_up_loop_not_wfi: "stats_up_loop pf k l p si s \<noteq> Wfi t"
  by (induction k arbitrary: l p s) (auto simp: Let_def split: option.splits)

lemma same_stat_up:
  assumes "leaves (stat_up pf c e si s) t"
  shows "same s t"
proof -
  have one: "same s (s\<lparr>psci_cpu_stat := y\<rparr>)" for y
    by (simp add: same_def view_def)
  then show ?thesis
    using assms by (auto simp: stat_up_def psci_stats_update_pwr_up_def Let_def split: if_splits option.splits
        dest!: same_stats_up_loop intro: same_trans)
qed

lemma stat_up_not_wfi [simp]: "stat_up pf c e si s \<noteq> Wfi t"
  by (auto simp: stat_up_def psci_stats_update_pwr_up_def Let_def stats_up_loop_not_wfi split: option.splits)

lemma same_end_wakeup: "leaves (psci_pwrdown_cpu_end_wakeup pf l s) t \<Longrightarrow> same s t"
  by (auto simp: psci_pwrdown_cpu_end_wakeup_def prepare_cpu_pwr_up_def split: if_splits prod.splits)

lemma end_wakeup_not_wfi [simp]: "psci_pwrdown_cpu_end_wakeup pf l s \<noteq> Wfi t"
  by (auto simp: psci_pwrdown_cpu_end_wakeup_def prepare_cpu_pwr_up_def split: prod.splits)

lemma end_terminal_leaves: "leaves (psci_pwrdown_cpu_end_terminal pf s) t \<Longrightarrow> t = s"
  by (auto simp: psci_pwrdown_cpu_end_terminal_def split: if_splits)

lemma end_terminal_not_ret [simp]: "psci_pwrdown_cpu_end_terminal pf s \<noteq> Ret a t"
  by (simp add: psci_pwrdown_cpu_end_terminal_def)

section \<open>Locks keep the view\<close>

lemma view_log_lock [simp]: "view (log_lock e s) = view s"
  by (simp add: view_def log_lock_def)

lemma view_lock [simp]: "view (psci_lock_get n s) = view s" "view (psci_lock_release n s) = view s"
  "view (psci_spin_lock_cpu c s) = view s" "view (psci_spin_unlock_cpu c s) = view s"
  by (simp_all add: psci_lock_get_def psci_lock_release_def psci_spin_lock_cpu_def psci_spin_unlock_cpu_def)

lemma view_acquire_loop: "view (acquire_loop k l ns s) = view s"
  by (induction k arbitrary: l s) simp_all

lemma view_acquire [simp]: "view (psci_acquire_pwr_domain_locks k ns s) = view s"
  by (simp add: psci_acquire_pwr_domain_locks_def view_acquire_loop)

lemma view_release [simp]: "view (psci_release_pwr_domain_locks k ns s) = view s"
  by (induction k arbitrary: s) simp_all

lemma same_view: "same s t \<Longrightarrow> view t = view s"
  and same_log: "same s t \<Longrightarrow> lock_log t = lock_log s"
  and same_shape: "same s t \<Longrightarrow> shape t = shape s"
  unfolding same_def by (simp, simp, blast intro: view_shape)

lemmas same_helpers =
  same_on_plat same_call_hook same_plat same_stat_start same_pwrdown_start

lemmas same_helpers_eq [simp] =
  same_helpers [THEN same_view] same_helpers [THEN same_log] same_helpers [THEN same_shape]

end
