(* ===== verification/Psci_Locks.thy ===== *)
theory Psci_Locks
  imports Psci_Frame
begin

text \<open>
  The locking discipline of PSCI: every call takes the locks of the domains it works on from the
  bottom level to the top, the spin lock of a CPU node last, releases them in the reverse order, and
  holds none when it returns or when the core goes to sleep.
\<close>

section \<open>Traces of lock operations\<close>

datatype lock_id = Domain_Lock nat | Cpu_Lock nat

text \<open>
  The order of the locks: the locks of the domains by level, the locks of the CPU nodes above them.
\<close>

fun lock_before :: "(nat \<Rightarrow> nat) \<Rightarrow> lock_id \<Rightarrow> lock_id \<Rightarrow> bool" where
  "lock_before lvl (Domain_Lock m) (Domain_Lock n) \<longleftrightarrow> lvl m < lvl n"
| "lock_before lvl (Domain_Lock m) (Cpu_Lock c) \<longleftrightarrow> True"
| "lock_before lvl (Cpu_Lock c) x \<longleftrightarrow> False"

text \<open>
  Run a trace on the stack of locks held: taking a lock that is not above all the locks held, and
  releasing a lock that is not the last one taken, are violations.
\<close>

fun lock_run :: "(nat \<Rightarrow> nat) \<Rightarrow> lock_id list \<Rightarrow> lock_event list \<Rightarrow> lock_id list option" where
  "lock_run lvl held [] = Some held"
| "lock_run lvl held (Lock_Get n # es) =
     (if \<forall>h\<in>set held. lock_before lvl h (Domain_Lock n) then lock_run lvl (Domain_Lock n # held) es else None)"
| "lock_run lvl held (Spin_Lock_Cpu c # es) =
     (if \<forall>h\<in>set held. lock_before lvl h (Cpu_Lock c) then lock_run lvl (Cpu_Lock c # held) es else None)"
| "lock_run lvl held (Lock_Release n # es) =
     (case held of h # hs \<Rightarrow> if h = Domain_Lock n then lock_run lvl hs es else None | [] \<Rightarrow> None)"
| "lock_run lvl held (Spin_Unlock_Cpu c # es) =
     (case held of h # hs \<Rightarrow> if h = Cpu_Lock c then lock_run lvl hs es else None | [] \<Rightarrow> None)"

lemma lock_run_append:
  "lock_run lvl held (xs @ ys) = (case lock_run lvl held xs of None \<Rightarrow> None | Some h \<Rightarrow> lock_run lvl h ys)"
  by (induction lvl held xs rule: lock_run.induct) (auto split: list.splits)

text \<open>From \<open>s\<close> to \<open>t\<close> a core took and released locks as it should, and holds none it did not hold.\<close>

definition locks_ok :: "'p psci_state \<Rightarrow> 'p psci_state \<Rightarrow> bool" where
  "locks_ok s t \<longleftrightarrow> (\<exists>es. lock_log t = lock_log s @ es \<and>
     lock_run (\<lambda>n. node_level (psci_non_cpu_pd_nodes s n)) [] es = Some [])"

lemma locks_ok_refl: "lock_log t = lock_log s \<Longrightarrow> locks_ok s t"
  by (simp add: locks_ok_def)

lemma locks_ok_trans:
  assumes "locks_ok s t" and "locks_ok t u" and sh: "shape t = shape s"
  shows "locks_ok s u"
proof -
  have "(\<lambda>n. node_level (psci_non_cpu_pd_nodes t n)) = (\<lambda>n. node_level (psci_non_cpu_pd_nodes s n))"
    using shape_eqD(8)[OF sh] by simp
  then show ?thesis
    using assms(1,2) by (auto simp: locks_ok_def lock_run_append)
qed

section \<open>Sections under the locks of a core's domains\<close>

definition gets :: "'p psci_state \<Rightarrow> nat \<Rightarrow> nat \<Rightarrow> lock_event list" where
  "gets s c k = map (\<lambda>l. Lock_Get (ancestor s c l)) [1..<Suc k]"

definition releases :: "'p psci_state \<Rightarrow> nat \<Rightarrow> nat \<Rightarrow> lock_event list" where
  "releases s c k = map (\<lambda>l. Lock_Release (ancestor s c l)) (rev [1..<Suc k])"

definition domain_locks :: "'p psci_state \<Rightarrow> nat \<Rightarrow> nat \<Rightarrow> lock_id list" where
  "domain_locks s c k = map (\<lambda>l. Domain_Lock (ancestor s c l)) (rev [1..<Suc k])"

lemma domain_locks_Suc: "domain_locks s c (Suc k) = Domain_Lock (ancestor s c (Suc k)) # domain_locks s c k"
  and gets_Suc: "gets s c (Suc k) = gets s c k @ [Lock_Get (ancestor s c (Suc k))]"
  and releases_Suc: "releases s c (Suc k) = Lock_Release (ancestor s c (Suc k)) # releases s c k"
  by (simp_all add: domain_locks_def gets_def releases_def)

lemma lock_run_gets:
  assumes "topology_ok pf s" and "c < psci_plat_core_count s" and "k \<le> PLAT_MAX_PWR_LVL pf"
  shows "lock_run (\<lambda>n. node_level (psci_non_cpu_pd_nodes s n)) [] (gets s c k) = Some (domain_locks s c k)"
  using assms(3)
proof (induction k)
  case 0
  show ?case
    by (simp add: gets_def domain_locks_def)
next
  case (Suc k)
  have "lock_before (\<lambda>n. node_level (psci_non_cpu_pd_nodes s n)) h (Domain_Lock (ancestor s c (Suc k)))"
    if "h \<in> set (domain_locks s c k)" for h
    using that Suc.prems topology_okD(1)[OF assms(1,2)] by (auto simp: domain_locks_def)
  then show ?case
    using Suc by (simp add: gets_Suc domain_locks_Suc lock_run_append)
qed

lemma lock_run_releases: "lock_run lvl (domain_locks s c k @ held) (releases s c k) = Some held"
proof (induction k)
  case (Suc k)
  then show ?case
    by (simp add: releases_Suc domain_locks_Suc)
qed (simp add: releases_def domain_locks_def)

lemma acquire_loop_log:
  assumes "\<And>i. i < k \<Longrightarrow> lock_index (psci_non_cpu_pd_nodes s (ns ! (l - 1 + i))) = ns ! (l - 1 + i)" and "1 \<le> l"
  shows "lock_log (acquire_loop k l ns s) = lock_log s @ map (\<lambda>i. Lock_Get (ns ! (l - 1 + i))) [0..<k]"
  using assms
proof (induction k arbitrary: l s)
  case (Suc k)
  let ?t = "psci_lock_get (ns ! (l - 1)) s"
  have nodes: "psci_non_cpu_pd_nodes ?t = psci_non_cpu_pd_nodes s"
    by (simp add: psci_access)
  have "lock_log (acquire_loop k (l + 1) ns ?t) = lock_log ?t @ map (\<lambda>i. Lock_Get (ns ! (l + 1 - 1 + i))) [0..<k]"
  proof (rule Suc.IH)
    show "lock_index (psci_non_cpu_pd_nodes ?t (ns ! (l + 1 - 1 + i))) = ns ! (l + 1 - 1 + i)" if "i < k" for i
      using Suc.prems(1)[of "Suc i"] Suc.prems(2) that nodes by simp
  qed simp
  moreover have "lock_log ?t = lock_log s @ [Lock_Get (ns ! (l - 1))]"
    using Suc.prems(1)[of 0] by (simp add: psci_access)
  moreover have "[0..<Suc k] = 0 # map Suc [0..<k]"
    by (simp add: map_Suc_upt upt_conv_Cons)
  ultimately show ?case
    using Suc.prems(2) by simp
qed simp

lemma acquire_log:
  assumes "topology_ok pf s" and "c < psci_plat_core_count s" and "k \<le> PLAT_MAX_PWR_LVL pf" and sh: "shape t = shape s"
  shows "lock_log (psci_acquire_pwr_domain_locks k (psci_get_parent_pwr_domain_nodes c k s) t) = lock_log t @ gets s c k"
proof -
  have "lock_log (acquire_loop k 1 (psci_get_parent_pwr_domain_nodes c k s) t) =
      lock_log t @ map (\<lambda>i. Lock_Get (psci_get_parent_pwr_domain_nodes c k s ! (1 - 1 + i))) [0..<k]"
    by (rule acquire_loop_log) (use topology_okD(2)[OF assms(1,2)] assms(3) shape_eqD(9)[OF sh] in \<open>simp_all add: parent_nodes_eq\<close>)
  also have "map (\<lambda>i. Lock_Get (psci_get_parent_pwr_domain_nodes c k s ! (1 - 1 + i))) [0..<k] = gets s c k"
    unfolding gets_def by (rule nth_equalityI) (simp_all add: parent_nodes_eq del: upt_Suc)
  finally show ?thesis
    by (simp add: psci_acquire_pwr_domain_locks_def)
qed

lemma release_log:
  assumes "\<And>i. i < k \<Longrightarrow> ns ! i = ancestor s c (Suc i)"
    and "\<And>i. i < k \<Longrightarrow> lock_index (psci_non_cpu_pd_nodes t (ns ! i)) = ns ! i"
  shows "lock_log (psci_release_pwr_domain_locks k ns t) = lock_log t @ releases s c k"
  using assms
proof (induction k arbitrary: t)
  case (Suc k)
  let ?t = "psci_lock_release (ns ! k) t"
  have "lock_log (psci_release_pwr_domain_locks k ns ?t) = lock_log ?t @ releases s c k"
    by (rule Suc.IH) (use Suc.prems in \<open>simp_all add: psci_access\<close>)
  then show ?case
    using Suc.prems(1)[of k] Suc.prems(2)[of k] by (simp add: releases_Suc) (simp add: psci_access)
qed (simp add: releases_def)

text \<open>
  A section of code between the acquisition of the locks of a core's domains and their release. What is
  done in between may take and release the lock of the core itself.
\<close>

definition cpu_lock_cycle :: "lock_event list \<Rightarrow> bool" where
  "cpu_lock_cycle es \<longleftrightarrow> es = [] \<or> (\<exists>c. es = [Spin_Lock_Cpu c, Spin_Unlock_Cpu c])"

lemma locks_ok_section:
  assumes top: "topology_ok pf s" and c: "c < psci_plat_core_count s" and k: "k \<le> PLAT_MAX_PWR_LVL pf"
    and ns: "ns = psci_get_parent_pwr_domain_nodes c k s"
    and sh: "shape t = shape s"
    and log: "lock_log t = lock_log (psci_acquire_pwr_domain_locks k ns s) @ es" and es: "cpu_lock_cycle es"
  shows "locks_ok s (psci_release_pwr_domain_locks k ns t)"
proof -
  have "lock_log (psci_release_pwr_domain_locks k ns t) = lock_log t @ releases s c k"
    by (rule release_log) (use topology_okD(2)[OF top c] k shape_eqD(9)[OF sh] in \<open>simp_all add: ns parent_nodes_eq\<close>)
  also have "lock_log t = lock_log s @ gets s c k @ es"
    using log acquire_log[OF top c k refl] by (simp add: ns)
  finally have log: "lock_log (psci_release_pwr_domain_locks k ns t) = lock_log s @ gets s c k @ es @ releases s c k"
    by simp
  have "lock_run lvl (domain_locks s c k) es = Some (domain_locks s c k)" for lvl
    using es by (auto simp: cpu_lock_cycle_def domain_locks_def)
  then have "lock_run (\<lambda>n. node_level (psci_non_cpu_pd_nodes s n)) [] (gets s c k @ es @ releases s c k) = Some []"
    using lock_run_gets[OF top c k] lock_run_releases[of _ s c k "[]"] by (simp add: lock_run_append)
  then show ?thesis
    using log by (auto simp: locks_ok_def)
qed

section \<open>Operations that touch neither the tree nor the locks\<close>

lemma shape_cpu_data [simp]:
  "shape (psci_set_aff_info_state_by_idx c a s) = shape s" "shape (psci_set_suspend_pwrlvl c l s) = shape s"
  "shape (psci_set_cpu_local_state c st s) = shape s" "shape (s\<lparr>psci_req_local_pwr_states := R\<rparr>) = shape s"
  "shape (s\<lparr>warmboot_ep_info := E\<rparr>) = shape s" "shape (s\<lparr>stack := S\<rparr>) = shape s" "shape (s\<lparr>ns_context := C\<rparr>) = shape s"
  "shape (s\<lparr>psci_suspend_mode := m\<rparr>) = shape s" "shape (s\<lparr>lock_log := L\<rparr>) = shape s"
  by (simp_all add: shape_def psci_access fun_eq_iff)

lemma log_cpu_data [simp]:
  "lock_log (psci_set_aff_info_state_by_idx c a s) = lock_log s" "lock_log (psci_set_suspend_pwrlvl c l s) = lock_log s"
  "lock_log (psci_set_cpu_local_state c st s) = lock_log s" "lock_log (set_non_cpu_pd_node_local_state n st s) = lock_log s"
  "lock_log (psci_set_req_local_pwr_state pf l c st s) = lock_log s"
  by (simp_all add: psci_access psci_set_req_local_pwr_state_def)

lemma shape_locks [simp]:
  "shape (psci_acquire_pwr_domain_locks k ns s) = shape s" "shape (psci_release_pwr_domain_locks k ns s) = shape s"
  "shape (psci_spin_lock_cpu c s) = shape s" "shape (psci_spin_unlock_cpu c s) = shape s"
  by (rule view_shape; simp)+

lemma log_set_target_loop [simp]: "lock_log (set_target_loop k l p pd s) = lock_log s"
  by (induction k arbitrary: l p s) (simp_all add: Let_def)

lemma log_set_target [simp]: "lock_log (psci_set_target_local_pwr_states c k si s) = lock_log s"
  by (simp add: psci_set_target_local_pwr_states_def Let_def)

lemma log_set_to_run_loop [simp]: "lock_log (set_to_run_loop pf k l p c s) = lock_log s"
  by (induction k arbitrary: l p s) (simp_all add: Let_def)

lemma log_set_to_run [simp]: "lock_log (psci_set_pwr_domains_to_run pf c k s) = lock_log s"
  by (simp add: psci_set_pwr_domains_to_run_def Let_def)

definition calm :: "'p psci_state \<Rightarrow> 'p psci_state \<Rightarrow> bool" where
  "calm s t \<longleftrightarrow> shape t = shape s \<and> lock_log t = lock_log s"

lemma calm_trans: "calm s t \<Longrightarrow> calm t u \<Longrightarrow> calm s u"
  by (simp add: calm_def)

lemma same_calm: "same s t \<Longrightarrow> calm s t"
  by (simp add: same_log same_shape calm_def)

lemma calm_coordinate_loop: "coordinate_loop pf k l p c si s = Ret r t \<Longrightarrow> calm s t"
proof (induction k arbitrary: l p si s)
  case (Suc k)
  let ?s = "psci_set_req_local_pwr_state pf l c (pwr_domain_state si l) s"
  have "?s = t \<or> (\<exists>l' p' si'. coordinate_loop pf k l' p' c si' ?s = Ret r t)"
    using Suc.prems by (auto simp: Let_def split: option.splits if_splits)
  then have "calm ?s t"
    using Suc.IH by (auto simp: calm_def)
  then show ?case
    by (simp add: calm_def)
qed (simp add: calm_def)

lemma coordinate_loop_not_wfi: "coordinate_loop pf k l p c si s \<noteq> Wfi t"
  by (induction k arbitrary: l p si s) (auto simp: Let_def split: option.splits)

lemma calm_coordinate_rest: "coordinate_rest pf k l c si s = (r, t) \<Longrightarrow> calm s t"
  by (induction k arbitrary: l si s) (auto simp: calm_def)

lemma coordination_not_wfi [simp]: "psci_do_state_coordination pf c k si s \<noteq> Wfi t"
  by (auto simp: psci_do_state_coordination_def obind_Wfi_eq coordinate_loop_not_wfi split: prod.splits)

lemma calm_coordination:
  assumes "psci_do_state_coordination pf c k si s = Ret r t"
  shows "calm s t"
proof -
  obtain m si1 s1 where loop: "coordinate_loop pf k 1 (cpu_parent_node (psci_cpu_pd_nodes s c)) c si s = Ret (m, si1) s1"
    and rest: "coordinate_rest pf (k - m) (m + 1) c si1 s1 = (r, t)"
    using assms by (auto simp: psci_do_state_coordination_def obind_Ret_eq case_prod_beta split: if_splits)
  show ?thesis
    by (rule calm_trans[OF calm_coordinate_loop[OF loop] calm_coordinate_rest[OF rest]])
qed

lemma calm_update_req_loop: "update_req_loop pf k l e c si prev s = Ret r t \<Longrightarrow> calm s t"
proof (induction k arbitrary: l prev s)
  case (Suc k)
  then have "\<exists>x prev'. update_req_loop pf k (l + 1) e c si prev' (psci_set_req_local_pwr_state pf l c x s) = Ret r t"
    by (auto simp: Let_def split: option.splits if_splits)
  then show ?case
    using Suc.IH by (force simp: calm_def)
qed (simp add: calm_def)

lemma update_req_loop_not_wfi: "update_req_loop pf k l e c si prev s \<noteq> Wfi t"
  by (induction k arbitrary: l prev s) (auto simp: Let_def split: option.splits)

lemma calm_restore_req_loop: "calm s (restore_req_loop pf k l c prev s)"
  by (induction k arbitrary: l s) (auto simp: calm_def)

lemma calm_validate_coordination:
  assumes "psci_validate_state_coordination pf c k si s = Ret r t"
  shows "calm s t"
proof -
  obtain prev s1 where u: "update_req_loop pf (max_cpu_suspend_pwrlvl pf) 1 k c si (\<lambda>_. 0) s = Ret prev s1"
    and t: "t = s1 \<or> t = restore_req_loop pf (max_cpu_suspend_pwrlvl pf) 1 c prev s1"
    using assms by (auto simp: psci_validate_state_coordination_def obind_Ret_eq Let_def psci_update_req_local_pwr_states_def
        psci_restore_req_local_pwr_states_def split: if_splits option.splits)
  show ?thesis
    using t calm_trans[OF calm_update_req_loop[OF u]] calm_restore_req_loop calm_update_req_loop[OF u] by blast
qed

lemma validate_coordination_not_wfi [simp]: "psci_validate_state_coordination pf c k si s \<noteq> Wfi t"
  by (auto simp: psci_validate_state_coordination_def obind_Wfi_eq Let_def psci_update_req_local_pwr_states_def
      update_req_loop_not_wfi split: option.splits if_splits)

lemma calm_suspend_coordinate: "suspend_coordinate pf c k si s = Ret r t \<Longrightarrow> calm s t"
  by (auto simp: suspend_coordinate_def obind_Ret_eq split: if_splits dest: calm_coordination calm_validate_coordination)

lemma suspend_coordinate_not_wfi [simp]: "suspend_coordinate pf c k si s \<noteq> Wfi t"
  by (simp add: suspend_coordinate_def obind_Wfi_eq)

lemma calm_pwrdown_start: "calm s (psci_suspend_to_pwrdown_start pf c k m si s)"
  by (simp add: psci_suspend_to_pwrdown_start_def Let_def calm_def)

lemma calm_powerdown_finish: "leaves (psci_cpu_suspend_to_powerdown_finish pf c m si a s) t \<Longrightarrow> calm s t"
  by (auto simp: psci_cpu_suspend_to_powerdown_finish_def Let_def calm_def split: if_splits option.splits)

lemma calm_standby_finish: "leaves (psci_cpu_suspend_to_standby_finish pf c si s) t \<Longrightarrow> calm s t"
  by (auto simp: psci_cpu_suspend_to_standby_finish_def calm_def split: option.splits)

section \<open>Every call keeps the discipline\<close>

definition tidy :: "'p psci_state \<Rightarrow> 'p psci_state \<Rightarrow> bool" where
  "tidy s t \<longleftrightarrow> shape t = shape s \<and> locks_ok s t"

lemma tidy_trans: "tidy s t \<Longrightarrow> tidy t u \<Longrightarrow> tidy s u"
  by (auto simp: tidy_def intro: locks_ok_trans)

lemma calm_tidy: "calm s t \<Longrightarrow> tidy s t"
  by (simp add: calm_def tidy_def locks_ok_refl)

lemma same_tidy: "same s t \<Longrightarrow> tidy s t"
  by (intro calm_tidy same_calm)

lemma tidy_refl [simp]: "tidy s s"
  by (simp add: calm_tidy calm_def)

lemma tidy_section:
  assumes "topology_ok pf s" and "c < psci_plat_core_count s" and "k \<le> PLAT_MAX_PWR_LVL pf"
    and "ns = psci_get_parent_pwr_domain_nodes c k s"
    and "shape t = shape s" and "lock_log t = lock_log (psci_acquire_pwr_domain_locks k ns s)"
  shows "tidy s (psci_release_pwr_domain_locks k ns t)"
  using locks_ok_section[OF assms(1-5), of "[]"] assms(5,6) by (simp add: tidy_def cpu_lock_cycle_def)

lemma tidy_cpu_lock: "lock_log t = lock_log s @ [Spin_Lock_Cpu c, Spin_Unlock_Cpu c] \<Longrightarrow> shape t = shape s \<Longrightarrow> tidy s t"
  by (simp add: tidy_def locks_ok_def)

lemma log_spin [simp]:
  "lock_log (psci_spin_lock_cpu c s) = lock_log s @ [Spin_Lock_Cpu c]"
  "lock_log (psci_spin_unlock_cpu c s) = lock_log s @ [Spin_Unlock_Cpu c]"
  by (simp_all add: psci_spin_lock_cpu_def psci_spin_unlock_cpu_def log_lock_def)

lemma tidy_cpu_on_start:
  assumes "leaves (psci_cpu_on_start pf d m ep s) t"
  shows "tidy s t"
proof -
  have "t = s \<or> (lock_log t = lock_log s @ [Spin_Lock_Cpu d, Spin_Unlock_Cpu d] \<and> shape t = shape s)"
    using assms by (auto simp: psci_cpu_on_start_def Let_def leaves_obind split: if_splits option.splits prod.splits)
  then show ?thesis
    by (auto intro: tidy_cpu_lock)
qed

lemma calm_section_end:
  assumes "calm (psci_acquire_pwr_domain_locks k ns s) t" and "topology_ok pf s" and "c < psci_plat_core_count s"
    and "k \<le> PLAT_MAX_PWR_LVL pf" and "ns = psci_get_parent_pwr_domain_nodes c k s"
  shows "tidy s (psci_release_pwr_domain_locks k ns t)"
  by (rule tidy_section[OF assms(2-5)]) (use assms(1) in \<open>simp_all add: calm_def\<close>)


end
