(* ===== verification/Psci_Effects.thy ===== *)
theory Psci_Effects
  imports Psci_Locks
begin

text \<open>
  The effect of each PSCI call on the power-management state. The fields that the protocol
  reads (the view of \<open>Psci_Frame\<close>) change in a few ways only: a call leaves them alone, a
  target is made pending, the caller goes off, or the caller suspends up to a level. This
  theory derives those transitions from the handlers and, next to them, that the lock trace of
  every call is well formed. \<open>Psci_System\<close> composes them into runs of the whole system.
\<close>

section \<open>Powering a core down\<close>

text \<open>
  The calls that end in a power-down change the view of the calling core only; what they do
  to it is stated as case rules over their outcome.
\<close>

lemma view_cong:
  assumes "view a = view b"
  shows "view (psci_set_aff_info_state_by_idx c x a) = view (psci_set_aff_info_state_by_idx c x b)"
    and "view (psci_set_suspend_pwrlvl c l a) = view (psci_set_suspend_pwrlvl c l b)"
    and "view (psci_set_cpu_local_state c st a) = view (psci_set_cpu_local_state c st b)"
    and "view (a\<lparr>stack := (stack a)(c := f)\<rparr>) = view (b\<lparr>stack := (stack b)(c := f)\<rparr>)"
    and "view (a\<lparr>warmboot_ep_info := (warmboot_ep_info a)(c := ep)\<rparr>) = view (b\<lparr>warmboot_ep_info := (warmboot_ep_info b)(c := ep)\<rparr>)"
    and "view (a\<lparr>ns_context := (ns_context a)(c := x')\<rparr>) = view (b\<lparr>ns_context := (ns_context b)(c := x')\<rparr>)"
  using assms by (simp_all add: view_def psci_access)

lemma same_hooks: "same s (stat_start pf si (on_plat f (psci_pwrdown_cpu_start pf m s)))"
  by (intro same_trans[OF same_pwrdown_start same_trans[OF same_on_plat same_stat_start(1)]])

lemma cpu_off_cases:
  assumes top: "topology_ok pf s" and c: "me < psci_plat_core_count s"
    and run: "leaves (psci_cpu_off pf me s) t"
  obtains (idle) "view t = view s" "tidy s t"
    | (down) si' s2 s3 where "view s2 = view s"
      "psci_do_state_coordination pf me (PLAT_MAX_PWR_LVL pf) (psci_set_power_off_state pf (uninit_state pf)) s2 = Ret si' s3"
      "view t = view (psci_set_aff_info_state_by_idx me AFF_STATE_OFF (psci_set_target_local_pwr_states me (PLAT_MAX_PWR_LVL pf) si' s3))"
      "tidy s t"
proof -
  define k where "k = PLAT_MAX_PWR_LVL pf"
  define si where "si = psci_set_power_off_state pf (uninit_state pf)"
  obtain rc0 s0 where h0: "call_hook_rc 0 (map_option (\<lambda>f. f si) (pwr_domain_off_early (psci_plat_pm_ops pf))) s = (rc0, s0)"
    by (rule prod.exhaust)
  define ns where "ns = psci_get_parent_pwr_domain_nodes me k s0"
  define s1 where "s1 = psci_acquire_pwr_domain_locks k ns s0"
  obtain rc s2 where h1: "call_hook_rc rc0 (map_option (\<lambda>f. f 0) (spd_hook svc_off s1)) s1 = (rc, s2)"
    by (rule prod.exhaust)
  have same0: "same s s0" and same2: "same s1 s2"
    using h0 h1 by (auto intro: same_call_hook_rc)
  have top0: "topology_ok pf s0" "me < psci_plat_core_count s0"
    using top c topology_ok_shape[OF same_shape[OF same0]] shape_eqD(1)[OF same_shape[OF same0]] by simp_all
  note sect = calm_section_end[OF _ top0 order_refl, folded k_def, OF _ ns_def, folded s1_def]
  consider (early) "t = s0" | (denied) "t = psci_release_pwr_domain_locks k ns s2"
    | (off) si' s3 s5 u h where "psci_do_state_coordination pf me k si s2 = Ret si' s3"
      "stat_down pf me k si' (psci_set_target_local_pwr_states me k si' s3) = Ret () s5" "same s5 u"
      "t = call_hook h (psci_set_aff_info_state_by_idx me AFF_STATE_OFF (psci_release_pwr_domain_locks k ns u))"
  proof (cases "pwr_domain_off (psci_plat_pm_ops pf)")
    case None
    then show ?thesis
      using run by (simp add: psci_cpu_off_def psci_do_cpu_off_def)
  next
    case (Some off)
    have hn: "spd_hook svc_off s1 = None \<Longrightarrow> rc = rc0"
      using h1 by (simp add: call_hook_rc_def)
    have "t = s0 \<or> t = psci_release_pwr_domain_locks k ns s2 \<or> (\<exists>si' s3 s5 h.
        psci_do_state_coordination pf me k si s2 = Ret si' s3 \<and>
        stat_down pf me k si' (psci_set_target_local_pwr_states me k si' s3) = Ret () s5 \<and>
        t = call_hook h (psci_set_aff_info_state_by_idx me AFF_STATE_OFF (psci_release_pwr_domain_locks k ns
             (stat_start pf si' (on_plat (off si') (psci_pwrdown_cpu_start pf (psci_find_max_off_lvl pf si') s5))))))"
      using run Some hn
      by (simp add: psci_cpu_off_def psci_do_cpu_off_def Let_def si_def[symmetric] k_def[symmetric] h0 h1 ns_def[symmetric] s1_def[symmetric]
          leaves_obind obind_Ret_eq obind_Wfi_eq psci_pwrdown_cpu_end_terminal_def split: if_splits) blast+
    then show ?thesis
      using that same_hooks by blast
  qed
  then show ?thesis
  proof cases
    case early
    then show ?thesis
      using idle same_view[OF same0] same_tidy[OF same0] by simp
  next
    case denied
    have "view t = view s"
      using denied same_view[OF same2] same_view[OF same0] by (simp add: s1_def)
    moreover have "tidy s t"
      using tidy_trans[OF same_tidy[OF same0] sect[OF same_calm[OF same2]]] denied by simp
    ultimately show ?thesis
      by (rule idle)
  next
    case off
    have s5: "same (psci_set_target_local_pwr_states me k si' s3) s5"
      using same_stat_down[of pf me k si' "psci_set_target_local_pwr_states me k si' s3" s5] off(2) by simp
    have s2: "view s2 = view s"
      using same_view[OF same2] same_view[OF same0] by (simp add: s1_def)
    have t: "view t = view (psci_set_aff_info_state_by_idx me AFF_STATE_OFF (psci_set_target_local_pwr_states me k si' s3))"
      unfolding off(4) same_helpers_eq by (rule view_cong) (simp add: same_view[OF off(3)] same_view[OF s5])
    have "calm s1 u"
      using calm_trans[OF same_calm[OF same2] calm_trans[OF calm_coordination[OF off(1)]]] same_calm[OF same_trans[OF s5 off(3)]]
      by (auto simp: calm_def)
    then have "tidy s0 t"
      using sect[of u] unfolding off(4) by (simp add: tidy_def locks_ok_def)
    then have "tidy s t"
      by (rule tidy_trans[OF same_tidy[OF same0]])
    then show ?thesis
      using down[OF s2] off(1) t unfolding k_def si_def by blast
  qed
qed

section \<open>Starting a suspend\<close>

lemma view_set_to_run_loop_cong:
  "view a = view b \<Longrightarrow> view (set_to_run_loop pf k l p c a) = view (set_to_run_loop pf k l p c b)"
proof (induction k arbitrary: l p a b)
  case (Suc k)
  let ?f = "\<lambda>s. psci_set_req_local_pwr_state pf l c 0 (set_non_cpu_pd_node_local_state p 0 s)"
  have v: "view (?f a) = view (?f b)"
    using Suc.prems by (simp add: view_def psci_set_req_local_pwr_state_def psci_access)
  show ?case
    unfolding set_to_run_loop.simps Let_def view_eqD(2)[OF v] by (rule Suc.IH[OF v])
qed simp

lemma view_set_to_run_cong:
  assumes "view a = view b"
  shows "view (psci_set_pwr_domains_to_run pf c k a) = view (psci_set_pwr_domains_to_run pf c k b)"
  unfolding psci_set_pwr_domains_to_run_def Let_def view_eqD(3)[OF assms]
  by (intro view_cong view_set_to_run_loop_cong assms)

abbreviation put_frame :: "nat \<Rightarrow> wfi_frame option \<Rightarrow> 'p psci_state \<Rightarrow> 'p psci_state" where
  "put_frame c f s \<equiv> s\<lparr>stack := (stack s)(c := f)\<rparr>"

lemma view_pwrdown_start:
  "\<not> PSCI_OS_INIT_MODE pf \<Longrightarrow> view (psci_suspend_to_pwrdown_start pf c k m si s) = view (psci_set_suspend_pwrlvl c k s)"
  by (simp add: psci_suspend_to_pwrdown_start_def Let_def)

lemma suspend_start_cases:
  assumes top: "topology_ok pf s" and c: "c < psci_plat_core_count s" and k: "k \<le> PLAT_MAX_PWR_LVL pf"
    and run: "leaves (psci_cpu_suspend_start pf c k si pd s) t"
  obtains (idle) "view t = view s" "tidy s t"
    | (os_init) "PSCI_OS_INIT_MODE pf" "tidy s t"
    | (asleep) si' s2 s3 mo where "view s2 = view s" "psci_do_state_coordination pf c k si s2 = Ret si' s3"
      "view t = view (put_frame c (Some (Suspended k (psci_get_parent_pwr_domain_nodes c k s) si' pd mo))
         ((if pd then psci_set_suspend_pwrlvl c k else id) (psci_set_target_local_pwr_states c k si' s3)))"
      "tidy s t"
proof -
  define ns where "ns = psci_get_parent_pwr_domain_nodes c k s"
  define s1 where "s1 = psci_acquire_pwr_domain_locks k ns s"
  note sect = calm_section_end[OF _ top c k ns_def, folded s1_def]
  obtain hook fin where hooks: "pwr_domain_suspend (psci_plat_pm_ops pf) = Some hook" "pwr_domain_suspend_finish (psci_plat_pm_ops pf) = Some fin"
    using run by (auto simp: psci_cpu_suspend_start_def split: option.splits)
  have s1: "view s1 = view s" "shape s1 = shape s"
    by (simp_all add: s1_def)
  show ?thesis
  proof (cases "read_isr_el1 pf (plat s1) = 0")
    case False
    then have "t = psci_release_pwr_domain_locks k ns s1"
      using run hooks by (simp add: psci_cpu_suspend_start_def Let_def ns_def[symmetric] s1_def[symmetric])
    then show ?thesis
      using idle sect[of s1] s1 by (simp add: calm_def)
  next
    case True
    obtain rc si' s2 where coord: "suspend_coordinate pf c k si s1 = Ret (rc, si') s2"
      using run hooks True
      by (auto simp: psci_cpu_suspend_start_def Let_def ns_def[symmetric] s1_def[symmetric] leaves_obind)
    obtain rc' s3 where h: "call_hook_rc 0 (if PSCI_OS_INIT_MODE pf
           then map_option (\<lambda>f. f si') (pwr_domain_validate_suspend (psci_plat_pm_ops pf)) else None) s2 = (rc', s3)"
      by (rule prod.exhaust)
    have s3: "same s2 s3" and calm13: "calm s1 s3"
      using same_call_hook_rc[OF h] calm_trans[OF calm_suspend_coordinate[OF coord]] same_calm by blast+
    define mo where "mo = (if pd then psci_find_max_off_lvl pf si' else 0)"
    let ?u = "\<lambda>s5. if pd then psci_suspend_to_pwrdown_start pf c k mo si' s5 else s5"
    have plain: "rc = 0 \<and> rc' = 0" if "\<not> PSCI_OS_INIT_MODE pf"
      using that coord h by (auto simp: suspend_coordinate_def call_hook_rc_def obind_Ret_eq)
    have calm12: "calm s1 s2" and calm1r: "calm s1 (psci_set_pwr_domains_to_run pf c l s3)" for l
      using calm_suspend_coordinate[OF coord] calm13 by (simp_all add: calm_def)
    have body: "leaves (if rc \<noteq> 0 then Ret rc (psci_release_pwr_domain_locks k ns s2)
       else if rc' \<noteq> 0 then Ret rc' (psci_release_pwr_domain_locks k ns (psci_set_pwr_domains_to_run pf c (max_cpu_suspend_pwrlvl pf) s3))
       else obind (stat_down pf c k si' (psci_set_target_local_pwr_states c k si' s3)) (\<lambda>_ s5.
         let s9 = psci_release_pwr_domain_locks k ns (stat_start pf si' (on_plat (hook si') (?u s5)));
             s10 = (if pd then call_hook (map_option (\<lambda>f. f si') (pwr_domain_pwr_down (psci_plat_pm_ops pf))) s9 else s9)
         in Wfi (s10\<lparr>stack := (stack s10)(c := Some (Suspended k ns si' pd mo))\<rparr>))) t"
      using run hooks True coord h
      by (simp add: psci_cpu_suspend_start_def ns_def[symmetric] s1_def[symmetric] mo_def Let_def cong: if_cong)
    show ?thesis
    proof (cases "rc = 0 \<and> rc' = 0")
      case False
      then show ?thesis
        using body plain os_init sect[OF calm12] sect[OF calm1r[of "max_cpu_suspend_pwrlvl pf"]] by (auto split: if_splits)
    next
      case True
      then obtain s5 h where s5: "stat_down pf c k si' (psci_set_target_local_pwr_states c k si' s3) = Ret () s5"
        and t: "t = (let s9 = psci_release_pwr_domain_locks k ns (stat_start pf si' (on_plat (hook si') (?u s5)));
             s10 = (if pd then call_hook h s9 else s9)
         in s10\<lparr>stack := (stack s10)(c := Some (Suspended k ns si' pd mo))\<rparr>)"
        using body by (auto simp: leaves_obind Let_def)
      have same5: "same (psci_set_target_local_pwr_states c k si' s3) s5"
        using same_stat_down[of pf c k si' "psci_set_target_local_pwr_states c k si' s3" s5] s5 by simp
      define u where "u = stat_start pf si' (on_plat (hook si') (?u s5))"
      have "calm s1 u"
        using calm13 same_calm[OF same5] calm_pwrdown_start[of s5 pf c k mo si'] by (simp add: u_def calm_def)
      then have tidy: "tidy s t"
        using sect[of u] unfolding t u_def[symmetric] Let_def by (simp add: tidy_def locks_ok_def)
      show ?thesis
      proof (cases "PSCI_OS_INIT_MODE pf")
        case False
        have s3: "psci_do_state_coordination pf c k si s1 = Ret si' s3"
          using coord h False by (auto simp: suspend_coordinate_def call_hook_rc_def obind_Ret_eq)
        have "view (?u s5) = view ((if pd then psci_set_suspend_pwrlvl c k else id) (psci_set_target_local_pwr_states c k si' s3))"
          using same_view[OF same5] view_pwrdown_start[OF False] view_cong(2)[OF same_view[OF same5]] by simp
        then have "view t = view (put_frame c (Some (Suspended k ns si' pd mo))
           ((if pd then psci_set_suspend_pwrlvl c k else id) (psci_set_target_local_pwr_states c k si' s3)))"
          unfolding t Let_def by (intro view_cong(4)) (cases pd; simp)
        then show ?thesis
          using asleep[OF s1(1) s3] tidy by (simp add: ns_def)
      qed (use os_init tidy in blast)
    qed
  qed
qed

section \<open>Resuming, and the finishing handlers\<close>

lemma view_powerdown_finish:
  "leaves (psci_cpu_suspend_to_powerdown_finish pf c m si a s) t \<Longrightarrow>
     view t = view (psci_set_suspend_pwrlvl c (PLAT_MAX_PWR_LVL pf) s)"
  unfolding psci_cpu_suspend_to_powerdown_finish_def Let_def
  by (auto split: if_splits option.splits intro!: view_cong)

lemma view_standby_finish:
  "leaves (psci_cpu_suspend_to_standby_finish pf c si s) t \<Longrightarrow>
     view t = view (psci_set_suspend_pwrlvl c (PLAT_MAX_PWR_LVL pf) s)"
  unfolding psci_cpu_suspend_to_standby_finish_def by (auto split: option.splits intro!: view_cong)

lemma powerdown_finish_not_wfi [simp]: "psci_cpu_suspend_to_powerdown_finish pf c m si a s \<noteq> Wfi t"
  by (auto simp: psci_cpu_suspend_to_powerdown_finish_def Let_def split: option.splits)

lemma standby_finish_not_wfi [simp]: "psci_cpu_suspend_to_standby_finish pf c si s \<noteq> Wfi t"
  by (auto simp: psci_cpu_suspend_to_standby_finish_def split: option.splits)

lemma resume_effect:
  assumes top: "topology_ok pf s" and c: "c < psci_plat_core_count s" and k: "k \<le> PLAT_MAX_PWR_LVL pf"
    and ns: "ns = psci_get_parent_pwr_domain_nodes c k s"
    and run: "leaves (psci_cpu_suspend_resume pf c k ns si pd mo s) t"
  shows "view t = view (psci_set_pwr_domains_to_run pf c k (psci_set_suspend_pwrlvl c (PLAT_MAX_PWR_LVL pf) s)) \<and> tidy s t"
proof -
  obtain s0 where s0: "leaves (if pd then psci_pwrdown_cpu_end_wakeup pf mo s else Ret () s) s0"
    and run0: "leaves (let s1 = psci_acquire_pwr_domain_locks k ns s0;
         si = psci_get_target_local_pwr_states pf c k si s1;
         s2 = stat_stop pf si s1
     in obind (stat_up pf c k si s2) (\<lambda>_ s3.
        obind (if pd then psci_cpu_suspend_to_powerdown_finish pf c mo si True s3
               else psci_cpu_suspend_to_standby_finish pf c si s3) (\<lambda>_ s4.
        Ret PSCI_E_SUCCESS (psci_release_pwr_domain_locks k ns (psci_set_pwr_domains_to_run pf c k s4))))) t"
    using run by (auto simp: psci_cpu_suspend_resume_def leaves_obind split: if_splits)
  have same0: "same s s0"
    using s0 same_end_wakeup[of pf mo s s0] by (cases pd) simp_all
  define s1 where "s1 = psci_acquire_pwr_domain_locks k ns s0"
  define si' where "si' = psci_get_target_local_pwr_states pf c k si s1"
  define fin where "fin = (\<lambda>s3. if pd then psci_cpu_suspend_to_powerdown_finish pf c mo si' True s3
      else psci_cpu_suspend_to_standby_finish pf c si' s3)"
  have fin_eq: "fin s3 = (if pd then psci_cpu_suspend_to_powerdown_finish pf c mo si' True s3
      else psci_cpu_suspend_to_standby_finish pf c si' s3)" for s3
    by (simp add: fin_def)
  have fin_ret: "fin s3 \<noteq> Wfi u" for s3 u
    by (simp add: fin_def)
  obtain s3 s4 where r3: "stat_up pf c k si' (stat_stop pf si' s1) = Ret () s3" and r4: "fin s3 = Ret () s4"
    and t: "t = psci_release_pwr_domain_locks k ns (psci_set_pwr_domains_to_run pf c k s4)"
    using run0 unfolding s1_def[symmetric] Let_def si'_def[symmetric] fin_eq[symmetric]
    by (auto simp: leaves_obind obind_Wfi_eq fin_ret)
  have s3: "leaves (stat_up pf c k si' (stat_stop pf si' s1)) s3" and s4: "leaves (fin s3) s4"
    using r3 r4 by simp_all
  have same3: "same s1 s3"
    by (rule same_trans[OF same_stat_start(2) same_stat_up[OF s3]])
  have v4: "view s4 = view (psci_set_suspend_pwrlvl c (PLAT_MAX_PWR_LVL pf) s3)" and calm4: "calm s3 s4"
    using s4[unfolded fin_eq] view_powerdown_finish[of pf c mo si' True s3 s4] view_standby_finish[of pf c si' s3 s4]
      calm_powerdown_finish[of pf c mo si' True s3 s4] calm_standby_finish[of pf c si' s3 s4] by (cases pd; simp)+
  have v3: "view s3 = view s"
    using same_view[OF same3] same_view[OF same0] by (simp add: s1_def)
  have "view t = view (psci_set_pwr_domains_to_run pf c k (psci_set_suspend_pwrlvl c (PLAT_MAX_PWR_LVL pf) s))"
    unfolding t view_release by (rule view_set_to_run_cong) (use v4 view_cong(2)[OF v3] in simp)
  moreover have "tidy s0 t"
  proof -
    have sh: "shape s0 = shape s"
      by (rule same_shape[OF same0])
    have "calm s1 (psci_set_pwr_domains_to_run pf c k s4)"
      using calm_trans[OF same_calm[OF same3] calm4] by (simp add: calm_def)
    then show ?thesis
      unfolding t s1_def
    proof (rule calm_section_end)
      show "ns = psci_get_parent_pwr_domain_nodes c k s0"
        using ns ancestor_shape[OF sh] by (simp add: parent_nodes_eq)
    qed (use top c k topology_ok_shape[OF sh] shape_eqD(1)[OF sh] in simp_all)
  qed
  ultimately show ?thesis
    using tidy_trans[OF same_tidy[OF same0]] by blast
qed

lemma cpu_on_finish_effect:
  assumes "leaves (psci_cpu_on_finish pf c si s) t"
  shows "psci_get_aff_info_state_by_idx c s = AFF_STATE_ON_PENDING"
    and "view t = view (s\<lparr>psci_cpu_pd_nodes := (psci_cpu_pd_nodes s)(c := (psci_cpu_pd_nodes s c)
          \<lparr>cpu_mpidr := and (read_mpidr pf c) MPIDR_AFFINITY_MASK\<rparr>)\<rparr>)"
    and "lock_log t = lock_log s @ [Spin_Lock_Cpu c, Spin_Unlock_Cpu c]" and "shape t = shape s"
proof -
  obtain f where f: "pwr_domain_on_finish (psci_plat_pm_ops pf) = Some f"
    using assms by (auto simp: psci_cpu_on_finish_def split: option.splits)
  define s3 where "s3 = psci_spin_unlock_cpu c (psci_spin_lock_cpu c
     (call_hook (map_option (\<lambda>f. f si) (pwr_domain_on_finish_late (psci_plat_pm_ops pf))) (on_plat (f si) s)))"
  have v: "view s3 = view s" and log: "lock_log s3 = lock_log s @ [Spin_Lock_Cpu c, Spin_Unlock_Cpu c]"
    by (simp_all add: s3_def)
  obtain h where aff: "psci_get_aff_info_state_by_idx c s3 = AFF_STATE_ON_PENDING"
    and t: "t = (call_hook h s3)\<lparr>psci_cpu_pd_nodes := (psci_cpu_pd_nodes (call_hook h s3))(c :=
                      (psci_cpu_pd_nodes (call_hook h s3) c)\<lparr>cpu_mpidr := and (read_mpidr pf c) MPIDR_AFFINITY_MASK\<rparr>)\<rparr>"
    using assms f by (auto simp: psci_cpu_on_finish_def Let_def s3_def)
  have vh: "view (call_hook h s3) = view s"
    using v by simp
  show "psci_get_aff_info_state_by_idx c s = AFF_STATE_ON_PENDING"
    using aff aff_view[OF v] by simp
  show "view t = view (s\<lparr>psci_cpu_pd_nodes := (psci_cpu_pd_nodes s)(c := (psci_cpu_pd_nodes s c)
          \<lparr>cpu_mpidr := and (read_mpidr pf c) MPIDR_AFFINITY_MASK\<rparr>)\<rparr>)"
    unfolding t using vh by (simp add: view_def)
  show "lock_log t = lock_log s @ [Spin_Lock_Cpu c, Spin_Unlock_Cpu c]"
    unfolding t using log by simp
  show "shape t = shape s"
    unfolding t using view_eqD(3)[OF vh] view_shape[OF vh] by (simp add: shape_def fun_eq_iff)
qed

section \<open>The warm boot entry point\<close>

lemma view_mpidr_cong:
  assumes "view a = view b"
  shows "view (a\<lparr>psci_cpu_pd_nodes := (psci_cpu_pd_nodes a)(c := (psci_cpu_pd_nodes a c)\<lparr>cpu_mpidr := m\<rparr>)\<rparr>) =
         view (b\<lparr>psci_cpu_pd_nodes := (psci_cpu_pd_nodes b)(c := (psci_cpu_pd_nodes b c)\<lparr>cpu_mpidr := m\<rparr>)\<rparr>)"
  using assms by (simp add: view_def)

text \<open>What the warm-boot entry does to the core's own data, before the domains are marked running.\<close>

definition boot_finish :: "'p platform \<Rightarrow> nat \<Rightarrow> 'p psci_state \<Rightarrow> 'p psci_state" where
  "boot_finish pf c s =
     (if psci_get_aff_info_state_by_idx c s = AFF_STATE_ON_PENDING
      then s\<lparr>psci_cpu_pd_nodes := (psci_cpu_pd_nodes s)(c := (psci_cpu_pd_nodes s c)
             \<lparr>cpu_mpidr := and (read_mpidr pf c) MPIDR_AFFINITY_MASK\<rparr>)\<rparr>
      else psci_set_suspend_pwrlvl c (PLAT_MAX_PWR_LVL pf) s)"

lemma view_boot_finish_cong:
  assumes "view a = view b"
  shows "view (boot_finish pf c a) = view (boot_finish pf c b)"
  using view_mpidr_cong[OF assms] view_cong(2)[OF assms] by (simp add: boot_finish_def aff_view[OF assms])

lemma cpu_on_finish_not_wfi [simp]: "psci_cpu_on_finish pf c si s \<noteq> Wfi t"
  by (auto simp: psci_cpu_on_finish_def Let_def obind_Wfi_eq oassert_eq split: option.splits)

lemma boot_finish_effect:
  assumes "leaves (if psci_get_aff_info_state_by_idx c s = AFF_STATE_ON_PENDING then psci_cpu_on_finish pf c si s
      else if m = PSCI_INVALID_PWR_LVL pf then Halt else psci_cpu_suspend_to_powerdown_finish pf c m si False s) t"
  shows "view t = view (boot_finish pf c s)" and "shape t = shape s"
    and "\<exists>es. lock_log t = lock_log s @ es \<and> cpu_lock_cycle es"
proof -
  consider (on) "psci_get_aff_info_state_by_idx c s = AFF_STATE_ON_PENDING" "leaves (psci_cpu_on_finish pf c si s) t"
    | (resumed) "psci_get_aff_info_state_by_idx c s \<noteq> AFF_STATE_ON_PENDING"
      "leaves (psci_cpu_suspend_to_powerdown_finish pf c m si False s) t"
    using assms by (simp split: if_splits)
  then have "view t = view (boot_finish pf c s) \<and> shape t = shape s \<and> (\<exists>es. lock_log t = lock_log s @ es \<and> cpu_lock_cycle es)"
  proof cases
    case on
    show ?thesis
      using on(1) cpu_on_finish_effect[OF on(2)] by (simp add: boot_finish_def cpu_lock_cycle_def)
  next
    case resumed
    show ?thesis
      using resumed(1) view_powerdown_finish[OF resumed(2)] calm_powerdown_finish[OF resumed(2)]
      by (simp add: boot_finish_def calm_def cpu_lock_cycle_def)
  qed
  then show "view t = view (boot_finish pf c s)" and "shape t = shape s"
    and "\<exists>es. lock_log t = lock_log s @ es \<and> cpu_lock_cycle es"
    by blast+
qed

lemma warmboot_effect:
  assumes top: "topology_ok pf s" and c: "c < psci_plat_core_count s"
    and run: "leaves (psci_warmboot_entrypoint pf c s) t"
  shows "psci_get_aff_info_state_by_idx c s \<noteq> AFF_STATE_OFF \<and> psci_get_suspend_pwrlvl c s \<le> PLAT_MAX_PWR_LVL pf \<and> tidy s t \<and>
    view t = view (psci_set_pwr_domains_to_run pf c (psci_get_suspend_pwrlvl c s)
      ((boot_finish pf c (put_frame c None s))\<lparr>ns_context := (ns_context s)(c := Some (warmboot_ep_info s c))\<rparr>))"
proof -
  define s0 where "s0 = put_frame c None s"
  define k where "k = psci_get_suspend_pwrlvl c s"
  define ns where "ns = psci_get_parent_pwr_domain_nodes c k s0"
  define s1 where "s1 = psci_acquire_pwr_domain_locks k ns s0"
  define si where "si = psci_get_target_local_pwr_states pf c k \<lparr>pwr_domain_state = (\<lambda>_. 0), last_at_pwrlvl = 0\<rparr> s1"
  define s2 where "s2 = stat_stop pf si s1"
  have aff0: "psci_get_aff_info_state_by_idx c s0 = psci_get_aff_info_state_by_idx c s" and k0: "psci_get_suspend_pwrlvl c s0 = k"
    by (simp_all add: s0_def k_def psci_access)
  define fin where "fin = (if psci_get_aff_info_state_by_idx c s2 = AFF_STATE_ON_PENDING then psci_cpu_on_finish pf c si s2
      else if psci_find_max_off_lvl pf si = PSCI_INVALID_PWR_LVL pf then Halt
      else psci_cpu_suspend_to_powerdown_finish pf c (psci_find_max_off_lvl pf si) si False s2)"
  have aff: "psci_get_aff_info_state_by_idx c s \<noteq> AFF_STATE_OFF" and k: "k \<le> PLAT_MAX_PWR_LVL pf"
    and run1: "leaves (obind fin (\<lambda>_ s3. obind (stat_up pf c k si
         (psci_set_pwr_domains_to_run pf c k (s3\<lparr>ns_context := (ns_context s3)(c := Some (warmboot_ep_info s3 c))\<rparr>)))
         (\<lambda>_ s6. Ret () (psci_release_pwr_domain_locks k ns s6)))) t"
    using run unfolding psci_warmboot_entrypoint_def s0_def[symmetric] Let_def get_power_on_target_pwrlvl_def k0
    by (auto simp: aff0 fin_def s2_def si_def s1_def ns_def PSCI_INVALID_PWR_LVL_def split: if_splits)
  have fin_ret: "fin \<noteq> Wfi u" for u
    by (simp add: fin_def)
  obtain s3 s6 where s3: "leaves fin s3"
    and s6: "leaves (stat_up pf c k si (psci_set_pwr_domains_to_run pf c k (s3\<lparr>ns_context := (ns_context s3)(c := Some (warmboot_ep_info s3 c))\<rparr>))) s6"
    and t: "t = psci_release_pwr_domain_locks k ns s6"
    using run1 by (auto simp: leaves_obind fin_ret)
  note fe = boot_finish_effect[OF s3[unfolded fin_def]]
  note same6 = same_stat_up[OF s6]
  have v2: "view s2 = view s0" and sh2: "shape s2 = shape s0" and log2: "lock_log s2 = lock_log s1"
    by (simp_all add: s2_def s1_def)
  have v3: "view s3 = view (boot_finish pf c s0)"
    using fe(1) view_boot_finish_cong[OF v2] by simp
  have "view t = view (psci_set_pwr_domains_to_run pf c k (s3\<lparr>ns_context := (ns_context s3)(c := Some (warmboot_ep_info s3 c))\<rparr>))"
    using same_view[OF same6] by (simp add: t)
  also have "\<dots> = view (psci_set_pwr_domains_to_run pf c k ((boot_finish pf c s0)\<lparr>ns_context := (ns_context s)(c := Some (warmboot_ep_info s c))\<rparr>))"
  proof (rule view_set_to_run_cong)
    have "warmboot_ep_info (boot_finish pf c s0) = warmboot_ep_info s" "ns_context (boot_finish pf c s0) = ns_context s"
      by (simp_all add: boot_finish_def s0_def psci_access)
    then show "view (s3\<lparr>ns_context := (ns_context s3)(c := Some (warmboot_ep_info s3 c))\<rparr>) =
       view ((boot_finish pf c s0)\<lparr>ns_context := (ns_context s)(c := Some (warmboot_ep_info s c))\<rparr>)"
      using v3 by (simp add: view_def)
  qed
  finally have view_t: "view t = view (psci_set_pwr_domains_to_run pf c k
      ((boot_finish pf c s0)\<lparr>ns_context := (ns_context s)(c := Some (warmboot_ep_info s c))\<rparr>))" .
  have sh0: "shape s0 = shape s" by (simp add: s0_def)
  obtain es where es: "lock_log s6 = lock_log s1 @ es" "cpu_lock_cycle es"
    using fe(3) log2 same_log[OF same6] by auto
  have sh6: "shape s6 = shape s0"
    using same_shape[OF same6] fe(2) sh2 by simp
  have "locks_ok s0 (psci_release_pwr_domain_locks k ns s6)"
    by (rule locks_ok_section[OF _ _ k ns_def sh6 es[unfolded s1_def]])
      (use top c topology_ok_shape[OF sh0] shape_eqD(1)[OF sh0] in simp_all)
  then have "tidy s t"
    using sh6 sh0 unfolding t tidy_def by (simp add: locks_ok_def s0_def)
  then show ?thesis
    using aff k view_t by (simp add: k_def s0_def)
qed

section \<open>Powering a core on\<close>

abbreviation put_ep :: "nat \<Rightarrow> entry_point_info \<Rightarrow> 'p psci_state \<Rightarrow> 'p psci_state" where
  "put_ep c ep s \<equiv> s\<lparr>warmboot_ep_info := (warmboot_ep_info s)(c := ep)\<rparr>"

lemma cpu_on_start_eq:
  "psci_cpu_on_start pf d m ep s =
    (if d \<ge> PLATFORM_CORE_COUNT pf then Ret PSCI_E_INVALID_PARAMS s
     else case (pwr_domain_on (psci_plat_pm_ops pf), pwr_domain_on_finish (psci_plat_pm_ops pf)) of
       (Some on_hook, Some _) \<Rightarrow>
         let s1 = psci_spin_lock_cpu d s
         in if psci_get_aff_info_state_by_idx d s \<noteq> AFF_STATE_OFF
            then Ret (cpu_on_validate_state (psci_get_aff_info_state_by_idx d s)) (psci_spin_unlock_cpu d s1)
            else let s2 = put_ep d ep s1;
                     s4 = psci_set_aff_info_state_by_idx d AFF_STATE_ON_PENDING
                            (call_hook (map_option (\<lambda>f. f m) (spd_hook svc_on s2)) s2);
                     (rc, p) = on_hook m (plat s4); s6 = s4\<lparr>plat := p\<rparr>
                 in if rc = PSCI_E_SUCCESS then Ret rc (psci_spin_unlock_cpu d s6)
                    else if rc = PSCI_E_INTERN_FAIL
                    then Ret rc (psci_spin_unlock_cpu d (psci_set_aff_info_state_by_idx d AFF_STATE_OFF s6))
                    else Halt
     | _ \<Rightarrow> Halt)"
proof -
  have aff: "psci_get_aff_info_state_by_idx d (psci_spin_lock_cpu d s) = psci_get_aff_info_state_by_idx d s"
    by (rule aff_view) simp
  have ok: "cpu_on_validate_state a = 0 \<longleftrightarrow> a = AFF_STATE_OFF" for a
    by (cases a) (simp_all add: cpu_on_validate_state_def)
  show ?thesis
    unfolding psci_cpu_on_start_def Let_def aff ok by (auto split: option.splits prod.splits)
qed

lemma cpu_on_start_effect:
  assumes "leaves (psci_cpu_on_start pf d m ep s) t"
  shows "tidy s t \<and> (view t = view s \<or> (psci_get_aff_info_state_by_idx d s = AFF_STATE_OFF \<and>
     (\<exists>a\<in>{AFF_STATE_ON_PENDING, AFF_STATE_OFF}. view t = view (psci_set_aff_info_state_by_idx d a (put_ep d ep s)))))"
proof -
  let ?s = "put_ep d ep (psci_spin_lock_cpu d s)"
  have v: "view (call_hook h ?s) = view (put_ep d ep s)" for h
    unfolding same_helpers_eq by (rule view_cong) simp
  have "view t = view s \<or> (psci_get_aff_info_state_by_idx d s = AFF_STATE_OFF \<and>
     (\<exists>h p.
       t = psci_spin_unlock_cpu d ((psci_set_aff_info_state_by_idx d AFF_STATE_ON_PENDING (call_hook h ?s))\<lparr>plat := p\<rparr>) \<or>
       t = psci_spin_unlock_cpu d (psci_set_aff_info_state_by_idx d AFF_STATE_OFF
            ((psci_set_aff_info_state_by_idx d AFF_STATE_ON_PENDING (call_hook h ?s))\<lparr>plat := p\<rparr>))))"
    using assms unfolding cpu_on_start_eq by (auto simp: Let_def split: if_splits option.splits prod.splits)
  moreover have "view (psci_set_aff_info_state_by_idx d AFF_STATE_OFF
        ((psci_set_aff_info_state_by_idx d AFF_STATE_ON_PENDING (call_hook h ?s))\<lparr>plat := p\<rparr>)) =
      view (psci_set_aff_info_state_by_idx d AFF_STATE_OFF (put_ep d ep s))" for h p
    using v[of h] by (simp add: view_def psci_access)
  moreover have "view (psci_set_aff_info_state_by_idx d AFF_STATE_ON_PENDING (call_hook h ?s)) =
     view (psci_set_aff_info_state_by_idx d AFF_STATE_ON_PENDING (put_ep d ep s))" for h
    by (rule view_cong(1)[OF v])
  ultimately have "view t = view s \<or> (psci_get_aff_info_state_by_idx d s = AFF_STATE_OFF \<and>
     (\<exists>a\<in>{AFF_STATE_ON_PENDING, AFF_STATE_OFF}. view t = view (psci_set_aff_info_state_by_idx d a (put_ep d ep s))))"
    by (elim disjE conjE exE) simp_all
  then show ?thesis
    using tidy_cpu_on_start[OF assms] by blast
qed

section \<open>The effect of one call\<close>

text \<open>
  What a call asks for, from its function identifier and its argument registers; the 32-bit variants
  take the low halves of the registers, as the dispatcher does.
\<close>

datatype psci_call =
    Cpu_On u64 uptr u64
  | Cpu_Off
  | Suspend uptr u64
  | Other_Call

definition low_word :: "u64 \<Rightarrow> u64" where
  "low_word x = ucast (ucast x :: u32)"

definition psci_call_of :: "u32 \<Rightarrow> u64 \<Rightarrow> u64 \<Rightarrow> u64 \<Rightarrow> psci_call" where
  "psci_call_of fid x1 x2 x3 =
     (if fid = PSCI_CPU_ON_AARCH64 then Cpu_On x1 x2 x3
      else if fid = PSCI_CPU_ON_AARCH32 then Cpu_On (low_word x1) (low_word x2) (low_word x3)
      else if fid = PSCI_CPU_OFF then Cpu_Off
      else if fid = PSCI_CPU_SUSPEND_AARCH64 then Suspend x2 x3
      else if fid = PSCI_CPU_SUSPEND_AARCH32 then Suspend (low_word x2) (low_word x3)
      else if fid = PSCI_SYSTEM_SUSPEND_AARCH64 then Suspend x1 x2
      else if fid = PSCI_SYSTEM_SUSPEND_AARCH32 then Suspend (low_word x1) (low_word x2)
      else Other_Call)"

text \<open>The entry point that a call with these arguments leaves for the warm boot.\<close>

definition ep_for :: "uptr \<Rightarrow> u64 \<Rightarrow> entry_point_info \<Rightarrow> bool" where
  "ep_for entrypoint context_id ep \<longleftrightarrow> ep_pc ep = entrypoint \<and> ep_args ep = context_id # replicate 7 0"

lemma validate_entry_point_ep:
  assumes "psci_validate_entry_point pf p ep0 entry ctx = (rc, ep)"
  shows "rc \<in> {PSCI_E_SUCCESS, PSCI_E_INVALID_ADDRESS}" "rc = PSCI_E_SUCCESS \<Longrightarrow> ep_for entry ctx ep"
    "ep = ep0 \<or> ep_for entry ctx ep"
  using assms by (auto simp: psci_validate_entry_point_def psci_get_ns_ep_info_def Let_def ep_for_def split: option.splits if_splits)

text \<open>
  What one PSCI call of core \<open>me\<close> may do to the view of the state, in a build without OS-initiated mode:
  any call may leave it as it is, and only the call named may make each of the other transitions.
\<close>

inductive smc_effect :: "'p platform \<Rightarrow> nat \<Rightarrow> psci_call \<Rightarrow> 'p psci_state \<Rightarrow> 'p psci_state \<Rightarrow> bool" for pf me q s where
  idle: "view t = view s \<Longrightarrow> smc_effect pf me q s t"
| refused: "q = Suspend entry ctx \<Longrightarrow> ep_for entry ctx ep \<Longrightarrow> view t = view (put_ep me ep s) \<Longrightarrow> smc_effect pf me q s t"
| cpu_on: "q = Cpu_On m entry ctx \<Longrightarrow> is_valid_mpidr pf m \<Longrightarrow> d = core_pos pf m \<Longrightarrow> ep_for entry ctx ep \<Longrightarrow>
    psci_get_aff_info_state_by_idx d s = AFF_STATE_OFF \<Longrightarrow> a \<in> {AFF_STATE_ON_PENDING, AFF_STATE_OFF} \<Longrightarrow>
    view t = view (psci_set_aff_info_state_by_idx d a (put_ep d ep s)) \<Longrightarrow> smc_effect pf me q s t"
| cpu_off: "q = Cpu_Off \<Longrightarrow> view s2 = view s \<Longrightarrow>
    psci_do_state_coordination pf me (PLAT_MAX_PWR_LVL pf) (psci_set_power_off_state pf (uninit_state pf)) s2 = Ret si' s3 \<Longrightarrow>
    view t = view (psci_set_aff_info_state_by_idx me AFF_STATE_OFF (psci_set_target_local_pwr_states me (PLAT_MAX_PWR_LVL pf) si' s3)) \<Longrightarrow>
    smc_effect pf me q s t"
| standby: "q = Suspend entry ctx \<Longrightarrow>
    view t = view (put_frame me (Some (Cpu_Standby si)) (psci_set_cpu_local_state me st s)) \<Longrightarrow> smc_effect pf me q s t"
| suspend: "q = Suspend entry ctx \<Longrightarrow> (if pd then ep_for entry ctx ep else ep = warmboot_ep_info s me) \<Longrightarrow>
    view s2 = view (put_ep me ep s) \<Longrightarrow> k \<le> PLAT_MAX_PWR_LVL pf \<Longrightarrow>
    psci_validate_suspend_req pf si pd = PSCI_E_SUCCESS \<Longrightarrow>
    psci_do_state_coordination pf me k si s2 = Ret si' s3 \<Longrightarrow>
    view t = view (put_frame me (Some (Suspended k (psci_get_parent_pwr_domain_nodes me k s) si' pd mo))
         ((if pd then psci_set_suspend_pwrlvl me k else id) (psci_set_target_local_pwr_states me k si' s3))) \<Longrightarrow>
    smc_effect pf me q s t"

definition call_ok :: "'p platform \<Rightarrow> nat \<Rightarrow> psci_call \<Rightarrow> 'p psci_state \<Rightarrow> 'p psci_state \<Rightarrow> bool" where
  "call_ok pf me q s t \<longleftrightarrow> tidy s t \<and> (PSCI_OS_INIT_MODE pf \<or> smc_effect pf me q s t)"

lemma call_ok_same: "same s t \<Longrightarrow> call_ok pf me q s t"
  by (simp add: call_ok_def same_tidy same_view smc_effect.idle)

lemma call_ok_ep:
  assumes "ep = warmboot_ep_info s me \<or> ep_for entry ctx ep"
  shows "call_ok pf me (Suspend entry ctx) s (put_ep me ep s)"
  using assms by (auto simp: call_ok_def calm_tidy calm_def intro: smc_effect.idle smc_effect.refused)

lemma call_ok_cpu_on:
  assumes "leaves (psci_cpu_on_start pf (core_pos pf m) m ep s) t" and "is_valid_mpidr pf m" and "ep_for entry ctx ep"
  shows "call_ok pf me (Cpu_On m entry ctx) s t"
  using cpu_on_start_effect[OF assms(1)] smc_effect.idle[of t s] smc_effect.cpu_on[OF refl assms(2) refl assms(3), of s _ t]
  unfolding call_ok_def by blast

lemma call_ok_cpu_off:
  assumes "topology_ok pf s" and "me < psci_plat_core_count s" and "leaves (psci_cpu_off pf me s) t"
  shows "call_ok pf me Cpu_Off s t"
  using assms
proof (cases rule: cpu_off_cases)
  case idle
  then show ?thesis
    by (simp add: call_ok_def smc_effect.idle)
next
  case (down si' s2 s3)
  then show ?thesis
    using smc_effect.cpu_off[OF refl down(1,2,3)] by (simp add: call_ok_def)
qed

lemma call_ok_suspend_start:
  assumes top: "topology_ok pf s" and me: "me < psci_plat_core_count s" and k: "k \<le> PLAT_MAX_PWR_LVL pf"
    and req: "psci_validate_suspend_req pf si pd = PSCI_E_SUCCESS"
    and ep: "if pd then ep_for entry ctx ep else ep = warmboot_ep_info s me"
    and run: "leaves (psci_cpu_suspend_start pf me k si pd (put_ep me ep s)) t"
  shows "call_ok pf me (Suspend entry ctx) s t"
proof -
  let ?s = "put_ep me ep s"
  have sh: "shape ?s = shape s" by simp
  have t0: "tidy s ?s" by (simp add: calm_tidy calm_def)
  have top': "topology_ok pf ?s" and me': "me < psci_plat_core_count ?s"
    using top me topology_ok_shape[OF sh] by simp_all
  from top' me' k run show ?thesis
  proof (cases rule: suspend_start_cases)
    case idle
    then show ?thesis
      using smc_effect.idle[of t s] smc_effect.refused[OF refl, of entry ctx ep t s me] ep tidy_trans[OF t0]
      by (auto simp: call_ok_def split: if_splits)
  next
    case os_init
    then show ?thesis
      using tidy_trans[OF t0] by (simp add: call_ok_def)
  next
    case (asleep si' s2 s3 mo)
    have "psci_get_parent_pwr_domain_nodes me k ?s = psci_get_parent_pwr_domain_nodes me k s"
      by (simp add: parent_nodes_eq ancestor_shape[OF sh])
    then show ?thesis
      using smc_effect.suspend[OF refl ep asleep(1) k req asleep(2)] asleep(3,4) tidy_trans[OF t0] by (simp add: call_ok_def)
  qed
qed

lemma call_ok_cpu_suspend:
  assumes top: "topology_ok pf s" and me: "me < psci_plat_core_count s"
    and run: "leaves (psci_cpu_suspend pf me ps entry ctx s) t"
  shows "call_ok pf me (Suspend entry ctx) s t"
proof -
  obtain rc si where val: "psci_validate_power_state pf ps \<lparr>pwr_domain_state = (\<lambda>_. 0), last_at_pwrlvl = 0\<rparr> s = Ret (rc, si) s"
    using run by (auto simp: psci_cpu_suspend_def leaves_obind psci_validate_power_state_def split: if_splits option.splits)
  define pd where "pd = (psci_get_pstate_type pf ps \<noteq> 0)"
  define k where "k = psci_find_target_suspend_lvl pf si"
  show ?thesis
  proof (cases "rc = 0")
    case False
    then have "t = s"
      using run val by (auto simp: psci_cpu_suspend_def split: if_splits)
    then show ?thesis
      by (simp add: call_ok_same)
  next
    case True
    have req: "psci_validate_suspend_req pf si pd = 0" and lvl: "k \<noteq> PSCI_INVALID_PWR_LVL pf"
      using run val True by (auto simp: psci_cpu_suspend_def Let_def pd_def k_def split: if_splits)
    then have k: "k \<le> PLAT_MAX_PWR_LVL pf"
      using find_target_suspend_lvl_cases[of pf si] by (simp add: k_def)
    note start = call_ok_suspend_start[OF top me k req]
    obtain vrc ep where v: "psci_validate_entry_point pf (plat s) (warmboot_ep_info s me) entry ctx = (vrc, ep)"
      by fastforce
    note vep = validate_entry_point_ep[OF v]
    have "t = s \<or> (\<exists>f st. t = put_frame me (Some (Cpu_Standby si)) (on_plat f (stat_start pf si (psci_set_cpu_local_state me st s)))) \<or>
      t = put_ep me ep s \<or> (pd \<and> vrc = 0 \<and> leaves (psci_cpu_suspend_start pf me k si pd (put_ep me ep s)) t) \<or>
      (\<not> pd \<and> leaves (psci_cpu_suspend_start pf me k si pd s) t)"
      using run val True req lvl unfolding psci_cpu_suspend_def
      by (auto simp: v Let_def pd_def[symmetric] k_def[symmetric] split: if_splits option.splits prod.splits)
    then consider "t = s" | (stand) f st where "t = put_frame me (Some (Cpu_Standby si)) (on_plat f (stat_start pf si (psci_set_cpu_local_state me st s)))"
      | (badep) "t = put_ep me ep s" | (sleep) "pd" "vrc = 0" "leaves (psci_cpu_suspend_start pf me k si pd (put_ep me ep s)) t"
      | (plain) "\<not> pd" "leaves (psci_cpu_suspend_start pf me k si pd (put_ep me (warmboot_ep_info s me) s)) t"
      by (auto simp del: fun_upd_apply)
    then show ?thesis
    proof cases
      case 1
      then show ?thesis
        by (simp add: call_ok_same)
    next
      case stand
      have "view t = view (put_frame me (Some (Cpu_Standby si)) (psci_set_cpu_local_state me st s))"
        unfolding stand by (rule view_cong) simp
      moreover have "tidy s t"
        unfolding stand by (simp add: calm_tidy calm_def)
      ultimately show ?thesis
        unfolding call_ok_def by (blast intro: smc_effect.standby)
    next
      case badep
      then show ?thesis
        using call_ok_ep[OF vep(3)] by simp
    next
      case sleep
      then show ?thesis
        using start[OF _ sleep(3)] vep(2) by simp
    next
      case plain
      then show ?thesis
        using start[OF _ plain(2)] by simp
    qed
  qed
qed

section \<open>Every function of the SMC handler\<close>

lemma last_on_leaves: "leaves (psci_is_last_on_cpu me s) t \<Longrightarrow> t = s" "psci_is_last_on_cpu me s \<noteq> Wfi t"
  by (auto simp: psci_is_last_on_cpu_def split: option.splits)

lemma last_on_ret: "psci_is_last_on_cpu me s = Ret b t \<Longrightarrow> t = s"
  using last_on_leaves[of me s t] by simp

lemma call_ok_system_suspend:
  assumes top: "topology_ok pf s" and me: "me < psci_plat_core_count s"
    and run: "leaves (psci_system_suspend pf me entry ctx s) t"
  shows "call_ok pf me (Suspend entry ctx) s t"
proof -
  obtain rc ep where val: "psci_validate_entry_point pf (plat s) (warmboot_ep_info s me) entry ctx = (rc, ep)"
    by (rule prod.exhaust)
  note vep = validate_entry_point_ep[OF val]
  have "t = s \<or> t = put_ep me ep s \<or> (\<exists>si. rc = 0 \<and> psci_validate_suspend_req pf si True = 0 \<and>
      leaves (psci_cpu_suspend_start pf me (PLAT_MAX_PWR_LVL pf) si True (put_ep me ep s)) t)"
    using run unfolding psci_system_suspend_def
    by (auto simp: leaves_obind Let_def last_on_leaves val psci_query_sys_suspend_pwrstate_def dest!: last_on_ret
        split: if_splits option.splits)
  then show ?thesis
    using call_ok_same[OF same_refl] call_ok_ep[OF vep(3)] call_ok_suspend_start[OF top me order_refl, of _ True] vep(2) by auto
qed

lemma migrate_info_ret: "psci_spd_migrate_info m s = Ret r t \<Longrightarrow> t = s" "psci_spd_migrate_info m s \<noteq> Wfi t"
  by (auto simp: psci_spd_migrate_info_def split: option.splits prod.splits if_splits)

lemma call_ok_migrate:
  assumes "leaves (psci_migrate pf me m s) t"
  shows "call_ok pf me q s t"
proof (cases "is_valid_mpidr pf m")
  case True
  then obtain rc r where info: "psci_spd_migrate_info 0 s = Ret (rc, r) s"
    using assms migrate_info_ret[of 0 s] by (cases "psci_spd_migrate_info 0 s") (fastforce simp: psci_migrate_def)+
  show ?thesis
  proof (cases "spd_hook svc_migrate s")
    case None
    then show ?thesis
      using assms True info by (auto simp: psci_migrate_def call_ok_same split: if_splits)
  next
    case (Some f)
    obtain rc' p where f: "f (read_mpidr pf me) m (plat s) = (rc', p)"
      by (rule prod.exhaust)
    have "t = s \<or> t = s\<lparr>plat := p\<rparr>"
      using assms True info Some f by (simp add: psci_migrate_def split: if_splits)
    then show ?thesis
      by (auto intro: call_ok_same)
  qed
qed (use assms in \<open>simp add: psci_migrate_def call_ok_same\<close>)

lemma call_ok_migrate_info:
  "leaves (psci_migrate_info_type s) t \<Longrightarrow> call_ok pf me q s t" "leaves (psci_migrate_info_up_cpu s) t \<Longrightarrow> call_ok pf me q s t"
  by (rule call_ok_same; auto simp: psci_migrate_info_type_def psci_migrate_info_up_cpu_def leaves_obind migrate_info_ret(2)
      dest!: migrate_info_ret(1))+

lemma call_ok_node_hw_state: "leaves (psci_node_hw_state pf m l s) t \<Longrightarrow> call_ok pf me q s t"
  by (rule call_ok_same) (auto simp: psci_node_hw_state_def Let_def split: if_splits option.splits)

lemma get_stat_leaves: "psci_get_stat pf m ps s = Ret r t \<Longrightarrow> t = s" "psci_get_stat pf m ps s \<noteq> Wfi t"
  by (auto simp: psci_get_stat_def psci_validate_power_state_def Let_def obind_Ret_eq obind_Wfi_eq split: if_splits option.splits prod.splits)

lemma call_ok_stat:
  "leaves (psci_stat_residency pf m ps s) t \<Longrightarrow> call_ok pf me q s t" "leaves (psci_stat_count pf m ps s) t \<Longrightarrow> call_ok pf me q s t"
  by (rule call_ok_same; auto simp: psci_stat_residency_def psci_stat_count_def leaves_obind get_stat_leaves(2) dest!: get_stat_leaves(1)
      split: if_splits)+

lemma call_ok_mem:
  "leaves (psci_mem_protect pf e s) t \<Longrightarrow> call_ok pf me q s t" "leaves (psci_mem_chk_range pf b l s) t \<Longrightarrow> call_ok pf me q s t"
  by (rule call_ok_same; auto simp: psci_mem_protect_def psci_mem_chk_range_def Let_def split: if_splits option.splits prod.splits)+

lemma same_system_power_down: "leaves (system_power_down pf s) t \<Longrightarrow> same s t"
  by (auto simp: system_power_down_def dest!: end_terminal_leaves)

lemma call_ok_system_off:
  "leaves (psci_system_off pf s) t \<Longrightarrow> call_ok pf me q s t" "leaves (psci_system_reset pf s) t \<Longrightarrow> call_ok pf me q s t"
  by (rule call_ok_same; auto simp: psci_system_off_def psci_system_reset_def split: option.splits dest!: same_system_power_down
      intro: same_trans[OF same_call_hook same_trans[OF same_on_plat]])+

lemma call_ok_reset2:
  assumes "leaves (psci_system_reset2 pf ty ck s) t"
  shows "call_ok pf me q s t"
proof (rule call_ok_same)
  obtain f where f: "system_reset2 (psci_plat_pm_ops pf) = Some f"
    using assms by (auto simp: psci_system_reset2_def split: option.splits)
  obtain rc s1 where h: "call_hook_rc 0 (map_option (\<lambda>f. f 0) (write_mem_protect (psci_plat_pm_ops pf))) s = (rc, s1)"
    by (rule prod.exhaust)
  have reset: "same x t" if "leaves (let s1 = call_hook (spd_hook svc_system_reset x) x;
                    (rc, p) = f v ty ck (plat s1); s2 = s1\<lparr>plat := p\<rparr>
                in if rc \<noteq> PSCI_E_SUCCESS then Ret (word_of_int rc) s2 else system_power_down pf s2) t" for x v
    using that by (auto simp: Let_def split: prod.splits if_splits dest!: same_system_power_down
        intro: same_trans[OF same_call_hook same_trans[OF same_plat]] same_trans[OF same_call_hook same_plat])
  show "same s t"
    using assms f h reset same_trans[OF same_call_hook_rc[OF h]] same_call_hook_rc[OF h]
    by (auto simp: psci_system_reset2_def Let_def split: if_splits)
qed

lemma tidy_with_all_locks:
  assumes "topology_ok pf s" and "me < psci_plat_core_count s" and "\<And>x y. leaves (f x) y \<Longrightarrow> y = x" and "\<And>x y. f x \<noteq> Wfi y"
    and "leaves (with_all_locks pf me f s) t"
  shows "tidy s t"
proof -
  let ?ns = "psci_get_parent_pwr_domain_nodes me (PLAT_MAX_PWR_LVL pf) s"
  have "t = psci_release_pwr_domain_locks (PLAT_MAX_PWR_LVL pf) ?ns (psci_acquire_pwr_domain_locks (PLAT_MAX_PWR_LVL pf) ?ns s)"
  proof -
    obtain b u where "f (psci_acquire_pwr_domain_locks (PLAT_MAX_PWR_LVL pf) ?ns s) = Ret b u"
      and t: "t = psci_release_pwr_domain_locks (PLAT_MAX_PWR_LVL pf) ?ns u"
      using assms(4,5) by (auto simp: with_all_locks_def Let_def leaves_obind)
    then show ?thesis
      using assms(3)[of "psci_acquire_pwr_domain_locks (PLAT_MAX_PWR_LVL pf) ?ns s" u] by simp
  qed
  then show ?thesis
    using calm_section_end[OF _ assms(1,2) order_refl refl] by (simp add: calm_def)
qed

lemma leaves_if: "leaves (if b then m else n) t \<longleftrightarrow> (b \<and> leaves m t) \<or> (\<not> b \<and> leaves n t)"
  by simp

lemma tidy_set_suspend_mode:
  assumes top: "topology_ok pf s" and me: "me < psci_plat_core_count s" and run: "leaves (psci_set_suspend_mode pf me m s) t"
  shows "tidy s t"
proof -
  have last: "tidy x y" if "leaves (psci_is_last_on_cpu_safe pf me x) y" "topology_ok pf x" "me < psci_plat_core_count x" for x y
    by (rule tidy_with_all_locks[OF that(2,3) last_on_leaves that(1)[unfolded psci_is_last_on_cpu_safe_def]])
  have all: "tidy x y" if "leaves (psci_are_all_cpus_on_safe pf me x) y" "topology_ok pf x" "me < psci_plat_core_count x" for x y
    by (rule tidy_with_all_locks[OF that(2,3) _ _ that(1)[unfolded psci_are_all_cpus_on_safe_def]]) simp_all
  have no_wfi: "psci_is_last_on_cpu_safe pf me x \<noteq> Wfi y" "psci_are_all_cpus_on_safe pf me x \<noteq> Wfi y" for x y
    by (simp_all add: psci_is_last_on_cpu_safe_def psci_are_all_cpus_on_safe_def with_all_locks_def Let_def obind_Wfi_eq last_on_leaves)
  have both: "tidy s y" if "psci_are_all_cpus_on_safe pf me s = Ret b x" "psci_is_last_on_cpu_safe pf me x = Ret b' y" for b b' x y
  proof -
    have x: "tidy s x" using all[of s x] that(1) top me by simp
    then have "shape x = shape s" by (simp add: tidy_def)
    then have "tidy x y"
      using last[of x y] that(2) top me topology_ok_shape[of x s pf] shape_eqD(1)[of x s] by simp
    with x show ?thesis by (rule tidy_trans)
  qed
  have mode: "tidy s (y\<lparr>psci_suspend_mode := m'\<rparr>)" if "tidy s y" for y m'
    using that by (rule tidy_trans) (simp add: calm_tidy calm_def)
  define ask where "ask = (\<lambda>new_mode. case new_mode of
                  PLAT_COORD \<Rightarrow> psci_is_last_on_cpu_safe pf me s
                | OS_INIT \<Rightarrow> obind (psci_are_all_cpus_on_safe pf me s)
                    (\<lambda>all_on s. if all_on then Ret True s else psci_is_last_on_cpu_safe pf me s))"
  have ask: "tidy s u" if r: "ask n = Ret b u" for n b u
  proof (cases n)
    case PLAT_COORD
    then show ?thesis
      using that last[of s u] top me by (simp add: ask_def)
  next
    case OS_INIT
    then obtain b' x where "psci_are_all_cpus_on_safe pf me s = Ret b' x" "x = u \<or> psci_is_last_on_cpu_safe pf me x = Ret b u"
      using r by (auto simp: ask_def obind_Ret_eq split: if_splits)
    then show ?thesis
      using both all[of s x] top me by (metis leaves.simps(1))
  qed
  have ask_ret: "ask n \<noteq> Wfi u" for n u
    by (cases n) (simp_all add: ask_def obind_Wfi_eq no_wfi)
  have "t = s \<or> (\<exists>n b u. ask n = Ret b u \<and> (t = u \<or> t = u\<lparr>psci_suspend_mode := n\<rparr>))"
    using run ask_ret unfolding psci_set_suspend_mode_def Let_def ask_def[symmetric] leaves_if leaves_obind leaves.simps
    unfolding ask_def by blast
  then show ?thesis
    using ask mode by auto
qed

lemma as_reg_leaves: "leaves (as_reg m) t \<longleftrightarrow> leaves m t"
  by (cases m) (simp_all add: as_reg_def)

lemma call_ok_cpu_on_call: "leaves (psci_cpu_on pf m entry ctx s) t \<Longrightarrow> call_ok pf me (Cpu_On m entry ctx) s t"
  by (auto simp: psci_cpu_on_def psci_cpu_on_by_core_pos_def validate_entry_point_ep(2) split: if_splits prod.splits
      intro: call_ok_same call_ok_cpu_on)

lemma call_ok_set_suspend_mode:
  "topology_ok pf s \<Longrightarrow> me < psci_plat_core_count s \<Longrightarrow> PSCI_OS_INIT_MODE pf \<Longrightarrow>
   leaves (psci_set_suspend_mode pf me m s) t \<Longrightarrow> call_ok pf me q s t"
  by (simp add: call_ok_def tidy_set_suspend_mode)

lemmas call_ok_plain =
  call_ok_migrate call_ok_migrate_info call_ok_node_hw_state call_ok_stat call_ok_mem call_ok_system_off call_ok_reset2

lemma smc32_call_ok:
  assumes top: "topology_ok pf s" and me: "me < psci_plat_core_count s"
    and run: "leaves (psci_smc32 pf me fid (ucast x1) (ucast x2) (ucast x3) s) t"
  shows "call_ok pf me (psci_call_of fid x1 x2 x3) s t" (is "call_ok pf me ?q s t")
proof -
  have self: "t = s \<Longrightarrow> call_ok pf me ?q s t"
    by (simp add: call_ok_same)
  have power:
    "fid = PSCI_CPU_OFF \<Longrightarrow> leaves (psci_cpu_off pf me s) t \<Longrightarrow> call_ok pf me ?q s t"
    "fid = PSCI_CPU_SUSPEND_AARCH32 \<Longrightarrow>
      leaves (psci_cpu_suspend pf me (ucast x1) (ucast (ucast x2 :: u32)) (ucast (ucast x3 :: u32)) s) t \<Longrightarrow> call_ok pf me ?q s t"
    "fid = PSCI_CPU_ON_AARCH32 \<Longrightarrow>
      leaves (psci_cpu_on pf (ucast (ucast x1 :: u32)) (ucast (ucast x2 :: u32)) (ucast (ucast x3 :: u32)) s) t \<Longrightarrow> call_ok pf me ?q s t"
    "fid = PSCI_SYSTEM_SUSPEND_AARCH32 \<Longrightarrow>
      leaves (psci_system_suspend pf me (ucast (ucast x1 :: u32)) (ucast (ucast x2 :: u32)) s) t \<Longrightarrow> call_ok pf me ?q s t"
    using call_ok_cpu_off[OF top me] call_ok_cpu_suspend[OF top me] call_ok_cpu_on_call call_ok_system_suspend[OF top me]
    by (simp_all add: psci_call_of_def low_word_def)
  show ?thesis
    using run unfolding psci_smc32_def leaves_if as_reg_leaves leaves.simps
    by (elim disjE conjE) (erule (1) power | erule call_ok_plain self | erule (1) call_ok_set_suspend_mode[OF top me])+
qed

lemma smc64_call_ok:
  assumes top: "topology_ok pf s" and me: "me < psci_plat_core_count s"
    and run: "leaves (psci_smc64 pf me fid x1 x2 x3 s) t"
  shows "call_ok pf me (psci_call_of fid x1 x2 x3) s t" (is "call_ok pf me ?q s t")
proof -
  have self: "t = s \<Longrightarrow> call_ok pf me ?q s t"
    by (simp add: call_ok_same)
  have power:
    "fid = PSCI_CPU_SUSPEND_AARCH64 \<Longrightarrow> leaves (psci_cpu_suspend pf me (ucast x1) x2 x3 s) t \<Longrightarrow> call_ok pf me ?q s t"
    "fid = PSCI_CPU_ON_AARCH64 \<Longrightarrow> leaves (psci_cpu_on pf x1 x2 x3 s) t \<Longrightarrow> call_ok pf me ?q s t"
    "fid = PSCI_SYSTEM_SUSPEND_AARCH64 \<Longrightarrow> leaves (psci_system_suspend pf me x1 x2 s) t \<Longrightarrow> call_ok pf me ?q s t"
    using call_ok_cpu_suspend[OF top me] call_ok_cpu_on_call call_ok_system_suspend[OF top me]
    by (simp_all add: psci_call_of_def)
  show ?thesis
    using run unfolding psci_smc64_def leaves_if as_reg_leaves leaves.simps
    by (elim disjE conjE) (erule (1) power | erule call_ok_plain self)+
qed

lemma smc_handler_call_ok:
  assumes "topology_ok pf s" and "me < psci_plat_core_count s"
    and "leaves (psci_smc_handler pf me fid x1 x2 x3 flags s) t"
  shows "call_ok pf me (psci_call_of fid x1 x2 x3) s t"
  using assms smc32_call_ok[OF assms(1,2)] smc64_call_ok[OF assms(1,2)]
  by (auto simp: psci_smc_handler_def call_ok_same split: if_splits)

end
