(* ===== verification/Psci_System.thy ===== *)
theory Psci_System
  imports Psci_Effects
begin

text \<open>
  Runs of the whole power-management system: the cores of a platform make PSCI calls, sleep, wake
  up and boot in any order, and the invariant of the shared state holds throughout.
\<close>

section \<open>Steps of the system\<close>

text \<open>
  A core is in use when its affinity state is on and it does not sleep in a \<open>wfi\<close>. Such a core
  may make any PSCI call with any arguments; a sleeping core may wake up with its context; a core that
  was made pending, or that sleeps in a power-down state, may come out of reset.

  A step is the whole of what a core does between entering the firmware and leaving it or reaching its
  \<open>wfi\<close>: two cores take turns, and the code of one call is not interleaved with that of another.
\<close>

definition in_use :: "'p psci_state \<Rightarrow> nat \<Rightarrow> bool" where
  "in_use s c \<longleftrightarrow> psci_get_aff_info_state_by_idx c s = AFF_STATE_ON \<and> stack s c = None"

definition may_boot :: "'p psci_state \<Rightarrow> nat \<Rightarrow> bool" where
  "may_boot s c \<longleftrightarrow> psci_get_aff_info_state_by_idx c s = AFF_STATE_ON_PENDING \<or>
     (case stack s c of Some (Suspended _ _ _ power_down _) \<Rightarrow> power_down | _ \<Rightarrow> False)"

datatype psci_event =
    Smc nat u32 u64 u64 u64 u64
  | Wakeup nat
  | Reset nat

inductive psci_does :: "'p platform \<Rightarrow> psci_event \<Rightarrow> 'p psci_state \<Rightarrow> 'p psci_state \<Rightarrow> bool" for pf where
  smc: "c < psci_plat_core_count s \<Longrightarrow> in_use s c \<Longrightarrow>
    leaves (psci_smc_handler pf c fid x1 x2 x3 flags s) t \<Longrightarrow> psci_does pf (Smc c fid x1 x2 x3 flags) s t"
| wakeup: "c < psci_plat_core_count s \<Longrightarrow> leaves (psci_wfi_return pf c s) t \<Longrightarrow> psci_does pf (Wakeup c) s t"
| warm_boot: "c < psci_plat_core_count s \<Longrightarrow> may_boot s c \<Longrightarrow>
    leaves (psci_warmboot_entrypoint pf c s) t \<Longrightarrow> psci_does pf (Reset c) s t"

abbreviation psci_step :: "'p platform \<Rightarrow> 'p psci_state \<Rightarrow> 'p psci_state \<Rightarrow> bool" where
  "psci_step pf s t \<equiv> \<exists>ev. psci_does pf ev s t"

section \<open>The invariant\<close>

text \<open>
  The part of the invariant on one core. A core in use asks for the run state at every level; a
  suspended core has asked for a low-power state only up to the level on its stack; the level at which
  the warm boot will work is the one a power-down suspend left, and the highest otherwise.
\<close>

definition asks_run_above :: "'p platform \<Rightarrow> nat \<Rightarrow> 'p psci_state \<Rightarrow> nat \<Rightarrow> bool" where
  "asks_run_above pf k s c \<longleftrightarrow> (\<forall>l. k < l \<and> l \<le> PLAT_MAX_PWR_LVL pf \<longrightarrow> req_state s l c = PSCI_LOCAL_STATE_RUN)"

definition core_inv :: "'p platform \<Rightarrow> 'p psci_state \<Rightarrow> nat \<Rightarrow> bool" where
  "core_inv pf s c \<longleftrightarrow>
     (let d = psci_svc_cpu_data s c; top = PLAT_MAX_PWR_LVL pf in
      case stack s c of
        None \<Rightarrow> target_pwrlvl d = top \<and> (aff_info_state d = AFF_STATE_ON \<longrightarrow> local_state d = 0 \<and> asks_run_above pf 0 s c)
      | Some (Cpu_Standby _) \<Rightarrow> aff_info_state d = AFF_STATE_ON \<and> target_pwrlvl d = top \<and> asks_run_above pf 0 s c
      | Some (Suspended k ns _ power_down _) \<Rightarrow>
          aff_info_state d = AFF_STATE_ON \<and> k \<le> top \<and> ns = psci_get_parent_pwr_domain_nodes c k s \<and>
          target_pwrlvl d = (if power_down then k else top) \<and> asks_run_above pf k s c)"

text \<open>No domain is in a deeper state than one of its cores asked for.\<close>

definition domains_inv :: "'p platform \<Rightarrow> 'p psci_state \<Rightarrow> bool" where
  "domains_inv pf s \<longleftrightarrow> (\<forall>c<psci_plat_core_count s. \<forall>l. 1 \<le> l \<and> l \<le> PLAT_MAX_PWR_LVL pf \<longrightarrow>
     node_state s (ancestor s c l) \<le> req_state s l c)"

definition pm_inv :: "'p platform \<Rightarrow> 'p psci_state \<Rightarrow> bool" where
  "pm_inv pf s \<longleftrightarrow> topology_ok pf s \<and> (\<forall>c<psci_plat_core_count s. core_inv pf s c) \<and> domains_inv pf s"

lemma parents_shape:
  assumes "shape t = shape s"
  shows "psci_get_parent_pwr_domain_nodes c k t = psci_get_parent_pwr_domain_nodes c k s"
  by (simp add: parent_nodes_eq ancestor_shape[OF assms])

lemma core_inv_cong:
  assumes "shape t = shape s" "psci_svc_cpu_data t c = psci_svc_cpu_data s c" "stack t c = stack s c"
    "\<And>r. psci_req_local_pwr_states t r c = psci_req_local_pwr_states s r c"
  shows "core_inv pf t c = core_inv pf s c"
  unfolding core_inv_def asks_run_above_def assms(2-4) parents_shape[OF assms(1)] ..

lemma pm_inv_cong:
  assumes sh: "shape t = shape s" and "psci_non_cpu_pd_nodes t = psci_non_cpu_pd_nodes s" "psci_req_local_pwr_states t = psci_req_local_pwr_states s"
    "psci_svc_cpu_data t = psci_svc_cpu_data s" "stack t = stack s"
  shows "pm_inv pf t = pm_inv pf s"
  unfolding pm_inv_def domains_inv_def core_inv_def asks_run_above_def assms(2-5) topology_ok_shape[OF sh] ancestor_shape[OF sh]
    parents_shape[OF sh] shape_eqD(1)[OF sh] ..

lemma pm_inv_view: "view t = view s \<Longrightarrow> pm_inv pf t = pm_inv pf s"
  by (rule pm_inv_cong) (erule view_shape view_eqD)+

lemma pm_inv_ep [simp]: "pm_inv pf (put_ep c ep s) = pm_inv pf s"
  by (rule pm_inv_cong) simp_all

lemma pm_inv_top: "pm_inv pf s \<Longrightarrow> topology_ok pf s"
  by (simp add: pm_inv_def)

text \<open>A step of core \<open>c\<close> leaves the data and the requests of the other cores alone.\<close>

lemma pm_inv_step:
  assumes inv: "pm_inv pf s" and sh: "shape t = shape s"
    and others: "\<And>d. d \<noteq> c \<Longrightarrow> psci_svc_cpu_data t d = psci_svc_cpu_data s d \<and> stack t d = stack s d \<and>
       (\<forall>r. psci_req_local_pwr_states t r d = psci_req_local_pwr_states s r d)"
    and own: "c < psci_plat_core_count s \<Longrightarrow> core_inv pf t c" and dom: "domains_inv pf t"
  shows "pm_inv pf t"
proof -
  have "core_inv pf t d" if "d < psci_plat_core_count t" for d
  proof (cases "d = c")
    case False
    then show ?thesis
      using that inv core_inv_cong[OF sh, of d] others[of d] shape_eqD(1)[OF sh] by (simp add: pm_inv_def)
  qed (use that own shape_eqD(1)[OF sh] in simp)
  then show ?thesis
    using inv dom topology_ok_shape[OF sh] by (simp add: pm_inv_def)
qed

lemma domains_inv_cong:
  assumes "shape t = shape s" "psci_non_cpu_pd_nodes t = psci_non_cpu_pd_nodes s" "psci_req_local_pwr_states t = psci_req_local_pwr_states s"
  shows "domains_inv pf t = domains_inv pf s"
  unfolding domains_inv_def assms(2,3) ancestor_shape[OF assms(1)] shape_eqD(1)[OF assms(1)] ..

section \<open>The transitions keep the invariant\<close>

lemma coordinated:
  assumes inv: "pm_inv pf s" and coord: "pwr_coordinator (plat_get_target_pwr_state pf)"
    and c: "c < psci_plat_core_count s" and k: "k \<le> PLAT_MAX_PWR_LVL pf"
    and run: "psci_do_state_coordination pf c k si s = Ret si' u"
  defines "t \<equiv> psci_set_target_local_pwr_states c k si' u"
  shows "shape t = shape s" and "domains_inv pf t" and "stack t = stack s"
    and "psci_svc_cpu_data t = (psci_svc_cpu_data s)(c := (psci_svc_cpu_data s c)\<lparr>local_state := pwr_domain_state si' 0\<rparr>)"
    and "d \<noteq> c \<or> k < l \<Longrightarrow> 1 \<le> l \<Longrightarrow> req_state t l d = req_state s l d"
proof -
  have top: "topology_ok pf s" and dom: "domains_inv pf s"
    using inv by (simp_all add: pm_inv_def)
  have spec: "coordination_spec pf c k si s si' u"
    using do_state_coordination_spec[OF top coord c k, of si] run by auto
  then have u: "u = s\<lparr>psci_req_local_pwr_states := (\<lambda>r d. if d = c \<and> r < k then pwr_domain_state si (Suc r) else psci_req_local_pwr_states s r d)\<rparr>"
    by (simp add: coordination_spec_def)
  have sh: "shape u = shape s"
    by (simp add: u)
  obtain N where t: "t = (psci_set_cpu_local_state c (pwr_domain_state si' 0) u)\<lparr>psci_non_cpu_pd_nodes := N\<rparr>"
    using set_target_only unfolding t_def by blast
  show sht: "shape t = shape s"
    unfolding t_def by (simp add: sh)
  show "stack t = stack s"
    "psci_svc_cpu_data t = (psci_svc_cpu_data s)(c := (psci_svc_cpu_data s c)\<lparr>local_state := pwr_domain_state si' 0\<rparr>)"
    by (simp_all add: t u psci_access)
  show req: "req_state t l d = req_state s l d" if "d \<noteq> c \<or> k < l" "1 \<le> l" for d l
    using that by (auto simp: t u psci_access)
  have req_u: "psci_req_local_pwr_states t = psci_req_local_pwr_states u"
    by (simp add: t psci_access)
  have "node_state t (ancestor s d l) \<le> req_state t l d" if d: "d < psci_plat_core_count s" and l: "1 \<le> l" "l \<le> PLAT_MAX_PWR_LVL pf" for d l
  proof (cases "l \<le> k \<and> ancestor s d l = ancestor s c l")
    case True
    then show ?thesis
      using node_state_set_target[of pf u c k d l si'] coordination_specD(1)[OF spec top c k coord, of l d] top c k d l
        topology_ok_shape[OF sh] shape_eqD(1)[OF sh] ancestor_shape[OF sh] req_u by (simp add: t_def)
  next
    case False
    then have "d \<noteq> c \<or> k < l"
      by auto
    then show ?thesis
      using False node_state_set_target[of pf u c k d l si'] top c k d l req[of d l] dom
        topology_ok_shape[OF sh] shape_eqD(1)[OF sh] ancestor_shape[OF sh] by (auto simp: t_def domains_inv_def u)
  qed
  then show "domains_inv pf t"
    unfolding domains_inv_def ancestor_shape[OF sht] shape_eqD(1)[OF sht] by blast
qed

lemma woken:
  assumes inv: "pm_inv pf s" and sh: "shape u = shape s" and nodes: "psci_non_cpu_pd_nodes u = psci_non_cpu_pd_nodes s"
    and req: "psci_req_local_pwr_states u = psci_req_local_pwr_states s"
    and data: "psci_svc_cpu_data u = (psci_svc_cpu_data s)(c := D)" and stack: "stack u = (stack s)(c := None)"
    and D: "target_pwrlvl D = PLAT_MAX_PWR_LVL pf"
    and c: "c < psci_plat_core_count s" and k: "k \<le> PLAT_MAX_PWR_LVL pf" and above: "asks_run_above pf k s c"
  shows "pm_inv pf (psci_set_pwr_domains_to_run pf c k u)"
proof (rule pm_inv_step[OF inv, of _ c])
  let ?t = "psci_set_pwr_domains_to_run pf c k u"
  have c': "c < psci_plat_core_count u" and top: "topology_ok pf u" and dom: "domains_inv pf u"
    using inv c shape_eqD(1)[OF sh] topology_ok_shape[OF sh] domains_inv_cong[OF sh nodes req] by (simp_all add: pm_inv_def)
  obtain N where t: "?t = u\<lparr>psci_non_cpu_pd_nodes := N,
       psci_req_local_pwr_states := (\<lambda>r d. if d = c \<and> r < k then 0 else psci_req_local_pwr_states u r d),
       psci_svc_cpu_data := (psci_svc_cpu_data u)(c := (psci_svc_cpu_data u c)\<lparr>aff_info_state := AFF_STATE_ON, local_state := 0\<rparr>)\<rparr>"
    using set_to_run_only[OF c' k] by blast
  show "shape ?t = shape s"
    by (simp add: sh)
  show "psci_svc_cpu_data ?t d = psci_svc_cpu_data s d \<and> stack ?t d = stack s d \<and>
       (\<forall>r. psci_req_local_pwr_states ?t r d = psci_req_local_pwr_states s r d)" if "d \<noteq> c" for d
    using that by (simp add: t data stack req)
  show "core_inv pf ?t c"
    using above by (auto simp: core_inv_def Let_def t data stack D asks_run_above_def req)
  have "node_state ?t (ancestor u d l) \<le> req_state ?t l d" if d: "d < psci_plat_core_count u" and l: "1 \<le> l" "l \<le> PLAT_MAX_PWR_LVL pf" for d l
  proof (cases "l \<le> k \<and> ancestor u d l = ancestor u c l")
    case True
    then show ?thesis
      using node_state_set_to_run[OF top c' k d l] by simp
  next
    case False
    then have "req_state ?t l d = req_state u l d"
      using l by (auto simp: t)
    then show ?thesis
      using False node_state_set_to_run[OF top c' k d l] dom d l by (simp add: domains_inv_def)
  qed
  then show "domains_inv pf ?t"
    unfolding domains_inv_def ancestor_shape[OF shape_set_to_run] shape_eqD(1)[OF shape_set_to_run] by blast
qed

lemma pm_inv_data:
  assumes inv: "pm_inv pf s" and own: "c < psci_plat_core_count s \<Longrightarrow> core_inv pf t c" and sh: "shape t = shape s"
    and "psci_non_cpu_pd_nodes t = psci_non_cpu_pd_nodes s" "psci_req_local_pwr_states t = psci_req_local_pwr_states s"
    and "\<And>d. d \<noteq> c \<Longrightarrow> psci_svc_cpu_data t d = psci_svc_cpu_data s d" "\<And>d. d \<noteq> c \<Longrightarrow> stack t d = stack s d"
  shows "pm_inv pf t"
  using inv by (intro pm_inv_step[OF inv sh _ own]) (simp_all add: assms(5-7) domains_inv_cong[OF sh assms(4,5)] pm_inv_def)

lemma in_use_inv:
  assumes "core_inv pf s c" and "in_use s c"
  shows "target_pwrlvl (psci_svc_cpu_data s c) = PLAT_MAX_PWR_LVL pf" "aff_info_state (psci_svc_cpu_data s c) = AFF_STATE_ON"
    "local_state (psci_svc_cpu_data s c) = 0" "asks_run_above pf 0 s c" "stack s c = None"
  using assms by (simp_all add: core_inv_def in_use_def Let_def psci_access)

lemma cpu_on_inv:
  assumes inv: "pm_inv pf s" and off: "psci_get_aff_info_state_by_idx d s = AFF_STATE_OFF" and a: "a \<noteq> AFF_STATE_ON"
  shows "pm_inv pf (psci_set_aff_info_state_by_idx d a s)"
proof (rule pm_inv_data[OF inv, of d])
  assume "d < psci_plat_core_count s"
  then have "core_inv pf s d"
    using inv by (simp add: pm_inv_def)
  then show "core_inv pf (psci_set_aff_info_state_by_idx d a s) d"
    using off a by (auto simp: core_inv_def Let_def psci_access split: option.splits wfi_frame.splits)
qed (simp_all add: psci_access)

lemma parked_inv:
  assumes inv: "pm_inv pf s" and coord: "pwr_coordinator (plat_get_target_pwr_state pf)" and c: "c < psci_plat_core_count s"
    and k: "k \<le> PLAT_MAX_PWR_LVL pf" and run: "psci_do_state_coordination pf c k si s = Ret si' u"
  defines "v \<equiv> psci_set_target_local_pwr_states c k si' u"
  assumes own: "core_inv pf t c" and sh: "shape t = shape v" and nodes: "psci_non_cpu_pd_nodes t = psci_non_cpu_pd_nodes v"
    and req: "psci_req_local_pwr_states t = psci_req_local_pwr_states v"
    and others: "\<And>d. d \<noteq> c \<Longrightarrow> psci_svc_cpu_data t d = psci_svc_cpu_data v d" "\<And>d. d \<noteq> c \<Longrightarrow> stack t d = stack v d"
  shows "pm_inv pf t"
proof (rule pm_inv_step[OF inv, of _ c])
  note co = coordinated[OF inv coord c k run, folded v_def]
  show "shape t = shape s" "domains_inv pf t"
    using sh co(1,2) domains_inv_cong[OF sh nodes req] by simp_all
  show "psci_svc_cpu_data t d = psci_svc_cpu_data s d \<and> stack t d = stack s d \<and>
       (\<forall>r. psci_req_local_pwr_states t r d = psci_req_local_pwr_states s r d)" if "d \<noteq> c" for d
    using that others co(3,4) co(5)[of d "Suc r" for r] by (simp add: req)
qed (use own in simp)

lemma smc_effect_inv:
  assumes eff: "smc_effect pf c q s t" and inv: "pm_inv pf s" and use: "in_use s c" and c: "c < psci_plat_core_count s"
    and coord: "pwr_coordinator (plat_get_target_pwr_state pf)"
  shows "pm_inv pf t"
proof -
  have own: "core_inv pf s c"
    using inv c by (simp add: pm_inv_def)
  note u = in_use_inv[OF own use]
  show ?thesis
    using eff
  proof cases
    case idle
    then show ?thesis
      using inv pm_inv_view[OF idle] by simp
  next
    case (refused entry ctx ep)
    then show ?thesis
      using inv pm_inv_view[OF refused(3)] by simp
  next
    case (cpu_on m entry ctx d ep a)
    let ?t = "psci_set_aff_info_state_by_idx d a (put_ep d ep s)"
    have "pm_inv pf ?t"
      using cpu_on(5,6) inv by (intro cpu_on_inv) (auto simp: psci_access)
    then show ?thesis
      using pm_inv_view[OF cpu_on(7)] by simp
  next
    case (cpu_off s2 si' s3)
    have inv2: "pm_inv pf s2" and c2: "c < psci_plat_core_count s2"
      using pm_inv_view[OF cpu_off(2)] inv c view_eqD(7)[OF cpu_off(2)] by simp_all
    note co = coordinated[OF inv2 coord c2 order_refl cpu_off(3)]
    have "pm_inv pf (psci_set_aff_info_state_by_idx c AFF_STATE_OFF (psci_set_target_local_pwr_states c (PLAT_MAX_PWR_LVL pf) si' s3))"
      by (rule parked_inv[OF inv2 coord c2 order_refl cpu_off(3)])
        (simp_all add: core_inv_def Let_def psci_access co(3,4) view_eqD(4,10)[OF cpu_off(2)] u)
    then show ?thesis
      using pm_inv_view[OF cpu_off(4)] by simp
  next
    case (standby entry ctx si st)
    have "pm_inv pf (put_frame c (Some (Cpu_Standby si)) (psci_set_cpu_local_state c st s))"
      using u by (intro pm_inv_data[OF inv, of c]) (simp_all add: core_inv_def Let_def psci_access asks_run_above_def)
    then show ?thesis
      using pm_inv_view[OF standby(2)] by simp
  next
    case (suspend entry ctx pd ep s2 k si si' s3 mo)
    have inv2: "pm_inv pf s2" and c2: "c < psci_plat_core_count s2"
      using pm_inv_view[OF suspend(3)] inv c view_eqD(7)[OF suspend(3)] by simp_all
    note co = coordinated[OF inv2 coord c2 suspend(4,6)]
    let ?v = "psci_set_target_local_pwr_states c k si' s3"
    have sh: "shape ?v = shape s"
      using co(1) view_shape[OF suspend(3)] by simp
    have "pm_inv pf (put_frame c (Some (Suspended k (psci_get_parent_pwr_domain_nodes c k s) si' pd mo))
         ((if pd then psci_set_suspend_pwrlvl c k else id) ?v))" (is "pm_inv pf ?t")
    proof (rule parked_inv[OF inv2 coord c2 suspend(4,6)])
      have "asks_run_above pf k ?t c"
        using u(4) co(5)[of c] by (auto simp: asks_run_above_def psci_access view_eqD(1)[OF suspend(3)])
      moreover have sht: "shape ?t = shape s"
        using sh by (simp add: psci_access)
      ultimately show "core_inv pf ?t c"
        using suspend(4) u unfolding core_inv_def parents_shape[OF sht]
        by (simp add: Let_def psci_access co(4) view_eqD(4)[OF suspend(3)])
    qed (simp_all add: psci_access)
    then show ?thesis
      using pm_inv_view[OF suspend(7)] by simp
  qed
qed

lemma wakeup_cases:
  assumes inv: "pm_inv pf s" and c: "c < psci_plat_core_count s" and run: "leaves (psci_wfi_return pf c s) t"
  obtains (standby) si where "stack s c = Some (Cpu_Standby si)" "tidy s t"
      "view t = view (psci_set_cpu_local_state c PSCI_LOCAL_STATE_RUN (put_frame c None s))"
    | (resume) k where "k \<le> PLAT_MAX_PWR_LVL pf" "asks_run_above pf k s c" "tidy s t"
      "aff_info_state (psci_svc_cpu_data s c) = AFF_STATE_ON"
      "view t = view (psci_set_pwr_domains_to_run pf c k (psci_set_suspend_pwrlvl c (PLAT_MAX_PWR_LVL pf) (put_frame c None s)))"
proof (cases "stack s c")
  case None
  then show ?thesis
    using run by (simp add: psci_wfi_return_def Let_def)
next
  case (Some f)
  let ?s = "put_frame c None s"
  have own: "core_inv pf s c" and top: "topology_ok pf s"
    using inv c by (simp_all add: pm_inv_def)
  show ?thesis
  proof (cases f)
    case (Cpu_Standby si)
    let ?v = "psci_set_cpu_local_state c 0 ?s"
    have "same (stat_stop pf si ?v) t"
      using run Some Cpu_Standby
      by (intro same_stat_up[of pf c 0 si]) (auto simp: psci_wfi_return_def psci_cpu_standby_return_def Let_def leaves_obind)
    then have sv: "same ?v t"
      using same_stat_start(2) same_trans by blast
    have "tidy s t"
      using same_log[OF sv] same_shape[OF sv] by (intro calm_tidy) (simp add: calm_def psci_access)
    then show ?thesis
      using standby[of si] Some Cpu_Standby same_view[OF sv] by simp
  next
    case (Suspended k ns si pd mo)
    have k: "k \<le> PLAT_MAX_PWR_LVL pf" and ns: "ns = psci_get_parent_pwr_domain_nodes c k ?s" and above: "asks_run_above pf k s c"
      using own Some Suspended parents_shape[of ?s s] by (simp_all add: core_inv_def Let_def)
    have "view t = view (psci_set_pwr_domains_to_run pf c k (psci_set_suspend_pwrlvl c (PLAT_MAX_PWR_LVL pf) ?s)) \<and> tidy ?s t"
      using run Some Suspended topology_ok_shape[of ?s s pf] top c
      by (intro resume_effect[OF _ _ k ns, of si pd mo t]) (simp_all add: psci_wfi_return_def Let_def)
    moreover have "tidy s ?s"
      by (intro calm_tidy) (simp add: calm_def)
    ultimately show ?thesis
      using resume[of k] k above own Some Suspended tidy_trans[of s ?s t] by (simp add: core_inv_def Let_def)
  qed
qed

lemma wakeup_inv:
  assumes inv: "pm_inv pf s" and c: "c < psci_plat_core_count s" and run: "leaves (psci_wfi_return pf c s) t"
  shows "pm_inv pf t \<and> tidy s t"
  using assms
proof (cases rule: wakeup_cases)
  case (standby si)
  have "core_inv pf s c"
    using inv c by (simp add: pm_inv_def)
  then have "pm_inv pf (psci_set_cpu_local_state c 0 (put_frame c None s))"
    using standby(1) by (intro pm_inv_data[OF inv, of c]) (simp_all add: core_inv_def Let_def psci_access asks_run_above_def)
  then show ?thesis
    using standby(2) pm_inv_view[OF standby(3)] by simp
next
  case (resume k)
  have "pm_inv pf (psci_set_pwr_domains_to_run pf c k (psci_set_suspend_pwrlvl c (PLAT_MAX_PWR_LVL pf) (put_frame c None s)))"
    by (rule woken[OF inv _ _ _ _ _ _ c resume(1,2), where D = "(psci_svc_cpu_data s c)\<lparr>target_pwrlvl := PLAT_MAX_PWR_LVL pf\<rparr>"])
      (simp_all add: psci_access)
  then show ?thesis
    using resume(3) pm_inv_view[OF resume(5)] by simp
qed

lemma warm_boot_inv:
  assumes inv: "pm_inv pf s" and c: "c < psci_plat_core_count s" and boot: "may_boot s c"
    and run: "leaves (psci_warmboot_entrypoint pf c s) t"
  shows "pm_inv pf t \<and> tidy s t"
proof -
  let ?k = "psci_get_suspend_pwrlvl c s"
  let ?u = "(boot_finish pf c (put_frame c None s))\<lparr>ns_context := (ns_context s)(c := Some (warmboot_ep_info s c))\<rparr>"
  have own: "core_inv pf s c" and top: "topology_ok pf s"
    using inv c by (simp_all add: pm_inv_def)
  have eff: "?k \<le> PLAT_MAX_PWR_LVL pf" "tidy s t" "view t = view (psci_set_pwr_domains_to_run pf c ?k ?u)"
    using warmboot_effect[OF top c run] by simp_all
  have above: "asks_run_above pf ?k s c"
    using own boot by (auto simp: core_inv_def may_boot_def Let_def psci_access asks_run_above_def split: option.splits wfi_frame.splits)
  have level: "target_pwrlvl (psci_svc_cpu_data s c) = PLAT_MAX_PWR_LVL pf" if "psci_get_aff_info_state_by_idx c s = AFF_STATE_ON_PENDING"
    using own that by (auto simp: core_inv_def Let_def psci_access split: option.splits wfi_frame.splits)
  have "shape ?u = shape s"
    by (simp add: boot_finish_def psci_access shape_def fun_eq_iff)
  then have "pm_inv pf (psci_set_pwr_domains_to_run pf c ?k ?u)"
    using level by (intro woken[OF inv _ _ _ _ _ _ c eff(1) above, where D = "psci_svc_cpu_data ?u c"])
      (auto simp: boot_finish_def psci_access)
  then show ?thesis
    using eff(2) pm_inv_view[OF eff(3)] by simp
qed

lemma smc_inv:
  assumes inv: "pm_inv pf s" and c: "c < psci_plat_core_count s" and use: "in_use s c"
    and mode: "\<not> PSCI_OS_INIT_MODE pf" and coord: "pwr_coordinator (plat_get_target_pwr_state pf)"
    and run: "leaves (psci_smc_handler pf c fid x1 x2 x3 flags s) t"
  shows "pm_inv pf t \<and> tidy s t"
proof -
  have "call_ok pf c (psci_call_of fid x1 x2 x3) s t"
    using inv by (intro smc_handler_call_ok[OF _ c run]) (simp add: pm_inv_def)
  then show ?thesis
    using smc_effect_inv[OF _ inv use c coord] mode by (auto simp: call_ok_def)
qed

lemma step_inv:
  assumes "psci_does pf ev s t" and "pm_inv pf s" and "\<not> PSCI_OS_INIT_MODE pf" and "pwr_coordinator (plat_get_target_pwr_state pf)"
  shows "pm_inv pf t \<and> tidy s t"
  using assms by (cases rule: psci_does.cases) (auto dest: smc_inv wakeup_inv warm_boot_inv)

lemma cold_boot_inv:
  assumes boot: "cold_boot_state pf me s" and me: "me < desc_cpus pf"
  shows "pm_inv pf s"
proof -
  have "core_inv pf s c" if "c < desc_cpus pf" for c
    using boot that by (auto simp: cold_boot_state_def core_inv_def Let_def asks_run_above_def)
  moreover have "domains_inv pf s"
    using boot by (auto simp: cold_boot_state_def domains_inv_def)
  ultimately show ?thesis
    using boot by (simp add: pm_inv_def cold_boot_state_def)
qed

section \<open>The affinity machine\<close>

text \<open>
  What the normal world knows of the cores: the affinity state of each, the entry point stored for it
  and the context it was last started with. A step of this machine carries the event that makes it, and
  an event allows a change only to the core it names:

  \<^item> any call and any wake-up of a core that is on may leave everything as it is;
  \<^item> a CPU_ON turns its target, if that is off, into a pending core with the entry point and the context
    argument of the call stored for it, or fails to, which leaves it off;
  \<^item> a CPU_OFF turns the caller off;
  \<^item> a CPU_SUSPEND or SYSTEM_SUSPEND stores the entry point of the call for the caller;
  \<^item> a core that comes out of reset, and is not off, is on and starts at the entry point stored for it.
\<close>

type_synonym aff_machine = "(nat \<Rightarrow> aff_info_state) \<times> (nat \<Rightarrow> entry_point_info) \<times> (nat \<Rightarrow> entry_point_info option)"

inductive aff_step :: "'p platform \<Rightarrow> psci_event \<Rightarrow> aff_machine \<Rightarrow> aff_machine \<Rightarrow> bool" for pf where
  aff_idle: "A c = AFF_STATE_ON \<Longrightarrow> ev = Wakeup c \<or> ev = Smc c fid x1 x2 x3 flags \<Longrightarrow> aff_step pf ev (A, E, X) (A, E, X)"
| aff_cpu_on: "A c = AFF_STATE_ON \<Longrightarrow> psci_call_of fid x1 x2 x3 = Cpu_On m entry ctx \<Longrightarrow>
    is_valid_mpidr pf m \<Longrightarrow> d = core_pos pf m \<Longrightarrow> A d = AFF_STATE_OFF \<Longrightarrow> ep_for entry ctx ep \<Longrightarrow>
    aff_step pf (Smc c fid x1 x2 x3 flags) (A, E, X) (A(d := AFF_STATE_ON_PENDING), E(d := ep), X)"
| aff_on_failed: "A c = AFF_STATE_ON \<Longrightarrow> psci_call_of fid x1 x2 x3 = Cpu_On m entry ctx \<Longrightarrow>
    is_valid_mpidr pf m \<Longrightarrow> d = core_pos pf m \<Longrightarrow> A d = AFF_STATE_OFF \<Longrightarrow> ep_for entry ctx ep \<Longrightarrow>
    aff_step pf (Smc c fid x1 x2 x3 flags) (A, E, X) (A, E(d := ep), X)"
| aff_cpu_off: "A c = AFF_STATE_ON \<Longrightarrow> psci_call_of fid x1 x2 x3 = Cpu_Off \<Longrightarrow>
    aff_step pf (Smc c fid x1 x2 x3 flags) (A, E, X) (A(c := AFF_STATE_OFF), E, X)"
| aff_suspend: "A c = AFF_STATE_ON \<Longrightarrow> psci_call_of fid x1 x2 x3 = Suspend entry ctx \<Longrightarrow> ep_for entry ctx ep \<Longrightarrow>
    aff_step pf (Smc c fid x1 x2 x3 flags) (A, E, X) (A, E(c := ep), X)"
| aff_boot: "A c \<noteq> AFF_STATE_OFF \<Longrightarrow> aff_step pf (Reset c) (A, E, X) (A(c := AFF_STATE_ON), E, X(c := Some (E c)))"

inductive_cases aff_stepE: "aff_step pf ev (A, E, X) (A', E', X')"

definition aff_abs :: "'p psci_state \<Rightarrow> aff_machine" where
  "aff_abs s = (\<lambda>c. aff_info_state (psci_svc_cpu_data s c), warmboot_ep_info s, ns_context s)"

lemma aff_abs_view: "view t = view s \<Longrightarrow> aff_abs t = aff_abs s"
  by (simp add: aff_abs_def view_def)

lemma aff_abs_coordinated:
  assumes top: "topology_ok pf s" and coord: "pwr_coordinator (plat_get_target_pwr_state pf)"
    and c: "c < psci_plat_core_count s" and k: "k \<le> PLAT_MAX_PWR_LVL pf"
    and run: "psci_do_state_coordination pf c k si s = Ret si' u"
  shows "aff_abs (psci_set_target_local_pwr_states c k si' u) = aff_abs s"
proof -
  have "coordination_spec pf c k si s si' u"
    using do_state_coordination_spec[OF top coord c k, of si] run by auto
  then obtain R where u: "u = s\<lparr>psci_req_local_pwr_states := R\<rparr>"
    by (auto simp: coordination_spec_def)
  obtain N where "psci_set_target_local_pwr_states c k si' u =
      (psci_set_cpu_local_state c (pwr_domain_state si' 0) u)\<lparr>psci_non_cpu_pd_nodes := N\<rparr>"
    using set_target_only by blast
  then show ?thesis
    by (auto simp: aff_abs_def u psci_access)
qed

lemma aff_abs_to_run:
  assumes "c < psci_plat_core_count s" and "k \<le> PLAT_MAX_PWR_LVL pf"
  shows "aff_abs (psci_set_pwr_domains_to_run pf c k s) =
    ((\<lambda>c. aff_info_state (psci_svc_cpu_data s c))(c := AFF_STATE_ON), warmboot_ep_info s, ns_context s)"
  using set_to_run_only[OF assms] by (auto simp: aff_abs_def)

lemma smc_effect_aff:
  assumes eff: "smc_effect pf c (psci_call_of fid x1 x2 x3) s t" and inv: "pm_inv pf s" and use: "in_use s c"
    and c: "c < psci_plat_core_count s" and coord: "pwr_coordinator (plat_get_target_pwr_state pf)"
  shows "aff_step pf (Smc c fid x1 x2 x3 flags) (aff_abs s) (aff_abs t)" (is "aff_step pf ?ev _ _")
proof -
  let ?A = "\<lambda>c. aff_info_state (psci_svc_cpu_data s c)" and ?E = "warmboot_ep_info s" and ?X = "ns_context s"
  have s: "aff_abs s = (?A, ?E, ?X)" and on: "?A c = AFF_STATE_ON"
    using use by (simp_all add: aff_abs_def in_use_def psci_access)
  have stay: "aff_step pf ?ev (?A, ?E, ?X) (?A, ?E, ?X)"
    using on by (auto intro: aff_idle)
  show ?thesis
    using eff
  proof cases
    case idle
    then show ?thesis
      using stay s aff_abs_view[OF idle] by simp
  next
    case (refused entry ctx ep)
    have "aff_abs t = (?A, ?E(c := ep), ?X)"
      unfolding aff_abs_view[OF refused(3)] by (simp add: aff_abs_def)
    then show ?thesis
      using aff_suspend[of ?A, OF on refused(1,2)] s by simp
  next
    case (cpu_on m entry ctx d ep a)
    have t: "aff_abs t = (?A(d := a), ?E(d := ep), ?X)"
      unfolding aff_abs_view[OF cpu_on(7)] by (auto simp: aff_abs_def psci_access)
    have off: "?A d = AFF_STATE_OFF"
      using cpu_on(5) by (simp add: psci_access)
    have "?A(d := AFF_STATE_OFF) = ?A"
      using off by auto
    then show ?thesis
      using cpu_on(6) aff_cpu_on[of ?A, OF on cpu_on(1-3) off cpu_on(4)] aff_on_failed[of ?A, OF on cpu_on(1-3) off cpu_on(4)] s t
      by (elim insertE emptyE) simp_all
  next
    case (cpu_off s2 si' s3)
    have inv2: "topology_ok pf s2" "c < psci_plat_core_count s2"
      using pm_inv_view[OF cpu_off(2), of pf] inv c view_eqD(7)[OF cpu_off(2)] by (simp_all add: pm_inv_def)
    have "aff_abs (psci_set_target_local_pwr_states c (PLAT_MAX_PWR_LVL pf) si' s3) = aff_abs s"
      using aff_abs_coordinated[OF inv2(1) coord inv2(2) order_refl cpu_off(3)] aff_abs_view[OF cpu_off(2)] by simp
    then have "aff_abs t = (?A(c := AFF_STATE_OFF), ?E, ?X)"
      unfolding aff_abs_view[OF cpu_off(4)] by (auto simp: aff_abs_def psci_access fun_eq_iff)
    then show ?thesis
      using aff_cpu_off[of ?A, OF on cpu_off(1)] s by simp
  next
    case (standby entry ctx si st)
    have "aff_abs t = aff_abs s"
      unfolding aff_abs_view[OF standby(2)] by (auto simp: aff_abs_def psci_access)
    then show ?thesis
      using stay s by simp
  next
    case (suspend entry ctx pd ep s2 k si si' s3 mo)
    have inv2: "topology_ok pf s2" "c < psci_plat_core_count s2"
      using pm_inv_view[OF suspend(3), of pf] inv c view_eqD(7)[OF suspend(3)] pm_inv_top by simp_all
    have "aff_abs t = aff_abs (psci_set_target_local_pwr_states c k si' s3)"
      unfolding aff_abs_view[OF suspend(7)] by (auto simp: aff_abs_def psci_access)
    also have "\<dots> = (?A, ?E(c := ep), ?X)"
      using aff_abs_coordinated[OF inv2(1) coord inv2(2) suspend(4,6)] aff_abs_view[OF suspend(3)] by (simp add: aff_abs_def)
    finally show ?thesis
      using aff_suspend[of ?A, OF on suspend(1)] suspend(2) stay s by (cases pd) simp_all
  qed
qed

lemma wakeup_aff:
  assumes inv: "pm_inv pf s" and c: "c < psci_plat_core_count s" and run: "leaves (psci_wfi_return pf c s) t"
  shows "aff_step pf (Wakeup c) (aff_abs s) (aff_abs t)"
  using assms
proof (cases rule: wakeup_cases)
  case (standby si)
  have "aff_info_state (psci_svc_cpu_data s c) = AFF_STATE_ON"
    using inv c standby(1) by (auto simp: pm_inv_def core_inv_def Let_def)
  moreover have "aff_abs t = aff_abs s"
    unfolding aff_abs_view[OF standby(3)] by (auto simp: aff_abs_def psci_access)
  ultimately show ?thesis
    by (simp add: aff_abs_def aff_idle)
next
  case (resume k)
  have "aff_abs t = aff_abs s"
    unfolding aff_abs_view[OF resume(5)] using resume(1,4) c by (subst aff_abs_to_run) (auto simp: psci_access aff_abs_def)
  then show ?thesis
    using resume(4) by (simp add: aff_abs_def aff_idle)
qed

lemma warm_boot_aff:
  assumes inv: "pm_inv pf s" and c: "c < psci_plat_core_count s" and run: "leaves (psci_warmboot_entrypoint pf c s) t"
  shows "aff_abs t = ((fst (aff_abs s))(c := AFF_STATE_ON), warmboot_ep_info s, (ns_context s)(c := Some (warmboot_ep_info s c)))"
    and "aff_step pf (Reset c) (aff_abs s) (aff_abs t)" and "stack t = (stack s)(c := None)"
proof -
  note eff = warmboot_effect[OF pm_inv_top[OF inv] c run]
  show t: "aff_abs t = ((fst (aff_abs s))(c := AFF_STATE_ON), warmboot_ep_info s, (ns_context s)(c := Some (warmboot_ep_info s c)))"
  proof -
    let ?u = "(boot_finish pf c (put_frame c None s))\<lparr>ns_context := (ns_context s)(c := Some (warmboot_ep_info s c))\<rparr>"
    have "c < psci_plat_core_count ?u"
      using c by (simp add: boot_finish_def psci_access)
    then show ?thesis
      using eff by (simp add: aff_abs_view[of t "psci_set_pwr_domains_to_run pf c (psci_get_suspend_pwrlvl c s) ?u"] aff_abs_to_run)
        (auto simp: boot_finish_def aff_abs_def psci_access)
  qed
  show "aff_step pf (Reset c) (aff_abs s) (aff_abs t)"
    unfolding t using eff by (simp add: aff_abs_def psci_access aff_boot)
  let ?u = "(boot_finish pf c (put_frame c None s))\<lparr>ns_context := (ns_context s)(c := Some (warmboot_ep_info s c))\<rparr>"
  have u: "c < psci_plat_core_count ?u" "stack ?u = (stack s)(c := None)"
    using c by (simp_all add: boot_finish_def psci_access)
  then show "stack t = (stack s)(c := None)"
    using view_eqD(10)[of t] set_to_run_only[OF u(1), of "psci_get_suspend_pwrlvl c s" pf] eff by fastforce
qed

lemma step_aff:
  assumes step: "psci_does pf ev s t" and inv: "pm_inv pf s" and mode: "\<not> PSCI_OS_INIT_MODE pf"
    and coord: "pwr_coordinator (plat_get_target_pwr_state pf)"
  shows "aff_step pf ev (aff_abs s) (aff_abs t)"
  using step
proof cases
  case (smc c fid x1 x2 x3 flags)
  have "call_ok pf c (psci_call_of fid x1 x2 x3) s t"
    by (rule smc_handler_call_ok[OF pm_inv_top[OF inv] smc(2,4)])
  then show ?thesis
    using smc_effect_aff[OF _ inv smc(3,2) coord] mode by (simp add: call_ok_def smc(1))
qed (use wakeup_aff[OF inv] warm_boot_aff(2)[OF inv] in blast)+

section \<open>Reachable states\<close>

text \<open>
  The system starts in the state the cold boot leaves, with or without the hooks of a Secure Payload
  Dispatcher. The properties of runs are about a build without OS-initiated mode whose platform port meets
  the contract of the coordination function.
\<close>

definition psci_start :: "'p platform \<Rightarrow> 'p psci_state \<Rightarrow> bool" where
  "psci_start pf s \<longleftrightarrow> valid_tree_desc pf \<and>
     (\<exists>me<desc_cpus pf. \<exists>p t. psci_setup pf me (psci_bss p) = Ret 0 t \<and>
        (s = t \<or> (\<exists>spd. s = psci_register_spd_pm_hook spd t)))"

definition platform_coordinated :: "'p platform \<Rightarrow> bool" where
  "platform_coordinated pf \<longleftrightarrow> \<not> PSCI_OS_INIT_MODE pf \<and> pwr_coordinator (plat_get_target_pwr_state pf)"

definition coordinated_start :: "'p platform \<Rightarrow> 'p psci_state \<Rightarrow> bool" where
  "coordinated_start pf s \<longleftrightarrow> platform_coordinated pf \<and> psci_start pf s"

lemma coordinated_reach:
  assumes "reach (psci_start pf) (psci_step pf) s" and "\<not> PSCI_OS_INIT_MODE pf" and "pwr_coordinator (plat_get_target_pwr_state pf)"
  shows "reach (coordinated_start pf) (psci_step pf) s"
  using assms by (induction rule: reach.induct) (auto simp: coordinated_start_def platform_coordinated_def intro: reach.intros)

text \<open>The whole history of lock operations is well formed and ends with no lock held.\<close>

definition locks_idle :: "'p psci_state \<Rightarrow> bool" where
  "locks_idle s \<longleftrightarrow> lock_run (\<lambda>n. node_level (psci_non_cpu_pd_nodes s n)) [] (lock_log s) = Some []"

definition psci_inv :: "'p platform \<Rightarrow> 'p psci_state \<Rightarrow> bool" where
  "psci_inv pf s \<longleftrightarrow> platform_coordinated pf \<and> pm_inv pf s \<and> locks_idle s"

lemma tidy_locks_idle:
  assumes "tidy s t" and "locks_idle s"
  shows "locks_idle t"
proof -
  have "(\<lambda>n. node_level (psci_non_cpu_pd_nodes t n)) = (\<lambda>n. node_level (psci_non_cpu_pd_nodes s n))"
    using assms(1) shape_eqD(8)[of t s] by (simp add: tidy_def)
  then show ?thesis
    using assms by (auto simp: tidy_def locks_ok_def locks_idle_def lock_run_append)
qed

lemma register_fields [simp]:
  "shape (psci_register_spd_pm_hook spd s) = shape s"
  "psci_non_cpu_pd_nodes (psci_register_spd_pm_hook spd s) = psci_non_cpu_pd_nodes s"
  "psci_req_local_pwr_states (psci_register_spd_pm_hook spd s) = psci_req_local_pwr_states s"
  "psci_svc_cpu_data (psci_register_spd_pm_hook spd s) = psci_svc_cpu_data s"
  "stack (psci_register_spd_pm_hook spd s) = stack s"
  "lock_log (psci_register_spd_pm_hook spd s) = lock_log s"
  by (simp_all add: psci_register_spd_pm_hook_def Let_def)

lemma start_inv:
  assumes "coordinated_start pf s"
  shows "psci_inv pf s"
proof -
  obtain me p t where me: "me < desc_cpus pf" and t: "psci_setup pf me (psci_bss p) = Ret 0 t"
    and s: "s = t \<or> (\<exists>spd. s = psci_register_spd_pm_hook spd t)"
    and ok: "valid_tree_desc pf" "platform_coordinated pf"
    using assms by (auto simp: coordinated_start_def psci_start_def)
  have boot: "cold_boot_state pf me t"
    using setup_cold_boot[OF ok(1) me, of p] t by auto
  then have "pm_inv pf t" "locks_idle t"
    using cold_boot_inv[OF boot me] by (simp_all add: locks_idle_def cold_boot_state_def)
  moreover have "pm_inv pf (psci_register_spd_pm_hook spd t) = pm_inv pf t" for spd
    by (rule pm_inv_cong) simp_all
  ultimately show ?thesis
    using s ok(2) by (auto simp: psci_inv_def locks_idle_def)
qed

interpretation psci_run: refinement_system "coordinated_start pf" "psci_does pf" "psci_inv pf" aff_abs "aff_step pf" for pf
proof unfold_locales
  show "psci_inv pf s" if "coordinated_start pf s" for s
    using that by (rule start_inv)
  show "psci_inv pf t" if "psci_inv pf s" "psci_step pf s t" for s t
    using that step_inv[of pf _ s t] tidy_locks_idle by (auto simp: psci_inv_def platform_coordinated_def)
  show "aff_step pf e (aff_abs s) (aff_abs t)" if "psci_inv pf s" "psci_does pf e s t" for e s t
    using that step_aff[OF that(2)] by (simp add: psci_inv_def platform_coordinated_def)
qed

lemmas run_inv = psci_run.reach_inv[OF coordinated_reach]

section \<open>A core that is being powered on\<close>

lemma aff_step_pending:
  assumes "aff_step pf ev (A, E, X) (A', E', X')" and "A d = AFF_STATE_ON_PENDING" and "A' d = AFF_STATE_ON_PENDING"
  shows "E' d = E d"
  using assms by (elim aff_stepE) (auto split: if_splits)

definition aff_pending :: "nat \<Rightarrow> 'p psci_state \<Rightarrow> bool" where
  "aff_pending d s \<longleftrightarrow> psci_get_aff_info_state_by_idx d s = AFF_STATE_ON_PENDING"

definition pending_step :: "'p platform \<Rightarrow> nat \<Rightarrow> 'p psci_state \<Rightarrow> 'p psci_state \<Rightarrow> bool" where
  "pending_step pf d s t \<longleftrightarrow> psci_step pf s t \<and> aff_pending d t"

lemma pending_run:
  assumes "(pending_step pf d)\<^sup>*\<^sup>* s t" and inv: "psci_inv pf s" and "aff_pending d s"
  shows "psci_inv pf t \<and> aff_pending d t \<and> warmboot_ep_info t d = warmboot_ep_info s d \<and> psci_plat_core_count t = psci_plat_core_count s"
  using assms(1)
proof (induction rule: rtranclp_induct)
  case (step u v)
  then obtain ev where uv: "psci_does pf ev u v" and inv: "psci_inv pf u" and pend: "aff_pending d u" "aff_pending d v"
    by (auto simp: pending_step_def)
  have "tidy u v"
    using step_inv[OF uv] inv by (simp add: psci_inv_def platform_coordinated_def)
  then have "psci_plat_core_count v = psci_plat_core_count u"
    using shape_eqD(1)[of v u] by (simp add: tidy_def)
  moreover have "warmboot_ep_info v d = warmboot_ep_info u d"
    by (rule aff_step_pending[OF psci_run.simulates[OF inv uv, unfolded aff_abs_def]])
      (use pend in \<open>simp_all add: aff_pending_def psci_access\<close>)
  ultimately show ?case
    using step.IH psci_run.inv_step[OF inv exI, OF uv] pend(2) by simp
qed (use assms in simp)

lemma pending_boot_returns:
  assumes inv: "pm_inv pf s" and c: "c < psci_plat_core_count s" and pend: "aff_pending c s"
    and stat: "\<not> ENABLE_PSCI_STAT pf" and hook: "pwr_domain_on_finish (psci_plat_pm_ops pf) = Some f"
  shows "\<exists>t. psci_warmboot_entrypoint pf c s = Ret () t"
proof -
  have "core_inv pf s c"
    using inv c by (simp add: pm_inv_def)
  then have "target_pwrlvl (psci_svc_cpu_data s c) = PLAT_MAX_PWR_LVL pf"
    using pend by (auto simp: core_inv_def Let_def aff_pending_def psci_access split: option.splits wfi_frame.splits)
  then have lvl: "get_power_on_target_pwrlvl pf c (put_frame c None s) = Some (PLAT_MAX_PWR_LVL pf)"
    by (simp add: get_power_on_target_pwrlvl_def PSCI_INVALID_PWR_LVL_def psci_access)
  have aff: "psci_get_aff_info_state_by_idx c (put_frame c None s) = AFF_STATE_ON_PENDING"
    using pend by (simp add: aff_pending_def psci_access)
  have finish: "\<exists>t. psci_cpu_on_finish pf c si u = Ret () t" if "psci_get_aff_info_state_by_idx c u = AFF_STATE_ON_PENDING" for si u
  proof -
    let ?v = "psci_spin_unlock_cpu c (psci_spin_lock_cpu c (call_hook (map_option (\<lambda>f. f si) (pwr_domain_on_finish_late (psci_plat_pm_ops pf))) (on_plat (f si) u)))"
    have "psci_get_aff_info_state_by_idx c ?v = AFF_STATE_ON_PENDING"
      using aff_view[of ?v u c] that by simp
    then show ?thesis
      by (simp add: psci_cpu_on_finish_def hook Let_def)
  qed
  define s2 where "s2 si k ns = stat_stop pf si (psci_acquire_pwr_domain_locks k ns (put_frame c None s))" for si k ns
  have aff2: "psci_get_aff_info_state_by_idx c (s2 si k ns) = AFF_STATE_ON_PENDING" for si k ns
    using aff_view[of "s2 si k ns" "put_frame c None s" c] aff by (simp add: s2_def)
  show ?thesis
    unfolding psci_warmboot_entrypoint_def Let_def lvl aff stat_up_def s2_def[symmetric] aff2
    using finish[OF aff2] stat by (simp add: obind_Ret_eq)
qed

lemma cpu_on_start_success:
  assumes run: "psci_cpu_on_start pf d m ep s = Ret r t" and r: "word_of_int r = (0::u64)"
  shows "view t = view (psci_set_aff_info_state_by_idx d AFF_STATE_ON_PENDING (put_ep d ep s))"
proof -
  obtain on_hook fin where hooks: "pwr_domain_on (psci_plat_pm_ops pf) = Some on_hook" "pwr_domain_on_finish (psci_plat_pm_ops pf) = Some fin"
    and d: "d < PLATFORM_CORE_COUNT pf"
    using run r by (auto simp: cpu_on_start_eq split: if_splits option.splits)
  have off: "psci_get_aff_info_state_by_idx d s = AFF_STATE_OFF"
    using run r d hooks by (cases "psci_get_aff_info_state_by_idx d s") (auto simp: cpu_on_start_eq cpu_on_validate_state_def Let_def)
  define s2 where "s2 = put_ep d ep (psci_spin_lock_cpu d s)"
  define s4 where "s4 = psci_set_aff_info_state_by_idx d AFF_STATE_ON_PENDING (call_hook (map_option (\<lambda>f. f m) (spd_hook svc_on s2)) s2)"
  obtain rc p where on: "on_hook m (plat s4) = (rc, p)"
    by fastforce
  have "t = psci_spin_unlock_cpu d (s4\<lparr>plat := p\<rparr>)"
    using run r d hooks off on unfolding cpu_on_start_eq Let_def s2_def[symmetric] s4_def[symmetric]
    by (auto split: if_splits)
  then have "view t = view s4"
    by simp
  also have "\<dots> = view (psci_set_aff_info_state_by_idx d AFF_STATE_ON_PENDING (put_ep d ep s))"
  proof -
    have "view s2 = view (put_ep d ep s)"
      unfolding s2_def by (intro view_cong) simp
    then show ?thesis
      unfolding s4_def by (intro view_cong(1)) simp
  qed
  finally show ?thesis .
qed

lemma cpu_on_success:
  assumes on: "psci_cpu_on pf m entry ctx s = Ret r t" and r: "word_of_int r = (0::u64)"
  defines "d \<equiv> core_pos pf m"
  shows "aff_pending d t" and "ep_pc (warmboot_ep_info t d) = entry" and "ep_args (warmboot_ep_info t d) = ctx # replicate 7 0"
    and "\<exists>f. pwr_domain_on_finish (psci_plat_pm_ops pf) = Some f"
proof -
  obtain rc ep where v: "psci_validate_entry_point pf (plat s) local_ep entry ctx = (rc, ep)"
    by fastforce
  have codes: "rc \<in> {PSCI_E_SUCCESS, PSCI_E_INVALID_ADDRESS}" and ep: "rc = PSCI_E_SUCCESS \<Longrightarrow> ep_pc ep = entry \<and> ep_args ep = ctx # replicate 7 0"
    using validate_entry_point_ep[OF v] by (auto simp: ep_for_def)
  have start: "psci_cpu_on_start pf d m ep s = Ret r t" and rc: "rc = PSCI_E_SUCCESS"
    using on r codes v by (auto simp: psci_cpu_on_def psci_cpu_on_by_core_pos_def d_def split: if_splits)
  show "\<exists>f. pwr_domain_on_finish (psci_plat_pm_ops pf) = Some f"
    using start r by (auto simp: cpu_on_start_eq split: if_splits option.splits)
  have "view t = view (psci_set_aff_info_state_by_idx d AFF_STATE_ON_PENDING (put_ep d ep s))"
    using start r by (rule cpu_on_start_success)
  then show "aff_pending d t" "ep_pc (warmboot_ep_info t d) = entry" "ep_args (warmboot_ep_info t d) = ctx # replicate 7 0"
    using ep[OF rc] view_eqD(5)[of t] aff_view[of t] by (auto simp: aff_pending_def psci_access)
qed

lemma handler_cpu_on:
  assumes "psci_call_of fid x1 x2 x3 = Cpu_On m entry ctx" and "psci_smc_handler pf me fid x1 x2 x3 flags s = Ret 0 t"
  obtains r where "psci_cpu_on pf m entry ctx s = Ret r t" and "word_of_int r = (0::u64)"
proof -
  have "fid = PSCI_CPU_ON_AARCH64 \<and> m = x1 \<and> entry = x2 \<and> ctx = x3 \<or>
      fid = PSCI_CPU_ON_AARCH32 \<and> m = low_word x1 \<and> entry = low_word x2 \<and> ctx = low_word x3"
    using assms(1) by (auto simp: psci_call_of_def split: if_splits)
  then have "as_reg (psci_cpu_on pf m entry ctx s) = Ret 0 t"
    using assms(2) by (auto simp: psci_smc_handler_def smc_cc_64_def psci_smc64_def psci_smc32_def low_word_def split: if_splits)
  then show ?thesis
    using that by (auto simp: as_reg_def obind_Ret_eq)
qed

lemma in_use_powered:
  assumes "pm_inv pf s" and "c < psci_plat_core_count s" and "in_use s c" and "1 \<le> l" "l \<le> PLAT_MAX_PWR_LVL pf"
  shows "node_state s (ancestor s c l) = PSCI_LOCAL_STATE_RUN"
proof -
  have own: "core_inv pf s c" and dom: "domains_inv pf s"
    using assms(1,2) by (simp_all add: pm_inv_def)
  show ?thesis
    using in_use_inv(4)[OF own assms(3)] dom assms by (auto simp: asks_run_above_def domains_inv_def)
qed

section \<open>Properties\<close>


lemma demo_build: "\<not> PSCI_OS_INIT_MODE demo" "pwr_coordinator (plat_get_target_pwr_state demo)"
  using demo_coordinator by simp_all

lemma demo_start:
  obtains s where "psci_start demo s" and "psci_plat_core_count s = 4" and "cold_boot_state demo 0 s"
proof -
  obtain t where t: "psci_setup demo 0 (psci_bss ()) = Ret 0 t" "psci_plat_core_count t = 4" "cold_boot_state demo 0 t"
    by (rule demo_boot[of 0]) simp_all
  have "\<exists>me<desc_cpus demo. \<exists>p t'. psci_setup demo me (psci_bss p) = Ret 0 t' \<and> (t = t' \<or> (\<exists>spd. t = psci_register_spd_pm_hook spd t'))"
    by (intro exI[of _ 0] conjI exI[of _ "()"] exI[of _ t]) (simp_all add: t)
  then show ?thesis
    using that[of t] demo_coordinator t by (simp add: psci_start_def)
qed


text \<open>
  C1. A power domain above a core that executes is powered, in a build without OS-initiated mode on a platform
  port whose coordination function meets its contract: in every state the system can reach, after any
  sequence of PSCI calls, suspends, wake-ups and boots of any of the cores, each a step of its own, every
  ancestor domain of a core in use is in the run state, and so is the core itself.
\<close>

theorem psci_running_core_powered:
  assumes reach: "reach (psci_start pf) (psci_step pf) s"
    and build: "\<not> PSCI_OS_INIT_MODE pf" "pwr_coordinator (plat_get_target_pwr_state pf)"
    and c: "c < psci_plat_core_count s" "in_use s c"
  shows "psci_get_cpu_local_state_by_idx c s = PSCI_LOCAL_STATE_RUN \<and>
    (\<forall>l\<in>{1..PLAT_MAX_PWR_LVL pf}. get_non_cpu_pd_node_local_state (ancestor s c l) s = PSCI_LOCAL_STATE_RUN)"
proof -
  have inv: "pm_inv pf s"
    using run_inv[OF reach build] by (simp add: psci_inv_def)
  then have own: "core_inv pf s c"
    using c by (simp add: pm_inv_def)
  show ?thesis
    using in_use_inv(3)[OF own c(2)] in_use_powered[OF inv c] by (simp add: psci_access)
qed

theorem psci_running_core_powered_witness:
  "\<exists>s. reach (psci_start demo) (psci_step demo) s \<and> \<not> PSCI_OS_INIT_MODE demo \<and> pwr_coordinator (plat_get_target_pwr_state demo) \<and>
     0 < psci_plat_core_count s \<and> in_use s 0 \<and> psci_get_cpu_local_state_by_idx 0 s = PSCI_LOCAL_STATE_RUN \<and>
     get_non_cpu_pd_node_local_state (ancestor s 0 1) s = PSCI_LOCAL_STATE_RUN"
proof -
  obtain s where s: "psci_start demo s" "psci_plat_core_count s = 4" "cold_boot_state demo 0 s"
    by (rule demo_start) auto
  have r: "reach (psci_start demo) (psci_step demo) s" and u: "in_use s 0"
    using s by (auto intro: reach.reach_init simp: in_use_def cold_boot_state_def psci_access)
  show ?thesis
    using psci_running_core_powered[OF r demo_build _ u] s(2) r u demo_build by auto
qed

text \<open>
  C4. The locking discipline over the whole run of the system: in every reachable state, the history of
  lock operations takes each lock above all those held, domain locks by level from the bottom and a CPU's
  lock after them, releases them in the reverse order, and leaves none held between two calls. As for the
  other properties of runs, the build is without OS-initiated mode and the platform's coordination function
  meets its contract.
\<close>

theorem psci_lock_discipline:
  assumes "reach (psci_start pf) (psci_step pf) s"
    and "\<not> PSCI_OS_INIT_MODE pf" and "pwr_coordinator (plat_get_target_pwr_state pf)"
  shows "lock_run (\<lambda>n. node_level (psci_non_cpu_pd_nodes s n)) [] (lock_log s) = Some []"
  using run_inv[OF assms] by (simp add: psci_inv_def locks_idle_def)

text \<open>
  C5. The affinity states of the cores, in a build without OS-initiated mode on a platform port whose
  coordination function meets its contract: every step of the system from a reachable state is a step of the
  abstract affinity machine for the same event. A core goes from off to pending only by a CPU_ON call of a core
  that is on which names it as the target, and the entry point and context argument stored for it are those of
  that call; from pending to on only by its own warm boot, which starts it at the entry point stored; and from
  on to off only by its own CPU_OFF. No other call, and no wake-up, changes an affinity state, and only the
  suspend calls of a core store an entry point for a core that is on, its own.
\<close>

theorem psci_affinity_refines:
  assumes reach: "reach (psci_start pf) (psci_step pf) s"
    and build: "\<not> PSCI_OS_INIT_MODE pf" "pwr_coordinator (plat_get_target_pwr_state pf)" and step: "psci_does pf ev s t"
  shows "aff_step pf ev (aff_abs s) (aff_abs t)"
  by (rule psci_run.reach_simulates[OF coordinated_reach[OF reach build] step])

text \<open>
  C2. CPU_ON from the call to the first instruction of the target, in a build without OS-initiated mode on a
  platform port whose coordination function meets its contract, for both function identifiers and a target that
  is a core of the tree: when the SMC returns success, then whatever the other cores do while the
  target is pending, the target's warm boot returns if the build keeps no statistics, and in every build, when it
  has returned, the target is in use with all its ancestor domains in the run state, and its context is the entry
  point and the context argument of the call.
\<close>

theorem psci_cpu_on_delivers:
  assumes start: "reach (psci_start pf) (psci_step pf) s"
    and build: "\<not> PSCI_OS_INIT_MODE pf" "pwr_coordinator (plat_get_target_pwr_state pf)"
    and me: "me < psci_plat_core_count s" "in_use s me"
    and fid: "psci_call_of fid x1 x2 x3 = Cpu_On target entry ctx"
    and call: "psci_smc_handler pf me fid x1 x2 x3 flags s = Ret 0 t"
    and d: "core_pos pf target < psci_plat_core_count s"
    and run: "(pending_step pf (core_pos pf target))\<^sup>*\<^sup>* t u"
  shows "(\<not> ENABLE_PSCI_STAT pf \<longrightarrow> (\<exists>v. psci_warmboot_entrypoint pf (core_pos pf target) u = Ret () v)) \<and>
    (\<forall>v. psci_warmboot_entrypoint pf (core_pos pf target) u = Ret () v \<longrightarrow> in_use v (core_pos pf target) \<and>
      (\<forall>l\<in>{1..PLAT_MAX_PWR_LVL pf}. get_non_cpu_pd_node_local_state (ancestor v (core_pos pf target) l) v = PSCI_LOCAL_STATE_RUN) \<and>
      (\<exists>ep. ns_context v (core_pos pf target) = Some ep \<and> ep_pc ep = entry \<and> ep_args ep = ctx # replicate 7 0))"
proof -
  let ?d = "core_pos pf target"
  obtain r where on: "psci_cpu_on pf target entry ctx s = Ret r t" "word_of_int r = (0::u64)"
    by (rule handler_cpu_on[OF fid call])
  note ok = cpu_on_success[OF on]
  have step: "psci_does pf (Smc me fid x1 x2 x3 flags) s t"
    using call by (intro psci_does.smc[OF me]) simp
  have inv: "psci_inv pf s"
    by (rule run_inv[OF start build])
  have cnt: "psci_plat_core_count t = psci_plat_core_count s"
    using step_inv[OF step] inv shape_eqD(1)[of t s] by (simp add: psci_inv_def platform_coordinated_def tidy_def)
  have u: "psci_inv pf u" "aff_pending ?d u" "warmboot_ep_info u ?d = warmboot_ep_info t ?d" "?d < psci_plat_core_count u"
    using pending_run[OF run psci_run.inv_step[OF inv exI, OF step] ok(1)] d cnt by simp_all
  then have pm: "pm_inv pf u"
    by (simp add: psci_inv_def)
  have arrived: "in_use v ?d \<and> (\<forall>l\<in>{1..PLAT_MAX_PWR_LVL pf}. get_non_cpu_pd_node_local_state (ancestor v ?d l) v = PSCI_LOCAL_STATE_RUN) \<and>
      (\<exists>ep. ns_context v ?d = Some ep \<and> ep_pc ep = entry \<and> ep_args ep = ctx # replicate 7 0)"
    if v: "psci_warmboot_entrypoint pf ?d u = Ret () v" for v
  proof -
    have lv: "leaves (psci_warmboot_entrypoint pf ?d u) v"
      by (simp add: v)
    note boot = warm_boot_aff(1,3)[OF pm u(4) lv]
    have use: "in_use v ?d" and ctx: "ns_context v ?d = Some (warmboot_ep_info t ?d)"
      using boot u(3) by (auto simp: in_use_def aff_abs_def psci_access dest: fun_cong[of _ _ ?d])
    have pmv: "pm_inv pf v" "?d < psci_plat_core_count v"
      using warm_boot_inv[OF pm u(4) _ lv] u(2,4) shape_eqD(1)[of v u] by (auto simp: may_boot_def aff_pending_def tidy_def)
    show ?thesis
      using use ctx ok(2,3) in_use_powered[OF pmv use] by (auto simp: psci_access)
  qed
  show ?thesis
    using arrived ok(4) pending_boot_returns[OF pm u(4,2)] by blast
qed

text \<open>The first CPU_ON on the platform of the examples: core 0 powers core 1 on.\<close>

lemma demo_caps: "and (psci_setup_caps demo) (define_psci_cap PSCI_CPU_ON_AARCH64) \<noteq> 0"
  by (simp add: psci_setup_caps_def cap_if_def PSCI_GENERIC_CAP_def define_psci_cap_def demo_ops_def)

lemma demo_cpu_on:
  assumes boot: "cold_boot_state demo 0 s"
  shows "\<exists>t. psci_smc_handler demo 0 PSCI_CPU_ON_AARCH64 1 0x8000 7 1 s = Ret 0 t"
proof -
  have "psci_get_aff_info_state_by_idx 1 s = AFF_STATE_OFF" "psci_caps s = psci_setup_caps demo"
    using boot by (simp_all add: cold_boot_state_def psci_access)
  then show ?thesis
    using demo_caps
    by (simp add: psci_smc_handler_def is_caller_non_secure_def demo_def smc_cc_64_def psci_smc64_def psci_cpu_on_def psci_cpu_on_by_core_pos_def
        is_valid_mpidr_def core_pos_def psci_validate_entry_point_def psci_get_ns_ep_info_def demo_ops_def cpu_on_start_eq as_reg_def Let_def)
qed

lemma demo_call: "psci_call_of PSCI_CPU_ON_AARCH64 1 0x8000 7 = Cpu_On 1 0x8000 7" "core_pos demo 1 = 1"
  by (simp_all add: psci_call_of_def core_pos_def demo_def)

lemma demo_first_call:
  obtains s t where "reach (psci_start demo) (psci_step demo) s" and "psci_plat_core_count s = 4" and "in_use s 0"
    and "psci_smc_handler demo 0 PSCI_CPU_ON_AARCH64 1 0x8000 7 1 s = Ret 0 t"
    and "psci_does demo (Smc 0 PSCI_CPU_ON_AARCH64 1 0x8000 7 1) s t"
    and "psci_get_aff_info_state_by_idx 1 s = AFF_STATE_OFF" and "psci_get_aff_info_state_by_idx 1 t = AFF_STATE_ON_PENDING"
proof -
  obtain s where s: "psci_start demo s" "psci_plat_core_count s = 4" "cold_boot_state demo 0 s"
    by (rule demo_start) auto
  obtain t where t: "psci_smc_handler demo 0 PSCI_CPU_ON_AARCH64 1 0x8000 7 1 s = Ret 0 t"
    using demo_cpu_on[OF s(3)] by blast
  have ok: "leaves (psci_smc_handler demo 0 PSCI_CPU_ON_AARCH64 1 0x8000 7 1 s) t" "in_use s 0" "0 < psci_plat_core_count s"
    "psci_get_aff_info_state_by_idx 1 s = AFF_STATE_OFF"
    using s t by (simp_all add: in_use_def cold_boot_state_def psci_access)
  then have "psci_does demo (Smc 0 PSCI_CPU_ON_AARCH64 1 0x8000 7 1) s t"
    by (intro psci_does.smc)
  moreover have "aff_pending (core_pos demo 1) t"
    by (rule handler_cpu_on[OF demo_call(1) t]) (rule cpu_on_success(1))
  ultimately show ?thesis
    using that[of s t] s t ok(2,4) reach.reach_init[of "psci_start demo" s] by (simp add: aff_pending_def demo_call(2))
qed

theorem psci_lock_discipline_witness:
  "\<exists>s. reach (psci_start demo) (psci_step demo) s \<and> \<not> PSCI_OS_INIT_MODE demo \<and> pwr_coordinator (plat_get_target_pwr_state demo) \<and>
     psci_get_aff_info_state_by_idx 1 s = AFF_STATE_ON_PENDING \<and>
     lock_run (\<lambda>n. node_level (psci_non_cpu_pd_nodes s n)) [] (lock_log s) = Some []"
proof -
  obtain s t where st: "reach (psci_start demo) (psci_step demo) s" "psci_does demo (Smc 0 PSCI_CPU_ON_AARCH64 1 0x8000 7 1) s t"
    "psci_get_aff_info_state_by_idx 1 t = AFF_STATE_ON_PENDING"
    by (rule demo_first_call) blast
  have t: "reach (psci_start demo) (psci_step demo) t"
    using st(1,2) by (blast intro: reach.reach_step)
  then show ?thesis
    using psci_lock_discipline[OF t demo_build] st(3) demo_build by blast
qed

theorem psci_affinity_refines_witness:
  "\<exists>s t. reach (psci_start demo) (psci_step demo) s \<and> \<not> PSCI_OS_INIT_MODE demo \<and> pwr_coordinator (plat_get_target_pwr_state demo) \<and>
     psci_does demo (Smc 0 PSCI_CPU_ON_AARCH64 1 0x8000 7 1) s t \<and> fst (aff_abs s) 1 = AFF_STATE_OFF \<and> fst (aff_abs t) 1 = AFF_STATE_ON_PENDING \<and>
     aff_step demo (Smc 0 PSCI_CPU_ON_AARCH64 1 0x8000 7 1) (aff_abs s) (aff_abs t)"
proof -
  obtain s t where st: "reach (psci_start demo) (psci_step demo) s" "psci_does demo (Smc 0 PSCI_CPU_ON_AARCH64 1 0x8000 7 1) s t"
    "psci_get_aff_info_state_by_idx 1 s = AFF_STATE_OFF" "psci_get_aff_info_state_by_idx 1 t = AFF_STATE_ON_PENDING"
    by (rule demo_first_call) blast
  have "fst (aff_abs s) 1 = AFF_STATE_OFF" "fst (aff_abs t) 1 = AFF_STATE_ON_PENDING"
    using st(3,4) by (simp_all add: aff_abs_def psci_access)
  then show ?thesis
    using psci_affinity_refines[OF st(1) demo_build st(2)] st demo_build by blast
qed

theorem psci_cpu_on_delivers_witness:
  "\<exists>s t v ep. reach (psci_start demo) (psci_step demo) s \<and> \<not> PSCI_OS_INIT_MODE demo \<and> pwr_coordinator (plat_get_target_pwr_state demo) \<and>
     psci_smc_handler demo 0 PSCI_CPU_ON_AARCH64 1 0x8000 7 1 s = Ret 0 t \<and> core_pos demo 1 < psci_plat_core_count s \<and>
     psci_warmboot_entrypoint demo 1 t = Ret () v \<and> in_use v 1 \<and> ns_context v 1 = Some ep \<and> ep_pc ep = 0x8000"
proof -
  obtain s t where st: "reach (psci_start demo) (psci_step demo) s" "psci_plat_core_count s = 4" "in_use s 0"
    "psci_smc_handler demo 0 PSCI_CPU_ON_AARCH64 1 0x8000 7 1 s = Ret 0 t"
    by (rule demo_first_call) blast
  have lim: "0 < psci_plat_core_count s" "core_pos demo 1 < psci_plat_core_count s"
    using st(2) by (simp_all add: demo_call(2))
  have no_stat: "\<not> ENABLE_PSCI_STAT demo"
    by (simp add: demo_def)
  note ok = psci_cpu_on_delivers[OF st(1) demo_build lim(1) st(3) demo_call(1) st(4) lim(2), of t, unfolded demo_call(2), OF rtranclp.rtrancl_refl]
  obtain v where v: "psci_warmboot_entrypoint demo 1 t = Ret () v"
    using ok no_stat by blast
  then show ?thesis
    using ok st(1,4) lim(2) demo_build by blast
qed

end
