(* ===== verification/Psci_Interface.thy ===== *)
theory Psci_Interface
  imports Psci_System
begin

unbundle bit_operations_syntax

text \<open>
  The interface of PSCI as a caller sees it: the encoding of the power-state parameter, what the
  dispatcher refuses, the error codes of CPU_ON, and the refusal of an OS-initiated suspend.
\<close>

section \<open>The power-state parameter\<close>

lemma pstate_masks:
  "(0xffff :: u32) = mask 16" "(1 :: u32) = mask 1" "(3 :: u32) = mask 2"
  "(0xFCFE0000 :: u32) = push_bit 26 (mask 6) OR push_bit 17 (mask 7)"
  by (simp_all add: mask_eq_exp_minus_1)

lemma make_powerstate_bits:
  "bit (psci_make_powerstate state_id type pwrlvl) i \<longleftrightarrow>
    (i < 16 \<and> bit state_id i) \<or> (i = 16 \<and> bit type 0) \<or> (24 \<le> i \<and> i < 26 \<and> bit pwrlvl (i - 24))"
  unfolding psci_make_powerstate_def pstate_masks bit_or_iff bit_push_bit_iff bit_and_iff bit_mask_iff
  by auto

lemma check_power_state_bits:
  assumes "\<not> PSCI_EXTENDED_STATE_ID pf" and "psci_check_power_state pf p = 0" and "bit p i"
  shows "i < 16 \<or> i = 16 \<or> (24 \<le> i \<and> i < 26)"
proof -
  have "\<not> bit (p AND (push_bit 26 (mask 6) OR push_bit 17 (mask 7))) i"
    using assms(1,2) by (simp add: psci_check_power_state_def pstate_masks(4)[symmetric])
  then show ?thesis
    using bit_imp_le_length[OF assms(3)] assms(3) unfolding bit_or_iff bit_push_bit_iff bit_and_iff bit_mask_iff by auto
qed

lemma pstate_fields_bits:
  assumes "\<not> PSCI_EXTENDED_STATE_ID pf"
  shows "bit (psci_get_pstate_id pf p) i \<longleftrightarrow> i < 16 \<and> bit p i"
    and "bit (psci_get_pstate_type pf p) i \<longleftrightarrow> i = 0 \<and> bit p 16"
    and "bit (psci_get_pstate_pwrlvl p) i \<longleftrightarrow> i < 2 \<and> bit p (24 + i)"
  using assms unfolding psci_get_pstate_id_def psci_get_pstate_type_def psci_get_pstate_pwrlvl_def pstate_masks
  by (auto simp: bit_simps ac_simps)

lemma small_bits:
  fixes x :: u32
  shows "x < 0x10000 \<Longrightarrow> bit x i \<Longrightarrow> i < 16" "x < 2 \<Longrightarrow> bit x i \<Longrightarrow> i = 0" "x < 4 \<Longrightarrow> bit x i \<Longrightarrow> i < 2"
  using bit_less_exp[of x 16 i] bit_less_exp[of x 1 i] bit_less_exp[of x 2 i] by auto

text \<open>
  C33. The power-state parameter in its original format: for every state identifier of 16 bits, state type
  of one bit and power level of two bits, the three accessors give back what \<open>psci_make_powerstate\<close>
  packed and the reserved bits are clear, and every parameter with its reserved bits clear is the
  packing of its three fields.
\<close>

theorem psci_powerstate_roundtrip:
  assumes ext: "\<not> PSCI_EXTENDED_STATE_ID pf" and small: "state_id < 0x10000" "type < 2" "pwrlvl < 4" and "psci_check_power_state pf p = 0"
  shows "psci_get_pstate_id pf (psci_make_powerstate state_id type pwrlvl) = state_id \<and>
    psci_get_pstate_type pf (psci_make_powerstate state_id type pwrlvl) = type \<and>
    psci_get_pstate_pwrlvl (psci_make_powerstate state_id type pwrlvl) = pwrlvl \<and>
    psci_check_power_state pf (psci_make_powerstate state_id type pwrlvl) = 0 \<and>
    psci_make_powerstate (psci_get_pstate_id pf p) (psci_get_pstate_type pf p) (psci_get_pstate_pwrlvl p) = p"
proof (intro conjI bit_eqI)
  note fields = pstate_fields_bits[OF ext] make_powerstate_bits
  fix i
  show "bit (psci_get_pstate_id pf (psci_make_powerstate state_id type pwrlvl)) i = bit state_id i"
    using small_bits(1)[OF small(1), of i] by (auto simp: fields)
  show "bit (psci_get_pstate_type pf (psci_make_powerstate state_id type pwrlvl)) i = bit type i"
    using small_bits(2)[OF small(2), of i] by (auto simp: fields)
  show "bit (psci_get_pstate_pwrlvl (psci_make_powerstate state_id type pwrlvl)) i = bit pwrlvl i"
    using small_bits(3)[OF small(3), of i] by (auto simp: fields)
  show "bit (psci_make_powerstate (psci_get_pstate_id pf p) (psci_get_pstate_type pf p) (psci_get_pstate_pwrlvl p)) i = bit p i"
    using check_power_state_bits[OF ext assms(5), of i] by (auto simp: fields)
  show "bit (psci_check_power_state pf (psci_make_powerstate state_id type pwrlvl)) i = bit 0 i"
    using ext by (simp add: psci_check_power_state_def pstate_masks(4) bit_or_iff bit_push_bit_iff bit_and_iff bit_mask_iff fields) auto
qed

theorem psci_powerstate_roundtrip_witness:
  "\<not> PSCI_EXTENDED_STATE_ID demo \<and> psci_check_power_state demo 0x1010002 = 0 \<and>
   psci_get_pstate_id demo (psci_make_powerstate 2 1 1) = 2 \<and> psci_get_pstate_type demo (psci_make_powerstate 2 1 1) = 1 \<and>
   psci_get_pstate_pwrlvl (psci_make_powerstate 2 1 1) = 1 \<and>
   psci_make_powerstate (psci_get_pstate_id demo 0x1010002) (psci_get_pstate_type demo 0x1010002) (psci_get_pstate_pwrlvl 0x1010002) = 0x1010002"
proof -
  have "\<not> PSCI_EXTENDED_STATE_ID demo" "psci_check_power_state demo 0x1010002 = 0"
    by (simp_all add: demo_def psci_check_power_state_def)
  then show ?thesis
    using psci_powerstate_roundtrip[of demo 2 1 1 "0x1010002"] by simp
qed

section \<open>What the dispatcher refuses\<close>

text \<open>The functions of the dispatcher's two switches.\<close>

definition psci_fids64 :: "u32 list" where
  "psci_fids64 = [PSCI_CPU_SUSPEND_AARCH64, PSCI_CPU_ON_AARCH64, PSCI_AFFINITY_INFO_AARCH64, PSCI_MIG_AARCH64,
     PSCI_MIG_INFO_UP_CPU_AARCH64, PSCI_NODE_HW_STATE_AARCH64, PSCI_SYSTEM_SUSPEND_AARCH64, PSCI_STAT_RESIDENCY_AARCH64,
     PSCI_STAT_COUNT_AARCH64, PSCI_MEM_CHK_RANGE_AARCH64, PSCI_SYSTEM_RESET2_AARCH64]"

definition psci_fids32 :: "u32 list" where
  "psci_fids32 = [PSCI_VERSION, PSCI_CPU_OFF, PSCI_CPU_SUSPEND_AARCH32, PSCI_CPU_ON_AARCH32, PSCI_AFFINITY_INFO_AARCH32,
     PSCI_MIG_AARCH32, PSCI_MIG_INFO_TYPE, PSCI_MIG_INFO_UP_CPU_AARCH32, PSCI_NODE_HW_STATE_AARCH32, PSCI_SYSTEM_SUSPEND_AARCH32,
     PSCI_SYSTEM_OFF, PSCI_SYSTEM_RESET, PSCI_FEATURES, PSCI_SET_SUSPEND_MODE, PSCI_STAT_RESIDENCY_AARCH32,
     PSCI_STAT_COUNT_AARCH32, PSCI_MEM_PROTECT, PSCI_MEM_CHK_RANGE_AARCH32, PSCI_SYSTEM_RESET2_AARCH32]"

lemma smc64_unknown: "fid \<notin> set psci_fids64 \<Longrightarrow> psci_smc64 pf me fid x1 x2 x3 s = Ret SMC_UNK s"
  by (simp add: psci_smc64_def psci_fids64_def)

lemma smc32_unknown: "fid \<notin> set psci_fids32 \<Longrightarrow> psci_smc32 pf me fid x1 x2 x3 s = Ret SMC_UNK s"
  by (simp add: psci_smc32_def psci_fids32_def)

lemma fid_format:
  assumes "fid \<in> set psci_fids64 \<union> set psci_fids32"
  shows "is_std_svc_call fid" "is_valid_fast_smc fid" "is_psci_fid fid"
  using assms by (auto simp: psci_fids64_def psci_fids32_def is_std_svc_call_def is_valid_fast_smc_def is_psci_fid_def)

lemma fid64:
  assumes "fid \<in> set psci_fids64"
  shows "PSCI_CAP_64BIT_MASK AND define_psci_cap fid = define_psci_cap fid"
  using assms by (auto simp: psci_fids64_def PSCI_CAP_64BIT_MASK_def define_psci_cap_def)

lemma fid32_cc:
  assumes "fid \<in> set psci_fids32"
  shows "\<not> smc_cc_64 fid"
  using assms by (auto simp: psci_fids32_def smc_cc_64_def)

text \<open>
  C14. What PSCI_FEATURES reports as not supported, the dispatcher refuses: for every function identifier, every
  caller and every argument, such a call returns the unknown-function code and changes nothing.
\<close>

theorem psci_features_unsupported:
  assumes "psci_features pf fid s = PSCI_E_NOT_SUPPORTED"
  shows "psci_smc_handler pf me fid x1 x2 x3 flags s = Ret SMC_UNK s"
proof -
  have cap: "psci_caps s AND define_psci_cap fid = 0" if "fid \<in> (if smc_cc_64 fid then set psci_fids64 else set psci_fids32)"
    using assms that fid_format[of fid] fid64[of fid]
    by (auto simp: psci_features_def Let_def and.assoc split: if_splits)
  show ?thesis
    using cap by (auto simp: psci_smc_handler_def intro: smc64_unknown smc32_unknown)
qed

theorem psci_features_unsupported_witness:
  "\<exists>s. psci_features demo 0xC4000002 s = PSCI_E_NOT_SUPPORTED \<and> psci_caps s AND define_psci_cap 0xC4000002 \<noteq> 0 \<and>
     psci_smc_handler demo 0 0xC4000002 0 0 0 1 s = Ret SMC_UNK s"
proof -
  obtain s where s: "cold_boot_state demo 0 s"
    by (rule demo_start) auto
  have "psci_setup_caps demo AND define_psci_cap 0xC4000002 \<noteq> 0" "psci_features demo 0xC4000002 s = PSCI_E_NOT_SUPPORTED"
    by (simp_all add: psci_setup_caps_def cap_if_def PSCI_GENERIC_CAP_def define_psci_cap_def demo_ops_def psci_features_def
        smc_cc_64_def PSCI_CAP_64BIT_MASK_def is_std_svc_call_def is_valid_fast_smc_def is_psci_fid_def and.assoc)
  then show ?thesis
    using psci_features_unsupported[of demo "0xC4000002" s 0 0 0 0 1] s by (auto simp: cold_boot_state_def)
qed

section \<open>CPU_ON\<close>

text \<open>
  The entry point of a call is refused by the platform's own check, or because it is odd when the lower
  level runs in AArch64.
\<close>

definition entry_refused :: "'p platform \<Rightarrow> 'p \<Rightarrow> uptr \<Rightarrow> bool" where
  "entry_refused pf p entry \<longleftrightarrow>
     (case validate_ns_entrypoint (psci_plat_pm_ops pf) of None \<Rightarrow> False | Some f \<Rightarrow> f entry p \<noteq> PSCI_E_SUCCESS) \<or>
     bit (read_scr_el3 pf p) 10 \<and> bit entry 0"

lemma validate_entry_point_refused:
  assumes "psci_validate_entry_point pf p ep0 entry ctx = (rc, ep)"
  shows "rc = (if entry_refused pf p entry then PSCI_E_INVALID_ADDRESS else PSCI_E_SUCCESS)"
  using assms by (auto simp: psci_validate_entry_point_def psci_get_ns_ep_info_def Let_def entry_refused_def split: option.splits if_splits)

text \<open>The target's lock is taken and released once.\<close>

definition locked_once :: "nat \<Rightarrow> 'p psci_state \<Rightarrow> 'p psci_state" where
  "locked_once d s = s\<lparr>lock_log := lock_log s @ [Spin_Lock_Cpu d, Spin_Unlock_Cpu d]\<rparr>"

lemma cpu_on_start_returns:
  assumes run: "psci_cpu_on_start pf d m ep s = Ret rc t" and d: "d < PLATFORM_CORE_COUNT pf"
  shows "case psci_get_aff_info_state_by_idx d s of
      AFF_STATE_ON \<Rightarrow> rc = PSCI_E_ALREADY_ON \<and> t = locked_once d s
    | AFF_STATE_ON_PENDING \<Rightarrow> rc = PSCI_E_ON_PENDING \<and> t = locked_once d s
    | AFF_STATE_OFF \<Rightarrow> rc \<in> {PSCI_E_SUCCESS, PSCI_E_INTERN_FAIL} \<and>
       (\<exists>p. t = (locked_once d (psci_set_aff_info_state_by_idx d
          (if rc = PSCI_E_SUCCESS then AFF_STATE_ON_PENDING else AFF_STATE_OFF) (put_ep d ep s)))\<lparr>plat := p\<rparr>)"
proof -
  obtain on_hook fin where hooks: "pwr_domain_on (psci_plat_pm_ops pf) = Some on_hook" "pwr_domain_on_finish (psci_plat_pm_ops pf) = Some fin"
    using run d by (auto simp: cpu_on_start_eq split: if_splits option.splits)
  show ?thesis
  proof (cases "psci_get_aff_info_state_by_idx d s = AFF_STATE_OFF")
    case False
    then show ?thesis
      using run d hooks by (cases "psci_get_aff_info_state_by_idx d s")
        (auto simp: cpu_on_start_eq cpu_on_validate_state_def Let_def locked_once_def psci_spin_lock_cpu_def psci_spin_unlock_cpu_def log_lock_def)
  next
    case True
    define s2 where "s2 = put_ep d ep (psci_spin_lock_cpu d s)"
    define s4 where "s4 = psci_set_aff_info_state_by_idx d AFF_STATE_ON_PENDING (call_hook (map_option (\<lambda>f. f m) (spd_hook svc_on s2)) s2)"
    obtain rc' p where on: "on_hook m (plat s4) = (rc', p)"
      by fastforce
    have "rc = rc'" "rc \<in> {PSCI_E_SUCCESS, PSCI_E_INTERN_FAIL}"
      "t = psci_spin_unlock_cpu d ((if rc = PSCI_E_SUCCESS then id else psci_set_aff_info_state_by_idx d AFF_STATE_OFF) (s4\<lparr>plat := p\<rparr>))"
      using run d hooks True on unfolding cpu_on_start_eq Let_def s2_def[symmetric] s4_def[symmetric] by (auto split: if_splits)
    moreover have "s4\<lparr>plat := p\<rparr> = (psci_set_aff_info_state_by_idx d AFF_STATE_ON_PENDING s2)\<lparr>plat := p\<rparr>"
      by (simp add: s4_def call_hook_def on_plat_def psci_access split: option.splits)
    ultimately show ?thesis
      using True by (auto simp: s2_def locked_once_def psci_spin_lock_cpu_def psci_spin_unlock_cpu_def psci_access intro!: exI[of _ p])
  qed
qed

text \<open>
  C12. What CPU_ON returns, in the order of its checks, and what each answer leaves. An unknown target is
  INVALID_PARAMS; then a refused entry point is INVALID_ADDRESS; then a position outside the platform is
  INVALID_PARAMS, and these three change nothing. Then a target that is on is ALREADY_ON and a pending one
  ON_PENDING, and these two change nothing but the trace of the target's lock. Otherwise the platform decides:
  INTERN_FAIL leaves the target off, SUCCESS makes it pending, and in both cases the entry point and context of
  the call are stored for the target and nothing but the platform's own state changes besides.
\<close>

theorem psci_cpu_on_errors:
  assumes call: "psci_cpu_on pf target entry ctx s = Ret rc t"
  defines "d \<equiv> core_pos pf target"
  shows "if \<not> is_valid_mpidr pf target then rc = PSCI_E_INVALID_PARAMS \<and> t = s
    else if entry_refused pf (plat s) entry then rc = PSCI_E_INVALID_ADDRESS \<and> t = s
    else if PLATFORM_CORE_COUNT pf \<le> d then rc = PSCI_E_INVALID_PARAMS \<and> t = s
    else if psci_get_aff_info_state_by_idx d s = AFF_STATE_ON then rc = PSCI_E_ALREADY_ON \<and> t = locked_once d s
    else if psci_get_aff_info_state_by_idx d s = AFF_STATE_ON_PENDING then rc = PSCI_E_ON_PENDING \<and> t = locked_once d s
    else rc \<in> {PSCI_E_SUCCESS, PSCI_E_INTERN_FAIL} \<and>
      (\<exists>p ep. ep_for entry ctx ep \<and> t = (locked_once d (psci_set_aff_info_state_by_idx d
         (if rc = PSCI_E_SUCCESS then AFF_STATE_ON_PENDING else AFF_STATE_OFF) (put_ep d ep s)))\<lparr>plat := p\<rparr>)"
proof -
  obtain vrc ep where v: "psci_validate_entry_point pf (plat s) local_ep entry ctx = (vrc, ep)"
    by fastforce
  note vrc = validate_entry_point_refused[OF v] and ep = validate_entry_point_ep(2)[OF v]
  show ?thesis
  proof (cases "is_valid_mpidr pf target \<and> \<not> entry_refused pf (plat s) entry \<and> d < PLATFORM_CORE_COUNT pf")
    case False
    then show ?thesis
      using call v vrc by (auto simp: psci_cpu_on_def psci_cpu_on_by_core_pos_def cpu_on_start_eq d_def split: if_splits)
  next
    case True
    then have "psci_cpu_on_start pf d target ep s = Ret rc t"
      using call v vrc by (simp add: psci_cpu_on_def psci_cpu_on_by_core_pos_def d_def)
    then show ?thesis
      using cpu_on_start_returns[of pf d target ep s rc t] True vrc ep
      by (cases "psci_get_aff_info_state_by_idx d s") (simp_all split del: if_split, blast)
  qed
qed

theorem psci_cpu_on_errors_witness:
  "\<exists>s t. psci_cpu_on demo 0 0x8000 0 s = Ret PSCI_E_ALREADY_ON t \<and> psci_get_aff_info_state_by_idx 0 s = AFF_STATE_ON \<and> t = locked_once 0 s"
proof -
  obtain s where s: "cold_boot_state demo 0 s"
    by (rule demo_start) auto
  have aff: "psci_get_aff_info_state_by_idx 0 s = AFF_STATE_ON"
    using s by (simp add: cold_boot_state_def psci_access)
  obtain t where t: "psci_cpu_on demo 0 0x8000 0 s = Ret PSCI_E_ALREADY_ON t"
    using aff by (simp add: psci_cpu_on_def psci_cpu_on_by_core_pos_def demo_def is_valid_mpidr_def core_pos_def
        psci_validate_entry_point_def psci_get_ns_ep_info_def demo_ops_def cpu_on_start_eq cpu_on_validate_state_def Let_def)
  have pos: "core_pos demo 0 = 0"
    by (simp add: core_pos_def demo_def)
  show ?thesis
    using psci_cpu_on_errors[OF t] t aff unfolding pos by (auto split: if_splits)
qed

section \<open>OS-initiated suspend\<close>

lemma update_req_loop_spec:
  "1 \<le> lvl \<Longrightarrow> lvl + k \<le> PLAT_MAX_PWR_LVL pf + 1 \<Longrightarrow> c < psci_plat_core_count s \<Longrightarrow>
   update_req_loop pf k lvl e c si prev s =
     Ret (\<lambda>r. if lvl \<le> Suc r \<and> Suc r < lvl + k then psci_req_local_pwr_states s r c else prev r)
      (s\<lparr>psci_req_local_pwr_states := (\<lambda>r d. if d = c \<and> lvl \<le> Suc r \<and> Suc r < lvl + k
          then pwr_domain_state si (min (Suc r) e) else psci_req_local_pwr_states s r d)\<rparr>)"
proof (induction k arbitrary: lvl prev s)
  case 0
  have "(\<lambda>r. if lvl \<le> Suc r \<and> Suc r < lvl + 0 then psci_req_local_pwr_states s r c else prev r) = prev"
    "(\<lambda>r d. if d = c \<and> lvl \<le> Suc r \<and> Suc r < lvl + 0 then pwr_domain_state si (min (Suc r) e) else psci_req_local_pwr_states s r d) =
      psci_req_local_pwr_states s"
    by (auto simp: fun_eq_iff)
  then show ?case
    by (simp del: add_0_right)
next
  case (Suc k)
  let ?X = "\<lambda>r. pwr_domain_state si (min (Suc r) e)"
  let ?s = "s\<lparr>psci_req_local_pwr_states := (\<lambda>i d. if d = c \<and> Suc i = lvl then ?X (lvl - 1) else psci_req_local_pwr_states s i d)\<rparr>"
  have req: "(if lvl \<le> e then pwr_domain_state si lvl else pwr_domain_state si e) = ?X (lvl - 1)"
    using Suc.prems by (simp add: min_def)
  have upd: "psci_set_req_local_pwr_state pf lvl c (?X (lvl - 1)) s = ?s"
    using Suc.prems by (intro set_req_eq) simp_all
  have get: "psci_get_req_local_pwr_states pf lvl c 1 s = Some [psci_req_local_pwr_states s (lvl - 1) c]"
    using Suc.prems by (simp add: psci_get_req_local_pwr_states_def)
  have rows: "(\<lambda>r d. if d = c \<and> lvl + 1 \<le> Suc r \<and> Suc r < lvl + 1 + k then ?X r else psci_req_local_pwr_states ?s r d) =
      (\<lambda>r d. if d = c \<and> lvl \<le> Suc r \<and> Suc r < lvl + Suc k then ?X r else psci_req_local_pwr_states s r d)"
    by (auto simp: fun_eq_iff)
  have olds: "(\<lambda>r. if lvl + 1 \<le> Suc r \<and> Suc r < lvl + 1 + k then psci_req_local_pwr_states ?s r c else
        (prev(lvl - 1 := psci_req_local_pwr_states s (lvl - 1) c)) r) =
      (\<lambda>r. if lvl \<le> Suc r \<and> Suc r < lvl + Suc k then psci_req_local_pwr_states s r c else prev r)"
    using Suc.prems by (auto simp: fun_eq_iff)
  have "update_req_loop pf (Suc k) lvl e c si prev s =
      update_req_loop pf k (lvl + 1) e c si (prev(lvl - 1 := psci_req_local_pwr_states s (lvl - 1) c)) ?s"
    unfolding update_req_loop.simps get req Let_def upd by simp
  also have "\<dots> = Ret (\<lambda>r. if lvl \<le> Suc r \<and> Suc r < lvl + Suc k then psci_req_local_pwr_states s r c else prev r)
      (?s\<lparr>psci_req_local_pwr_states := (\<lambda>r d. if d = c \<and> lvl \<le> Suc r \<and> Suc r < lvl + Suc k then ?X r else psci_req_local_pwr_states s r d)\<rparr>)"
    unfolding rows[symmetric] olds[symmetric] using Suc.prems by (intro Suc.IH) simp_all
  finally show ?case
    by simp
qed

lemma restore_req_loop_spec:
  "1 \<le> lvl \<Longrightarrow> lvl + k \<le> PLAT_MAX_PWR_LVL pf + 1 \<Longrightarrow> c < psci_plat_core_count s \<Longrightarrow>
   restore_req_loop pf k lvl c prev s =
      s\<lparr>psci_req_local_pwr_states := (\<lambda>r d. if d = c \<and> lvl \<le> Suc r \<and> Suc r < lvl + k then prev r else psci_req_local_pwr_states s r d)\<rparr>"
proof (induction k arbitrary: lvl s)
  case 0
  have "(\<lambda>r d. if d = c \<and> lvl \<le> Suc r \<and> Suc r < lvl + 0 then prev r else psci_req_local_pwr_states s r d) = psci_req_local_pwr_states s"
    by (auto simp: fun_eq_iff)
  then show ?case
    by (simp del: add_0_right)
next
  case (Suc k)
  let ?s = "s\<lparr>psci_req_local_pwr_states := (\<lambda>i d. if d = c \<and> Suc i = lvl then prev (lvl - 1) else psci_req_local_pwr_states s i d)\<rparr>"
  have upd: "psci_set_req_local_pwr_state pf lvl c (prev (lvl - 1)) s = ?s"
    using Suc.prems by (intro set_req_eq) simp_all
  have rows: "(\<lambda>r d. if d = c \<and> lvl + 1 \<le> Suc r \<and> Suc r < lvl + 1 + k then prev r else psci_req_local_pwr_states ?s r d) =
      (\<lambda>r d. if d = c \<and> lvl \<le> Suc r \<and> Suc r < lvl + Suc k then prev r else psci_req_local_pwr_states s r d)"
    by (auto simp: fun_eq_iff)
  have "restore_req_loop pf (Suc k) lvl c prev s = restore_req_loop pf k (lvl + 1) c prev ?s"
    unfolding restore_req_loop.simps upd ..
  also have "\<dots> = ?s\<lparr>psci_req_local_pwr_states := (\<lambda>r d. if d = c \<and> lvl \<le> Suc r \<and> Suc r < lvl + Suc k then prev r else psci_req_local_pwr_states s r d)\<rparr>"
    unfolding rows[symmetric] using Suc.prems by (intro Suc.IH) simp_all
  finally show ?case
    by simp
qed

lemma update_then_restore:
  assumes "c < psci_plat_core_count s" and "max_cpu_suspend_pwrlvl pf \<le> PLAT_MAX_PWR_LVL pf"
    and "psci_update_req_local_pwr_states pf e c si s = Ret prev t"
  shows "psci_restore_req_local_pwr_states pf c prev t = s"
proof -
  let ?k = "max_cpu_suspend_pwrlvl pf"
  have upd: "prev = (\<lambda>r. if 1 \<le> Suc r \<and> Suc r < 1 + ?k then psci_req_local_pwr_states s r c else 0)"
    "t = s\<lparr>psci_req_local_pwr_states := (\<lambda>r d. if d = c \<and> 1 \<le> Suc r \<and> Suc r < 1 + ?k
          then pwr_domain_state si (min (Suc r) e) else psci_req_local_pwr_states s r d)\<rparr>"
    using assms(3) update_req_loop_spec[of 1 ?k pf c s e si "\<lambda>_. 0"] assms(1,2)
    unfolding psci_update_req_local_pwr_states_def by simp_all
  have "(\<lambda>r d. if d = c \<and> 1 \<le> Suc r \<and> Suc r < 1 + ?k then prev r else psci_req_local_pwr_states t r d) = psci_req_local_pwr_states s"
    by (auto simp: upd fun_eq_iff)
  then show ?thesis
    using restore_req_loop_spec[of 1 ?k pf c t prev] assms(1,2) unfolding psci_restore_req_local_pwr_states_def by (simp add: upd(2))
qed

lemma hierarchical_codes: "psci_validate_hierarchical_state_consistency c k si s \<in> {PSCI_E_SUCCESS, PSCI_E_DENIED}"
proof -
  have "hierarchical_loop k l p q si s \<in> {PSCI_E_SUCCESS, PSCI_E_DENIED}" for l p q
    by (induction k arbitrary: l p q) (auto simp: Let_def)
  then show ?thesis
    unfolding psci_validate_hierarchical_state_consistency_def by blast
qed

text \<open>
  C13. The refusal of an OS-initiated suspend: when \<open>psci_validate_state_coordination\<close> denies the request, the
  requests of the caller are what they were and nothing else has changed; when it refuses a request
  because the level the caller claims to be last at is out of range, the requests are left as the caller
  asked, not restored.
\<close>

theorem psci_osi_refusal:
  assumes c: "c < psci_plat_core_count s" and lvl: "max_cpu_suspend_pwrlvl pf \<le> PLAT_MAX_PWR_LVL pf"
    and run: "psci_validate_state_coordination pf c k si s = Ret rc t"
  shows "rc \<in> {PSCI_E_SUCCESS, PSCI_E_DENIED, PSCI_E_INVALID_PARAMS} \<and> (rc = PSCI_E_DENIED \<longrightarrow> t = s) \<and>
    (rc = PSCI_E_INVALID_PARAMS \<longrightarrow> last_at_pwrlvl si > PLAT_MAX_PWR_LVL pf \<and>
       (\<forall>l\<in>{1..min k (max_cpu_suspend_pwrlvl pf)}. req_state t l c = pwr_domain_state si l))"
proof -
  obtain prev u where upd: "psci_update_req_local_pwr_states pf k c si s = Ret prev u"
    using run by (auto simp: psci_validate_state_coordination_def obind_Ret_eq split: if_splits)
  have restored: "psci_restore_req_local_pwr_states pf c prev u = s"
    by (rule update_then_restore[OF c lvl upd])
  have "u = s\<lparr>psci_req_local_pwr_states := (\<lambda>r d. if d = c \<and> 1 \<le> Suc r \<and> Suc r < 1 + max_cpu_suspend_pwrlvl pf
          then pwr_domain_state si (min (Suc r) k) else psci_req_local_pwr_states s r d)\<rparr>"
    using upd update_req_loop_spec[of 1 "max_cpu_suspend_pwrlvl pf" pf c s k si "\<lambda>_. 0"] c lvl
    unfolding psci_update_req_local_pwr_states_def by simp
  then have asked: "\<forall>l\<in>{1..min k (max_cpu_suspend_pwrlvl pf)}. req_state u l c = pwr_domain_state si l"
    by (auto simp: min_def)
  have "psci_validate_hierarchical_state_consistency c k si u \<in> {PSCI_E_SUCCESS, PSCI_E_DENIED}"
    by (rule hierarchical_codes)
  then show ?thesis
    using run asked by (auto simp: psci_validate_state_coordination_def upd restored Let_def split: if_splits option.splits)
qed

theorem psci_osi_refusal_witness:
  "\<exists>s t si. 1 < psci_plat_core_count s \<and> max_cpu_suspend_pwrlvl demo \<le> PLAT_MAX_PWR_LVL demo \<and>
     psci_validate_state_coordination demo 1 1 si s = Ret PSCI_E_INVALID_PARAMS t \<and> req_state s 1 1 = 0 \<and> req_state t 1 1 = 2"
proof -
  let ?s = "(psci_bss ())\<lparr>psci_plat_core_count := 4\<rparr>"
  let ?si = "\<lparr>pwr_domain_state = (\<lambda>_. 2), last_at_pwrlvl = 3\<rparr>"
  have lvl: "max_cpu_suspend_pwrlvl demo = 2"
    by (simp add: max_cpu_suspend_pwrlvl_def demo_def)
  obtain prev u where u: "psci_update_req_local_pwr_states demo 1 1 ?si ?s = Ret prev u"
    and nodes: "psci_non_cpu_pd_nodes u = psci_non_cpu_pd_nodes ?s"
    using update_req_loop_spec[of 1 2 demo 1 ?s 1 ?si "\<lambda>_. 0"] by (simp add: psci_update_req_local_pwr_states_def lvl)
  have "psci_validate_hierarchical_state_consistency 1 1 ?si u = PSCI_E_SUCCESS"
    by (simp add: psci_validate_hierarchical_state_consistency_def nodes psci_bss_def)
  then obtain t where t: "psci_validate_state_coordination demo 1 1 ?si ?s = Ret PSCI_E_INVALID_PARAMS t"
    by (simp add: psci_validate_state_coordination_def u[unfolded One_nat_def])
  have "req_state t 1 1 = 2"
    using psci_osi_refusal[OF _ _ t] lvl by simp
  moreover have "req_state ?s 1 1 = 0"
    by (simp add: psci_bss_def)
  ultimately show ?thesis
    using t lvl by (intro exI[of _ ?s] exI[of _ t] exI[of _ ?si]) simp
qed

end
