(* ===== verification/Interrupt_Mgmt.thy ===== *)
theory Interrupt_Mgmt
  imports Prelude
begin

unbundle bit_operations_syntax

text \<open>
  The interrupt management framework of BL31: \<open>bl31/interrupt_mgmt.c\<close> with the constants of
  \<open>include/bl31/interrupt_mgmt.h\<close>, the interrupt lines of the GICv3 platforms in
  \<open>plat/common/plat_gicv3.c\<close> and the write of a routing bit into a saved context in
  \<open>lib/el3_runtime/aarch64/context_mgmt.c\<close>. \<open>'h\<close> is the type of the interrupt handlers. The
  model follows builds for two security states.
\<close>

section \<open>Data\<close>

abbreviation (input) INTR_TYPE_S_EL1 :: nat where "INTR_TYPE_S_EL1 \<equiv> 0"
abbreviation (input) INTR_TYPE_EL3 :: nat where "INTR_TYPE_EL3 \<equiv> 1"
abbreviation (input) INTR_TYPE_NS :: nat where "INTR_TYPE_NS \<equiv> 2"
abbreviation (input) MAX_INTR_TYPES :: nat where "MAX_INTR_TYPES \<equiv> 4"
abbreviation (input) INTR_ID_UNAVAILABLE :: u32 where "INTR_ID_UNAVAILABLE \<equiv> 0xFFFFFFFF"
abbreviation (input) INTR_DEFAULT_RM :: u32 where "INTR_DEFAULT_RM \<equiv> 0"
abbreviation (input) SECURE :: nat where "SECURE \<equiv> 0"
abbreviation (input) NON_SECURE :: nat where "NON_SECURE \<equiv> 1"
abbreviation (input) EINVAL :: int where "EINVAL \<equiv> 22"
abbreviation (input) EALREADY :: int where "EALREADY \<equiv> 37"

text \<open>\<open>__builtin_ctz\<close> of \<open>SCR_IRQ_BIT\<close> and \<open>SCR_FIQ_BIT\<close>.\<close>

abbreviation (input) SCR_IRQ_LINE :: nat where "SCR_IRQ_LINE \<equiv> 1"
abbreviation (input) SCR_FIQ_LINE :: nat where "SCR_FIQ_LINE \<equiv> 2"
abbreviation (input) SCR_VALID_BIT_MASK :: u64 where "SCR_VALID_BIT_MASK \<equiv> 0x24000002F8F"

record 'h intr_type_desc =
  type_handler :: "'h option"
  type_scr_el3 :: "nat \<Rightarrow> u64"
  type_flags :: u32

text \<open>
  The descriptors, and \<open>SCR_EL3\<close> of the saved context of each security state on this core;
  \<open>None\<close> when there is no context.
\<close>

record 'h intr_state =
  intr_type_descs :: "nat \<Rightarrow> 'h intr_type_desc"
  ctx_scr_el3 :: "nat \<Rightarrow> u64 option"

definition sec_state_is_valid :: "nat \<Rightarrow> bool" where
  "sec_state_is_valid ss \<longleftrightarrow> ss = SECURE \<or> ss = NON_SECURE"

definition get_interrupt_rm_flag :: "u32 \<Rightarrow> nat \<Rightarrow> u32" where
  "get_interrupt_rm_flag flag ss = drop_bit ss (drop_bit 0 flag) AND 1"

section \<open>The interrupt controller of the platform\<close>

definition plat_ic_has_interrupt_type :: "nat \<Rightarrow> bool" where
  "plat_ic_has_interrupt_type type \<longleftrightarrow> type = INTR_TYPE_EL3 \<or> type = INTR_TYPE_S_EL1 \<or> type = INTR_TYPE_NS"

definition plat_interrupt_type_to_line :: "nat \<Rightarrow> nat \<Rightarrow> nat option" where
  "plat_interrupt_type_to_line type ss =
     (if \<not> (type = INTR_TYPE_S_EL1 \<or> type = INTR_TYPE_EL3 \<or> type = INTR_TYPE_NS) \<or> \<not> sec_state_is_valid ss then None
      else if type = INTR_TYPE_S_EL1 then Some (if ss = SECURE then SCR_IRQ_LINE else SCR_FIQ_LINE)
      else if type = INTR_TYPE_NS then Some (if ss = SECURE then SCR_FIQ_LINE else SCR_IRQ_LINE)
      else Some SCR_FIQ_LINE)"

section \<open>Saved contexts\<close>

definition cm_write_scr_el3_bit :: "nat \<Rightarrow> nat \<Rightarrow> u32 \<Rightarrow> 'h intr_state \<Rightarrow> (unit, 'h intr_state) outcome" where
  "cm_write_scr_el3_bit ss bit_pos value s =
     (case ctx_scr_el3 s ss of
        None \<Rightarrow> Halt
      | Some scr \<Rightarrow>
          if push_bit bit_pos 1 AND SCR_VALID_BIT_MASK = 0 \<or> value > 1 then Halt
          else Ret () (s\<lparr>ctx_scr_el3 := (ctx_scr_el3 s)(ss \<mapsto>
                 (scr AND NOT (push_bit bit_pos 1)) OR push_bit bit_pos (ucast value))\<rparr>))"

section \<open>Routing models\<close>

definition validate_interrupt_type :: "nat \<Rightarrow> int" where
  "validate_interrupt_type type = (if plat_ic_has_interrupt_type type then 0 else - EINVAL)"

definition validate_sel1_interrupt_rm :: "u32 \<Rightarrow> int" where
  "validate_sel1_interrupt_rm x = (if x = 0x2 \<or> x = 0x3 then 0 else - EINVAL)"

definition validate_ns_interrupt_rm :: "u32 \<Rightarrow> int" where
  "validate_ns_interrupt_rm x = (if x = 0x0 \<or> x = 0x1 then 0 else - EINVAL)"

definition validate_el3_interrupt_rm :: "u32 \<Rightarrow> int" where
  "validate_el3_interrupt_rm x = (if x = 0x2 \<or> x = 0x3 then 0 else - EINVAL)"

definition validate_routing_model :: "nat \<Rightarrow> u32 \<Rightarrow> int" where
  "validate_routing_model type flags =
     (let rm_flags = drop_bit 0 flags AND 0x3
      in if type = INTR_TYPE_S_EL1 then validate_sel1_interrupt_rm rm_flags
         else if type = INTR_TYPE_NS then validate_ns_interrupt_rm rm_flags
         else if type = INTR_TYPE_EL3 then validate_el3_interrupt_rm rm_flags
         else - EINVAL)"

definition get_scr_el3_from_routing_model :: "nat \<Rightarrow> 'h intr_state \<Rightarrow> u64 option" where
  "get_scr_el3_from_routing_model ss s =
     (if \<not> sec_state_is_valid ss then None
      else Some (type_scr_el3 (intr_type_descs s INTR_TYPE_NS) ss OR
                 type_scr_el3 (intr_type_descs s INTR_TYPE_S_EL1) ss OR
                 type_scr_el3 (intr_type_descs s INTR_TYPE_EL3) ss))"

definition set_scr_el3_from_rm :: "nat \<Rightarrow> u32 \<Rightarrow> nat \<Rightarrow> 'h intr_state \<Rightarrow> (unit, 'h intr_state) outcome" where
  "set_scr_el3_from_rm type flags ss s =
     (let flag = get_interrupt_rm_flag flags ss
      in case plat_interrupt_type_to_line type ss of
           None \<Rightarrow> Halt
         | Some bit_pos \<Rightarrow>
             let d = intr_type_descs s type;
                 s1 = s\<lparr>intr_type_descs := (intr_type_descs s)(type :=
                        d\<lparr>type_scr_el3 := (type_scr_el3 d)(ss := push_bit bit_pos (ucast flag))\<rparr>)\<rparr>
             in if ctx_scr_el3 s1 ss \<noteq> None then cm_write_scr_el3_bit ss bit_pos flag s1 else Ret () s1)"

definition set_routing_model :: "nat \<Rightarrow> u32 \<Rightarrow> 'h intr_state \<Rightarrow> (int, 'h intr_state) outcome" where
  "set_routing_model type flags s =
     (let rc = validate_interrupt_type type
      in if rc \<noteq> 0 then Ret rc s
         else let rc = validate_routing_model type flags
              in if rc \<noteq> 0 then Ret rc s
                 else let s1 = s\<lparr>intr_type_descs := (intr_type_descs s)(type := (intr_type_descs s type)\<lparr>type_flags := flags\<rparr>)\<rparr>
                      in obind (set_scr_el3_from_rm type flags SECURE s1) (\<lambda>_ s2.
                         obind (set_scr_el3_from_rm type flags NON_SECURE s2) (\<lambda>_ s3. Ret 0 s3)))"

definition disable_intr_rm_local :: "nat \<Rightarrow> nat \<Rightarrow> 'h intr_state \<Rightarrow> (int, 'h intr_state) outcome" where
  "disable_intr_rm_local type ss s =
     (if MAX_INTR_TYPES \<le> type \<or> type_handler (intr_type_descs s type) = None then Halt
      else let flag = get_interrupt_rm_flag INTR_DEFAULT_RM ss
           in case plat_interrupt_type_to_line type ss of
                None \<Rightarrow> Halt
              | Some bit_pos \<Rightarrow> obind (cm_write_scr_el3_bit ss bit_pos flag s) (\<lambda>_ s. Ret 0 s))"

definition enable_intr_rm_local :: "nat \<Rightarrow> nat \<Rightarrow> 'h intr_state \<Rightarrow> (int, 'h intr_state) outcome" where
  "enable_intr_rm_local type ss s =
     (if MAX_INTR_TYPES \<le> type \<or> type_handler (intr_type_descs s type) = None then Halt
      else let flag = get_interrupt_rm_flag (type_flags (intr_type_descs s type)) ss
           in case plat_interrupt_type_to_line type ss of
                None \<Rightarrow> Halt
              | Some bit_pos \<Rightarrow> obind (cm_write_scr_el3_bit ss bit_pos flag s) (\<lambda>_ s. Ret 0 s))"

text \<open>
  The table is indexed before the type is validated: for a type past its end the read has no defined
  value, which the model counts as \<open>Halt\<close>.
\<close>

definition register_interrupt_type_handler :: "nat \<Rightarrow> 'h option \<Rightarrow> u32 \<Rightarrow> 'h intr_state \<Rightarrow> (int, 'h intr_state) outcome" where
  "register_interrupt_type_handler type handler flags s =
     (if handler = None then Ret (- EINVAL) s
      else if flags AND 0xFFFFFFFC \<noteq> 0 then Ret (- EINVAL) s
      else if MAX_INTR_TYPES \<le> type then Halt
      else if type_handler (intr_type_descs s type) \<noteq> None then Ret (- EALREADY) s
      else obind (set_routing_model type flags s) (\<lambda>rc s1.
             if rc \<noteq> 0 then Ret rc s1
             else Ret 0 (s1\<lparr>intr_type_descs := (intr_type_descs s1)(type := (intr_type_descs s1 type)\<lparr>type_handler := handler\<rparr>)\<rparr>)))"

definition get_interrupt_type_handler :: "nat \<Rightarrow> 'h intr_state \<Rightarrow> 'h option" where
  "get_interrupt_type_handler type s =
     (if validate_interrupt_type type \<noteq> 0 then None else type_handler (intr_type_descs s type))"

section \<open>Runs of the framework\<close>

text \<open>
  A context of a security state is given the routing bits of the model when it is set up, over the bits
  the other parts of the set-up decide.
\<close>

definition cm_setup_scr_el3 :: "nat \<Rightarrow> u64 \<Rightarrow> 'h intr_state \<Rightarrow> (unit, 'h intr_state) outcome" where
  "cm_setup_scr_el3 ss scr s =
     (case get_scr_el3_from_routing_model ss s of
        None \<Rightarrow> Halt
      | Some routing \<Rightarrow> Ret () (s\<lparr>ctx_scr_el3 := (ctx_scr_el3 s)(ss \<mapsto> scr OR routing)\<rparr>))"

inductive intr_step :: "'h intr_state \<Rightarrow> 'h intr_state \<Rightarrow> bool" where
  register: "register_interrupt_type_handler type handler flags s = Ret rc t \<Longrightarrow> intr_step s t"
| disable: "disable_intr_rm_local type ss s = Ret rc t \<Longrightarrow> intr_step s t"
| enable: "enable_intr_rm_local type ss s = Ret rc t \<Longrightarrow> intr_step s t"
| setup_context: "cm_setup_scr_el3 ss scr s = Ret u t \<Longrightarrow> intr_step s t"

text \<open>The framework starts with a zeroed table and no context.\<close>

definition intr_start :: "'h intr_state \<Rightarrow> bool" where
  "intr_start s \<longleftrightarrow> (\<forall>type. intr_type_descs s type = \<lparr>type_handler = None, type_scr_el3 = (\<lambda>_. 0), type_flags = 0\<rparr>) \<and>
     ctx_scr_el3 s = (\<lambda>_. None)"

text \<open>
  A type without a handler has the default routing; a type with one has a model that is valid for it; and the
  cached bits of a type are its routing flags, each on the line of its security state.
\<close>

definition desc_inv :: "nat \<Rightarrow> 'h intr_type_desc \<Rightarrow> bool" where
  "desc_inv type d \<longleftrightarrow>
     (case type_handler d of
        None \<Rightarrow> type_flags d = INTR_DEFAULT_RM
      | Some _ \<Rightarrow> plat_ic_has_interrupt_type type \<and> validate_routing_model type (type_flags d) = 0 \<and> type_flags d AND 0xFFFFFFFC = 0) \<and>
     (\<forall>ss line. plat_interrupt_type_to_line type ss = Some line \<longrightarrow>
        type_scr_el3 d ss = push_bit line (ucast (get_interrupt_rm_flag (type_flags d) ss)))"

definition intr_inv :: "'h intr_state \<Rightarrow> bool" where
  "intr_inv s \<longleftrightarrow> (\<forall>type. desc_inv type (intr_type_descs s type))"

lemma line_cases: "plat_interrupt_type_to_line type ss = Some line \<Longrightarrow> ss < 2 \<and> (line = SCR_IRQ_LINE \<or> line = SCR_FIQ_LINE) \<and> type < 3"
  by (auto simp: plat_interrupt_type_to_line_def sec_state_is_valid_def split: if_splits)

lemma has_line:
  "plat_ic_has_interrupt_type type \<Longrightarrow> sec_state_is_valid ss \<Longrightarrow> \<exists>line. plat_interrupt_type_to_line type ss = Some line"
  by (auto simp: plat_interrupt_type_to_line_def plat_ic_has_interrupt_type_def)

lemma rm_flag_bit: "get_interrupt_rm_flag flags ss = (if bit flags ss then 1 else 0)"
  by (simp add: get_interrupt_rm_flag_def and_one_eq mod_2_eq_odd bit_iff_odd_drop_bit)

lemma write_bit_descs: "cm_write_scr_el3_bit ss b v s = Ret u t \<Longrightarrow> intr_type_descs t = intr_type_descs s"
  by (auto simp: cm_write_scr_el3_bit_def split: option.splits if_splits)

text \<open>The write of a routing bit never fails where there is a context.\<close>

lemma write_bit_eq:
  assumes "plat_interrupt_type_to_line type ss = Some line" and "ctx_scr_el3 s ss = Some scr"
  shows "cm_write_scr_el3_bit ss line (get_interrupt_rm_flag flags ss) s =
    Ret () (s\<lparr>ctx_scr_el3 := (ctx_scr_el3 s)(ss \<mapsto>
      (if bit flags ss then set_bit line scr else unset_bit line scr))\<rparr>)"
proof -
  have valid: "push_bit line 1 AND SCR_VALID_BIT_MASK \<noteq> 0" and "line < 64"
    using line_cases[OF assms(1)] by auto
  have "(scr AND NOT (push_bit line 1)) OR push_bit line (ucast (1 :: u32)) = set_bit line scr"
    using \<open>line < 64\<close> by (intro bit_eqI) (auto simp: bit_simps)
  moreover have "(scr AND NOT (push_bit line 1)) OR push_bit line (ucast (0 :: u32)) = unset_bit line scr"
    by (simp add: unset_bit_eq_and_not)
  ultimately show ?thesis
    using valid assms(2) unfolding cm_write_scr_el3_bit_def rm_flag_bit by simp
qed

lemma set_scr_eq:
  assumes line: "plat_interrupt_type_to_line type ss = Some line"
  shows "\<exists>C. set_scr_el3_from_rm type flags ss s =
    Ret () (s\<lparr>intr_type_descs := (intr_type_descs s)(type := (intr_type_descs s type)
       \<lparr>type_scr_el3 := (type_scr_el3 (intr_type_descs s type))(ss := push_bit line (ucast (get_interrupt_rm_flag flags ss)))\<rparr>),
       ctx_scr_el3 := C\<rparr>) \<and> (\<forall>x. (C x = None) = (ctx_scr_el3 s x = None)) \<and> (\<forall>x. x \<noteq> ss \<longrightarrow> C x = ctx_scr_el3 s x) \<and>
       (\<forall>scr. ctx_scr_el3 s ss = Some scr \<longrightarrow> C ss = Some (if bit flags ss then set_bit line scr else unset_bit line scr))"
proof (cases "ctx_scr_el3 s ss")
  case None
  then show ?thesis
    unfolding set_scr_el3_from_rm_def line by (intro exI[of _ "ctx_scr_el3 s"]) (simp add: Let_def)
next
  case (Some scr)
  then show ?thesis
    unfolding set_scr_el3_from_rm_def line
    by (intro exI[of _ "(ctx_scr_el3 s)(ss \<mapsto> if bit flags ss then set_bit line scr else unset_bit line scr)"])
      (simp add: Let_def write_bit_eq[OF line])
qed

lemma set_routing_model_eq:
  assumes type: "plat_ic_has_interrupt_type type" and rm: "validate_routing_model type flags = 0"
  shows "\<exists>t S. set_routing_model type flags s = Ret 0 t \<and>
    intr_type_descs t = (intr_type_descs s)(type := (intr_type_descs s type)\<lparr>type_flags := flags, type_scr_el3 := S\<rparr>) \<and>
    (\<forall>ss line. plat_interrupt_type_to_line type ss = Some line \<longrightarrow>
       S ss = push_bit line (ucast (get_interrupt_rm_flag flags ss)) \<and>
       ctx_scr_el3 t ss = map_option (if bit flags ss then set_bit line else unset_bit line) (ctx_scr_el3 s ss))"
proof -
  obtain l0 l1 where l: "plat_interrupt_type_to_line type SECURE = Some l0" "plat_interrupt_type_to_line type NON_SECURE = Some l1"
    using has_line[OF type, of SECURE] has_line[OF type, of NON_SECURE] by (auto simp: sec_state_is_valid_def)
  let ?s1 = "s\<lparr>intr_type_descs := (intr_type_descs s)(type := (intr_type_descs s type)\<lparr>type_flags := flags\<rparr>)\<rparr>"
  obtain s2 where s2: "set_scr_el3_from_rm type flags SECURE ?s1 = Ret () s2"
    "intr_type_descs s2 = (intr_type_descs s)(type := (intr_type_descs s type)\<lparr>type_flags := flags,
       type_scr_el3 := (type_scr_el3 (intr_type_descs s type))(SECURE := push_bit l0 (ucast (get_interrupt_rm_flag flags SECURE)))\<rparr>)"
    "\<And>x. x \<noteq> SECURE \<Longrightarrow> ctx_scr_el3 s2 x = ctx_scr_el3 s x"
    "ctx_scr_el3 s2 SECURE = map_option (if bit flags SECURE then set_bit l0 else unset_bit l0) (ctx_scr_el3 s SECURE)"
    using set_scr_eq[OF l(1), of flags ?s1] by (cases "ctx_scr_el3 s SECURE") auto
  obtain t where t: "set_scr_el3_from_rm type flags NON_SECURE s2 = Ret () t"
    "intr_type_descs t = (intr_type_descs s2)(type := (intr_type_descs s2 type)\<lparr>
       type_scr_el3 := (type_scr_el3 (intr_type_descs s2 type))(NON_SECURE := push_bit l1 (ucast (get_interrupt_rm_flag flags NON_SECURE)))\<rparr>)"
    "\<And>x. x \<noteq> NON_SECURE \<Longrightarrow> ctx_scr_el3 t x = ctx_scr_el3 s2 x"
    "ctx_scr_el3 t NON_SECURE = map_option (if bit flags NON_SECURE then set_bit l1 else unset_bit l1) (ctx_scr_el3 s2 NON_SECURE)"
    using set_scr_eq[OF l(2), of flags s2] by (cases "ctx_scr_el3 s2 NON_SECURE") auto
  have run: "set_routing_model type flags s = Ret 0 t"
    using type rm s2(1) t(1) by (simp add: set_routing_model_def validate_interrupt_type_def Let_def)
  have ss: "ss = SECURE \<and> line = l0 \<or> ss = NON_SECURE \<and> line = l1" if "plat_interrupt_type_to_line type ss = Some line" for ss line
    using l that line_cases[OF that] by (cases ss) (auto simp: less_Suc_eq numeral_2_eq_2)
  define S where "S = (type_scr_el3 (intr_type_descs s type))(SECURE := push_bit l0 (ucast (get_interrupt_rm_flag flags SECURE)),
      NON_SECURE := push_bit l1 (ucast (get_interrupt_rm_flag flags NON_SECURE)))"
  have descs: "intr_type_descs t = (intr_type_descs s)(type := (intr_type_descs s type)\<lparr>type_flags := flags, type_scr_el3 := S\<rparr>)"
    unfolding t(2) s2(2) S_def by simp
  have "S ss = push_bit line (ucast (get_interrupt_rm_flag flags ss)) \<and>
       ctx_scr_el3 t ss = map_option (if bit flags ss then set_bit line else unset_bit line) (ctx_scr_el3 s ss)"
    if "plat_interrupt_type_to_line type ss = Some line" for ss line
    using ss[OF that] s2(3,4) t(3,4) by (auto simp: S_def)
  then show ?thesis
    using run descs by blast
qed

lemma register_cases:
  assumes "register_interrupt_type_handler type handler flags s = Ret rc t"
  obtains (failed) "rc \<noteq> 0" "t = s"
    | (registered) h S where "rc = 0" "handler = Some h" "type_handler (intr_type_descs s type) = None" "flags AND 0xFFFFFFFC = 0"
      "plat_ic_has_interrupt_type type" "validate_routing_model type flags = 0"
      "intr_type_descs t = (intr_type_descs s)(type := \<lparr>type_handler = Some h, type_scr_el3 = S, type_flags = flags\<rparr>)"
      "\<And>ss line. plat_interrupt_type_to_line type ss = Some line \<Longrightarrow>
       S ss = push_bit line (ucast (get_interrupt_rm_flag flags ss)) \<and>
       ctx_scr_el3 t ss = map_option (if bit flags ss then set_bit line else unset_bit line) (ctx_scr_el3 s ss)"
proof (cases "plat_ic_has_interrupt_type type \<and> validate_routing_model type flags = 0 \<and> type_handler (intr_type_descs s type) = None \<and>
    handler \<noteq> None \<and> flags AND 0xFFFFFFFC = 0")
  case False
  then show ?thesis
    using assms that(1)
    by (auto simp: register_interrupt_type_handler_def set_routing_model_def validate_interrupt_type_def Let_def split: if_splits)
next
  case True
  then obtain t' S where r: "set_routing_model type flags s = Ret 0 t'"
    "intr_type_descs t' = (intr_type_descs s)(type := (intr_type_descs s type)\<lparr>type_flags := flags, type_scr_el3 := S\<rparr>)"
    "\<And>ss line. plat_interrupt_type_to_line type ss = Some line \<Longrightarrow>
       S ss = push_bit line (ucast (get_interrupt_rm_flag flags ss)) \<and>
       ctx_scr_el3 t' ss = map_option (if bit flags ss then set_bit line else unset_bit line) (ctx_scr_el3 s ss)"
    using set_routing_model_eq[of type flags s] by blast
  obtain h where h: "handler = Some h"
    using True by auto
  have "type < MAX_INTR_TYPES"
    using True by (auto simp: plat_ic_has_interrupt_type_def)
  then have t: "rc = 0" "t = t'\<lparr>intr_type_descs := (intr_type_descs t')(type := (intr_type_descs t' type)\<lparr>type_handler := Some h\<rparr>)\<rparr>"
    using assms True r(1) h by (simp_all add: register_interrupt_type_handler_def)
  have eq: "(intr_type_descs s type)\<lparr>type_flags := flags, type_scr_el3 := S, type_handler := Some h\<rparr> =
      \<lparr>type_handler = Some h, type_scr_el3 = S, type_flags = flags\<rparr>"
    by (rule intr_type_desc.equality) simp_all
  show ?thesis
    by (rule that(2)[of h S]) (use True h t r in \<open>simp_all only: eq, simp_all add: eq\<close>)
qed

lemma register_inv: "intr_inv s \<Longrightarrow> register_interrupt_type_handler type handler flags s = Ret rc t \<Longrightarrow> intr_inv t"
  by (erule register_cases) (auto simp: intr_inv_def desc_inv_def)

lemma local_descs:
  "disable_intr_rm_local type ss s = Ret rc t \<Longrightarrow> intr_type_descs t = intr_type_descs s"
  "enable_intr_rm_local type ss s = Ret rc t \<Longrightarrow> intr_type_descs t = intr_type_descs s"
  "cm_setup_scr_el3 ss scr s = Ret u t \<Longrightarrow> intr_type_descs t = intr_type_descs s"
  by (auto simp: disable_intr_rm_local_def enable_intr_rm_local_def cm_setup_scr_el3_def Let_def obind_Ret_eq
      dest: write_bit_descs split: if_splits option.splits)

interpretation intr_run: invariant_system intr_start intr_step intr_inv
proof unfold_locales
  show "intr_inv s" if "intr_start s" for s :: "'a intr_state"
    using that by (simp add: intr_start_def intr_inv_def desc_inv_def get_interrupt_rm_flag_def)
  show "intr_inv t" if "intr_inv s" "intr_step s t" for s t :: "'a intr_state"
    using that(2)
  proof cases
    case register
    then show ?thesis
      by (rule register_inv[OF that(1)])
  qed (use that(1) local_descs[where t = t and s = s] in \<open>auto simp: intr_inv_def\<close>)
qed

section \<open>Properties\<close>

lemma desc_bit:
  assumes "desc_inv type d" and line: "plat_interrupt_type_to_line type ss = Some line"
  shows "bit (type_scr_el3 d ss) i \<longleftrightarrow> i = line \<and> type_handler d \<noteq> None \<and> bit (type_flags d) ss"
proof -
  have "type_scr_el3 d ss = push_bit line (ucast (get_interrupt_rm_flag (type_flags d) ss))" "line < 64"
    using assms line_cases[OF line] by (auto simp: desc_inv_def)
  moreover have "type_handler d = None \<Longrightarrow> type_flags d = 0"
    using assms(1) by (simp add: desc_inv_def)
  ultimately show ?thesis
    by (cases "type_handler d"; cases "bit (type_flags d) ss") (auto simp: rm_flag_bit bit_simps)
qed

lemma valid_secure_rm:
  assumes "desc_inv type d" and "type_handler d \<noteq> None" and "type = INTR_TYPE_S_EL1 \<or> type = INTR_TYPE_EL3"
  shows "bit (type_flags d) NON_SECURE"
proof -
  have "type_flags d AND 3 = 2 \<or> type_flags d AND 3 = 3"
    using assms by (auto simp: desc_inv_def validate_routing_model_def validate_sel1_interrupt_rm_def validate_el3_interrupt_rm_def split: if_splits)
  moreover have "bit (2 :: u32) 1" "bit (3 :: u32) 1"
    by simp_all
  ultimately have "bit (type_flags d AND 3) 1"
    by metis
  then show ?thesis
    by (simp add: bit_and_iff)
qed

text \<open>
  C9. The routing of interrupts to EL3: in every state the framework can reach, by registering handlers, by local
  enabling and disabling and by setting up contexts in any order, the cached \<open>SCR_EL3\<close> bits of a
  security state are set exactly on the lines of the types that have a handler and whose
  routing model sends them to EL3 from that state; and once a handler for secure or EL3 interrupts is
  registered, such interrupts are routed to EL3 from the non-secure state.
\<close>

theorem intr_routing_exact:
  assumes "reach intr_start intr_step s" and ss: "sec_state_is_valid ss"
  shows "\<exists>v. get_scr_el3_from_routing_model ss s = Some v \<and>
    (\<forall>i. bit v i \<longleftrightarrow> (\<exists>type. plat_interrupt_type_to_line type ss = Some i \<and>
        type_handler (intr_type_descs s type) \<noteq> None \<and> bit (type_flags (intr_type_descs s type)) ss)) \<and>
    (ss = NON_SECURE \<and> (\<exists>type\<in>{INTR_TYPE_S_EL1, INTR_TYPE_EL3}. get_interrupt_type_handler type s \<noteq> None) \<longrightarrow> bit v SCR_FIQ_LINE)"
proof -
  have inv: "desc_inv type (intr_type_descs s type)" for type
    using intr_run.reach_inv[OF assms(1)] by (simp add: intr_inv_def)
  obtain v where v: "get_scr_el3_from_routing_model ss s = Some v"
    "v = type_scr_el3 (intr_type_descs s INTR_TYPE_NS) ss OR type_scr_el3 (intr_type_descs s INTR_TYPE_S_EL1) ss OR
       type_scr_el3 (intr_type_descs s INTR_TYPE_EL3) ss"
    using ss by (simp add: get_scr_el3_from_routing_model_def)
  have three: "plat_interrupt_type_to_line type ss = Some i \<Longrightarrow> type \<in> {INTR_TYPE_S_EL1, INTR_TYPE_EL3, INTR_TYPE_NS}" for type i
    using line_cases[of type ss i] by auto
  obtain l0 l1 l2 where l: "plat_interrupt_type_to_line INTR_TYPE_S_EL1 ss = Some l0" "plat_interrupt_type_to_line INTR_TYPE_EL3 ss = Some l1"
    "plat_interrupt_type_to_line INTR_TYPE_NS ss = Some l2"
    using ss by (auto simp: plat_interrupt_type_to_line_def)
  have some_line: "(\<exists>type. plat_interrupt_type_to_line type ss = Some i \<and> P type) \<longleftrightarrow>
      (i = l0 \<and> P INTR_TYPE_S_EL1) \<or> (i = l1 \<and> P INTR_TYPE_EL3) \<or> (i = l2 \<and> P INTR_TYPE_NS)" (is "?L \<longleftrightarrow> ?R") for P i
  proof
    assume ?L
    then obtain type where t: "plat_interrupt_type_to_line type ss = Some i" "P type"
      by blast
    then consider "type = INTR_TYPE_S_EL1" | "type = INTR_TYPE_EL3" | "type = INTR_TYPE_NS"
      using three by blast
    then show ?R
      using t l by cases simp_all
  qed (use l in blast)
  have bits: "bit v i \<longleftrightarrow> (\<exists>type. plat_interrupt_type_to_line type ss = Some i \<and>
        type_handler (intr_type_descs s type) \<noteq> None \<and> bit (type_flags (intr_type_descs s type)) ss)" for i
    unfolding some_line v(2) bit_or_iff desc_bit[OF inv l(1)] desc_bit[OF inv l(2)] desc_bit[OF inv l(3)] by blast
  have "bit v SCR_FIQ_LINE" if "ss = NON_SECURE" "type \<in> {INTR_TYPE_S_EL1, INTR_TYPE_EL3}" "get_interrupt_type_handler type s \<noteq> None" for type
    unfolding bits using valid_secure_rm[OF inv, of type] that
    by (intro exI[of _ type]) (auto simp: get_interrupt_type_handler_def plat_interrupt_type_to_line_def sec_state_is_valid_def split: if_splits)
  then show ?thesis
    using v(1) bits by blast
qed

lemma set_routing_model_code:
  "\<exists>rc t. set_routing_model type flags s = Ret rc t \<and> (rc = 0 \<longleftrightarrow> plat_ic_has_interrupt_type type \<and> validate_routing_model type flags = 0)"
proof (cases "plat_ic_has_interrupt_type type \<and> validate_routing_model type flags = 0")
  case True
  then show ?thesis
    using set_routing_model_eq[of type flags s] by blast
qed (auto simp: set_routing_model_def validate_interrupt_type_def Let_def)

text \<open>
  C15. Registration of an interrupt handler, for every type within the table: it succeeds exactly when a handler is
  given, the flags have no reserved bit, no handler is registered yet, and the type and the routing model
  are valid; then the handler is the one found for the type and the other types are untouched. When it
  fails, nothing has changed.
\<close>

theorem register_interrupt_type_handler_correct:
  assumes "type < MAX_INTR_TYPES"
  shows "\<exists>rc t. register_interrupt_type_handler type handler flags s = Ret rc t \<and>
    (rc = 0 \<longleftrightarrow> handler \<noteq> None \<and> flags AND 0xFFFFFFFC = 0 \<and> type_handler (intr_type_descs s type) = None \<and>
       plat_ic_has_interrupt_type type \<and> validate_routing_model type flags = 0) \<and>
    (rc \<noteq> 0 \<longrightarrow> t = s) \<and>
    (rc = 0 \<longrightarrow> get_interrupt_type_handler type t = handler \<and>
       (\<forall>other. other \<noteq> type \<longrightarrow> intr_type_descs t other = intr_type_descs s other))"
proof -
  obtain rc0 t0 where m: "set_routing_model type flags s = Ret rc0 t0"
    "rc0 = 0 \<longleftrightarrow> plat_ic_has_interrupt_type type \<and> validate_routing_model type flags = 0"
    using set_routing_model_code by blast
  have "\<exists>rc t. register_interrupt_type_handler type handler flags s = Ret rc t \<and>
      (rc = 0 \<longleftrightarrow> handler \<noteq> None \<and> flags AND 0xFFFFFFFC = 0 \<and> type_handler (intr_type_descs s type) = None \<and> rc0 = 0)"
    using assms m(1) by (auto simp: register_interrupt_type_handler_def)
  then obtain rc t where r: "register_interrupt_type_handler type handler flags s = Ret rc t"
    and codes: "rc = 0 \<longleftrightarrow> handler \<noteq> None \<and> flags AND 0xFFFFFFFC = 0 \<and> type_handler (intr_type_descs s type) = None \<and>
       plat_ic_has_interrupt_type type \<and> validate_routing_model type flags = 0"
    using m(2) by blast
  show ?thesis
    using r
  proof (cases rule: register_cases)
    case failed
    then show ?thesis
      using r codes by auto
  next
    case (registered h S)
    then show ?thesis
      using r codes by (auto simp: get_interrupt_type_handler_def validate_interrupt_type_def)
  qed
qed

text \<open>
  C28. Local disabling and enabling of an interrupt type: in every reachable state, for a registered type and a
  security state that has a context, disabling takes the type's line out of the saved \<open>SCR_EL3\<close> and leaves
  every other bit, and enabling puts back the routing the type was registered with; when the saved
  register agreed with that routing, the two together change nothing.
\<close>

theorem intr_disable_enable:
  assumes "reach intr_start intr_step s" and reg: "type_handler (intr_type_descs s type) \<noteq> None"
    and ss: "sec_state_is_valid ss" and ctx: "ctx_scr_el3 s ss = Some scr"
  shows "\<exists>line t u. plat_interrupt_type_to_line type ss = Some line \<and>
    disable_intr_rm_local type ss s = Ret 0 t \<and> ctx_scr_el3 t ss = Some (unset_bit line scr) \<and>
    enable_intr_rm_local type ss t = Ret 0 u \<and>
    ctx_scr_el3 u ss = Some (if bit (type_flags (intr_type_descs s type)) ss then set_bit line scr else unset_bit line scr) \<and>
    (bit scr line = bit (type_flags (intr_type_descs s type)) ss \<longrightarrow> u = s)"
proof -
  have "desc_inv type (intr_type_descs s type)"
    using intr_run.reach_inv[OF assms(1)] by (simp add: intr_inv_def)
  then have has: "plat_ic_has_interrupt_type type"
    using reg by (auto simp: desc_inv_def)
  obtain line where line: "plat_interrupt_type_to_line type ss = Some line"
    using has_line[OF has ss] by blast
  have small: "\<not> MAX_INTR_TYPES \<le> type" "line < 64"
    using line_cases[OF line] by auto
  let ?flags = "type_flags (intr_type_descs s type)"
  let ?t = "s\<lparr>ctx_scr_el3 := (ctx_scr_el3 s)(ss \<mapsto> unset_bit line scr)\<rparr>"
  let ?u = "?t\<lparr>ctx_scr_el3 := (ctx_scr_el3 ?t)(ss \<mapsto> if bit ?flags ss then set_bit line (unset_bit line scr) else unset_bit line (unset_bit line scr))\<rparr>"
  have dis: "disable_intr_rm_local type ss s = Ret 0 ?t"
    using small reg line write_bit_eq[OF line ctx, of INTR_DEFAULT_RM] by (simp add: disable_intr_rm_local_def Let_def)
  have en: "enable_intr_rm_local type ss ?t = Ret 0 ?u"
    using small reg line write_bit_eq[OF line, of ?t "unset_bit line scr" ?flags] by (simp add: enable_intr_rm_local_def Let_def)
  have bits: "set_bit line (unset_bit line scr) = set_bit line scr" "unset_bit line (unset_bit line scr) = unset_bit line scr"
    "bit scr line \<Longrightarrow> set_bit line scr = scr" "\<not> bit scr line \<Longrightarrow> unset_bit line scr = scr"
    by (auto intro!: bit_eqI simp: bit_simps small(2))
  have "?u = s" if "bit scr line = bit ?flags ss"
    using that bits ctx by (cases "bit ?flags ss") (simp_all add: fun_upd_idem)
  then show ?thesis
    using line dis en bits(1,2) by auto
qed

section \<open>Examples\<close>

definition intr_zero :: "unit intr_state" where
  "intr_zero = \<lparr>intr_type_descs = (\<lambda>_. \<lparr>type_handler = None, type_scr_el3 = (\<lambda>_. 0), type_flags = 0\<rparr>), ctx_scr_el3 = (\<lambda>_. None)\<rparr>"

definition intr_example :: "unit intr_state" where
  "intr_example = \<lparr>intr_type_descs = (\<lambda>type. if type = INTR_TYPE_EL3
       then \<lparr>type_handler = Some (), type_scr_el3 = (\<lambda>ss. if ss = NON_SECURE then 4 else 0), type_flags = 2\<rparr>
       else \<lparr>type_handler = None, type_scr_el3 = (\<lambda>_. 0), type_flags = 0\<rparr>), ctx_scr_el3 = (\<lambda>ss. if ss = NON_SECURE then Some 0x504 else None)\<rparr>"

lemma intr_example_reach: "reach intr_start intr_step intr_example"
proof -
  let ?s = "intr_example\<lparr>ctx_scr_el3 := (\<lambda>_. None)\<rparr>"
  have "register_interrupt_type_handler INTR_TYPE_EL3 (Some ()) 2 intr_zero = Ret 0 ?s"
    by (auto simp: register_interrupt_type_handler_def set_routing_model_def validate_interrupt_type_def plat_ic_has_interrupt_type_def
        validate_routing_model_def validate_el3_interrupt_rm_def set_scr_el3_from_rm_def plat_interrupt_type_to_line_def sec_state_is_valid_def
        get_interrupt_rm_flag_def intr_zero_def intr_example_def Let_def fun_eq_iff)
  then have "intr_step intr_zero ?s"
    by (rule intr_step.register)
  moreover have "reach intr_start intr_step intr_zero"
    by (rule reach.reach_init) (simp add: intr_start_def intr_zero_def)
  ultimately have "reach intr_start intr_step ?s"
    by (rule reach.reach_step[rotated])
  moreover have "cm_setup_scr_el3 NON_SECURE 0x500 ?s = Ret () intr_example"
    by (auto simp: cm_setup_scr_el3_def get_scr_el3_from_routing_model_def sec_state_is_valid_def intr_example_def fun_eq_iff)
  then have "intr_step ?s intr_example"
    by (rule intr_step.setup_context)
  ultimately show ?thesis
    by (rule reach.reach_step)
qed

theorem intr_routing_exact_witness:
  "reach intr_start intr_step intr_example \<and> sec_state_is_valid NON_SECURE \<and>
   (\<exists>v. get_scr_el3_from_routing_model NON_SECURE intr_example = Some v \<and> bit v SCR_FIQ_LINE)"
proof -
  have "sec_state_is_valid NON_SECURE" "get_interrupt_type_handler INTR_TYPE_EL3 intr_example \<noteq> None"
    by (simp_all add: sec_state_is_valid_def get_interrupt_type_handler_def validate_interrupt_type_def plat_ic_has_interrupt_type_def intr_example_def)
  then show ?thesis
    using intr_routing_exact[OF intr_example_reach, of NON_SECURE] intr_example_reach by blast
qed

theorem register_interrupt_type_handler_correct_witness:
  "(2 :: nat) < MAX_INTR_TYPES \<and> (\<exists>rc t. register_interrupt_type_handler 2 (Some ()) 2 intr_zero = Ret rc t \<and> rc \<noteq> 0 \<and> t = intr_zero)"
proof -
  have "validate_routing_model 2 2 \<noteq> 0"
    by (simp add: validate_routing_model_def validate_ns_interrupt_rm_def)
  then show ?thesis
    using register_interrupt_type_handler_correct[of 2 "Some ()" 2 intr_zero] by auto
qed

theorem intr_disable_enable_witness:
  "reach intr_start intr_step intr_example \<and> type_handler (intr_type_descs intr_example INTR_TYPE_EL3) \<noteq> None \<and>
   (\<exists>t u. disable_intr_rm_local INTR_TYPE_EL3 NON_SECURE intr_example = Ret 0 t \<and>
     enable_intr_rm_local INTR_TYPE_EL3 NON_SECURE t = Ret 0 u \<and> u = intr_example)"
proof -
  have a: "type_handler (intr_type_descs intr_example INTR_TYPE_EL3) \<noteq> None" "sec_state_is_valid NON_SECURE"
    "ctx_scr_el3 intr_example NON_SECURE = Some 0x504"
    by (simp_all add: intr_example_def sec_state_is_valid_def)
  have "bit (type_flags (intr_type_descs intr_example INTR_TYPE_EL3)) NON_SECURE" "bit (0x504 :: u64) SCR_FIQ_LINE"
    "plat_interrupt_type_to_line INTR_TYPE_EL3 NON_SECURE = Some SCR_FIQ_LINE"
    by (simp_all add: intr_example_def plat_interrupt_type_to_line_def sec_state_is_valid_def)
  then show ?thesis
    using intr_disable_enable[OF intr_example_reach a] intr_example_reach a(1) by auto
qed

end
