(* ===== verification/Runtime_Svc.thy ===== *)
theory Runtime_Svc
  imports Interrupt_Mgmt
begin

unbundle bit_operations_syntax

text \<open>
  The dispatch of exceptions from lower exception levels in BL31, \<open>common/runtime_svc.c\<close> with
  \<open>include/common/runtime_svc.h\<close> and the function-identifier fields of \<open>include/lib/smccc.h\<close>:
  the table of runtime services and its initialisation, SMCs, interrupts, trapped instructions and external
  aborts. A runtime service is a parameter: its descriptor carries the functions it exports. \<open>'w\<close> is
  what the services and the platform keep beside the saved context of the caller.
\<close>

section \<open>Data\<close>

abbreviation (input) MAX_RT_SVCS :: nat where "MAX_RT_SVCS \<equiv> 128"
abbreviation (input) OEN_LIMIT :: u8 where "OEN_LIMIT \<equiv> 64"
abbreviation (input) SMC_TYPE_FAST :: u8 where "SMC_TYPE_FAST \<equiv> 1"
abbreviation (input) SMC_TYPE_YIELD :: u8 where "SMC_TYPE_YIELD \<equiv> 0"
abbreviation (input) SMC_UNKNOWN :: u64 where "SMC_UNKNOWN \<equiv> - 1"
abbreviation (input) FUNCID_SVE_HINT :: u32 where "FUNCID_SVE_HINT \<equiv> 0x10000"
abbreviation (input) INTR_TYPE_INVAL :: nat where "INTR_TYPE_INVAL \<equiv> 4"

text \<open>
  The saved context of the caller: general-purpose registers, \<open>SP_EL0\<close> and the EL3 state the
  dispatch reads and writes.
\<close>

record 'w caller_ctx =
  gpreg :: "nat \<Rightarrow> u64"
  sp_el0 :: u64
  saved_scr_el3 :: u64
  saved_elr_el3 :: u64
  double_fault_esr :: u64
  world :: 'w

type_synonym 'w rt_svc_handle = "u32 \<Rightarrow> u64 \<Rightarrow> u64 \<Rightarrow> u64 \<Rightarrow> u64 \<Rightarrow> u64 \<Rightarrow> 'w caller_ctx \<Rightarrow> 'w caller_ctx"

record 'w rt_svc_desc =
  start_oen :: u8
  end_oen :: u8
  call_type :: u8
  svc_init :: "('w \<Rightarrow> int \<times> 'w) option"
  svc_handle :: "'w rt_svc_handle option"

text \<open>
  The build options that select code, and what the dispatch calls outside this file: the handler of trapped
  system registers, the platform's handlers of external aborts, the injection of exceptions.
\<close>

record 'w exc_env =
  include_aarch32_regs :: bool
  ffh_support :: bool
  sdei_support :: bool
  rmm_support :: bool
  feat_ras :: bool
  handle_sysreg_trap :: "u64 \<Rightarrow> u64 \<Rightarrow> 'w caller_ctx \<Rightarrow> int \<times> 'w caller_ctx"
  plat_ea_handler :: "nat \<Rightarrow> u64 \<Rightarrow> u64 \<Rightarrow> 'w caller_ctx \<Rightarrow> 'w caller_ctx"
  plat_handle_double_fault :: "nat \<Rightarrow> u64 \<Rightarrow> 'w caller_ctx \<Rightarrow> 'w caller_ctx"
  plat_handle_uncontainable_ea :: "'w caller_ctx \<Rightarrow> 'w caller_ctx"
  inject_sync_ea64 :: "u64 \<Rightarrow> 'w caller_ctx \<Rightarrow> 'w caller_ctx"
  inject_undef64 :: "'w caller_ctx \<Rightarrow> 'w caller_ctx"
  spsr_el3 :: u64

section \<open>Owning entities\<close>

definition get_unique_oen :: "u32 \<Rightarrow> u32 \<Rightarrow> u32" where
  "get_unique_oen oen ctype = push_bit 6 (ctype AND 0x1) OR (oen AND 0x3f)"

definition GET_SMC_OEN :: "u32 \<Rightarrow> u32" where
  "GET_SMC_OEN fid = drop_bit 24 fid AND 0x3f"

definition GET_SMC_TYPE :: "u32 \<Rightarrow> u32" where
  "GET_SMC_TYPE fid = drop_bit 31 fid AND 0x1"

definition get_unique_oen_from_smc_fid :: "u32 \<Rightarrow> u32" where
  "get_unique_oen_from_smc_fid fid = get_unique_oen (GET_SMC_OEN fid) (GET_SMC_TYPE fid)"

section \<open>The table of services\<close>

definition validate_rt_svc_desc :: "'w rt_svc_desc \<Rightarrow> int" where
  "validate_rt_svc_desc desc =
     (if start_oen desc > end_oen desc then - EINVAL
      else if end_oen desc \<ge> OEN_LIMIT then - EINVAL
      else if call_type desc \<noteq> SMC_TYPE_FAST \<and> call_type desc \<noteq> SMC_TYPE_YIELD then - EINVAL
      else if svc_init desc = None \<and> svc_handle desc = None then - EINVAL
      else 0)"

text \<open>The loop that fills the entries of a service; it ends because the end is below 128.\<close>

definition fill_indices :: "u8 \<Rightarrow> u8 \<Rightarrow> u8 \<Rightarrow> (nat \<Rightarrow> u8) \<Rightarrow> (nat \<Rightarrow> u8)" where
  "fill_indices start_idx end_idx index indices =
     fold (\<lambda>i ind. ind(i := index)) [unat start_idx ..< Suc (unat end_idx)] indices"

fun svc_init_loop :: "nat \<Rightarrow> 'w rt_svc_desc list \<Rightarrow> (nat \<Rightarrow> u8) \<Rightarrow> 'w \<Rightarrow> (nat \<Rightarrow> u8, 'w) outcome" where
  "svc_init_loop index [] indices w = Ret indices w"
| "svc_init_loop index (service # rest) indices w =
     (if validate_rt_svc_desc service \<noteq> 0 then Halt
      else
        let (rc, w1) = (case svc_init service of None \<Rightarrow> (0, w) | Some f \<Rightarrow> f w)
        in if svc_init service \<noteq> None \<and> rc \<noteq> 0 then svc_init_loop (Suc index) rest indices w1
           else
             let start_idx = ucast (get_unique_oen (ucast (start_oen service)) (ucast (call_type service))) :: u8;
                 end_idx = ucast (get_unique_oen (ucast (end_oen service)) (ucast (call_type service))) :: u8
             in if start_idx \<le> end_idx \<and> unat end_idx < MAX_RT_SVCS
                then svc_init_loop (Suc index) rest (fill_indices start_idx end_idx (of_nat index) indices) w1
                else Halt)"

definition runtime_svc_init :: "'w rt_svc_desc list \<Rightarrow> (nat \<Rightarrow> u8) \<Rightarrow> 'w \<Rightarrow> (nat \<Rightarrow> u8, 'w) outcome" where
  "runtime_svc_init descs indices w =
     (if \<not> length descs < MAX_RT_SVCS then Halt
      else if descs = [] then Ret indices w
      else svc_init_loop 0 descs (\<lambda>_. 0xff) w)"

text \<open>The handler of a function identifier: \<open>Inl\<close> is a failed assertion.\<close>

definition get_handler_for_smc_fid ::
  "'w rt_svc_desc list \<Rightarrow> (nat \<Rightarrow> u8) \<Rightarrow> u32 \<Rightarrow> unit + 'w rt_svc_handle option" where
  "get_handler_for_smc_fid descs indices fid =
     (let idx = unat (get_unique_oen_from_smc_fid fid)
      in if \<not> idx < MAX_RT_SVCS then Inl ()
         else let index = unat (indices idx)
              in if index \<ge> length descs then Inr None
                 else case svc_handle (descs ! index) of None \<Rightarrow> Inl () | Some h \<Rightarrow> Inr (Some h))"

section \<open>SMCs\<close>

definition smc_unknown :: "'w caller_ctx \<Rightarrow> 'w caller_ctx" where
  "smc_unknown ctx = ctx\<lparr>gpreg := (gpreg ctx)(0 := SMC_UNKNOWN)\<rparr>"

definition get_flags :: "'w exc_env \<Rightarrow> u32 \<Rightarrow> u64 \<Rightarrow> u64" where
  "get_flags env smc_fid scr =
     (scr AND 0x1) OR
     (if rmm_support env then push_bit 5 (drop_bit 62 (scr AND push_bit 62 1)) else 0) OR
     ucast (smc_fid AND FUNCID_SVE_HINT)"

definition sync_handler ::
  "'w exc_env \<Rightarrow> 'w rt_svc_desc list \<Rightarrow> (nat \<Rightarrow> u8) \<Rightarrow> 'w caller_ctx \<Rightarrow> u32 \<Rightarrow> u64 \<Rightarrow> (unit, 'w caller_ctx) outcome" where
  "sync_handler env descs indices ctx smc_fid scr =
     (if GET_SMC_TYPE smc_fid = ucast SMC_TYPE_FAST \<and> drop_bit 17 smc_fid AND 0x7f \<noteq> 0 then Ret () (smc_unknown ctx)
      else
        let fid = smc_fid AND NOT FUNCID_SVE_HINT
        in case get_handler_for_smc_fid descs indices fid of
             Inl _ \<Rightarrow> Halt
           | Inr None \<Rightarrow> Ret () (smc_unknown ctx)
           | Inr (Some handler) \<Rightarrow>
               Ret () (handler fid (gpreg ctx 1) (gpreg ctx 2) (gpreg ctx 3) (gpreg ctx 4) (get_flags env fid scr) ctx))"

text \<open>The entry point of AArch32 builds.\<close>

definition handle_runtime_svc ::
  "'w rt_svc_desc list \<Rightarrow> (nat \<Rightarrow> u8) \<Rightarrow> u32 \<Rightarrow> u64 \<Rightarrow> 'w caller_ctx \<Rightarrow> (unit, 'w caller_ctx) outcome" where
  "handle_runtime_svc descs indices smc_fid flags ctx =
     (case get_handler_for_smc_fid descs indices smc_fid of
        Inl _ \<Rightarrow> Halt
      | Inr None \<Rightarrow> Ret () (ctx\<lparr>gpreg := (gpreg ctx)(0 := SMC_UNKNOWN)\<rparr>)
      | Inr (Some handler) \<Rightarrow>
          Ret () (handler smc_fid (gpreg ctx 1) (gpreg ctx 2) (gpreg ctx 3) (gpreg ctx 4) flags ctx))"

section \<open>Interrupts\<close>

text \<open>\<open>'h\<close> is instantiated with the functions the framework stores.\<close>

type_synonym 'w intr_handler = "u32 \<Rightarrow> u64 \<Rightarrow> 'w caller_ctx \<Rightarrow> 'w caller_ctx"

definition handler_interrupt_exception :: "nat \<Rightarrow> 'w intr_handler intr_state \<Rightarrow> 'w caller_ctx \<Rightarrow> 'w caller_ctx" where
  "handler_interrupt_exception pending_type s ctx =
     (if pending_type = INTR_TYPE_INVAL then ctx
      else case get_interrupt_type_handler pending_type s of
             None \<Rightarrow> ctx
           | Some handler \<Rightarrow> handler INTR_ID_UNAVAILABLE (saved_scr_el3 ctx AND 0x1) ctx)"

section \<open>External aborts\<close>

definition ea_proceed :: "'w exc_env \<Rightarrow> nat \<Rightarrow> u64 \<Rightarrow> u64 \<Rightarrow> 'w caller_ctx \<Rightarrow> 'w caller_ctx" where
  "ea_proceed env ea_reason esr scr ctx =
     (if double_fault_esr ctx \<noteq> 0 then plat_handle_double_fault env ea_reason esr ctx
      else (plat_ea_handler env ea_reason esr (scr AND 0x1) (ctx\<lparr>double_fault_esr := esr\<rparr>))\<lparr>double_fault_esr := 0\<rparr>)"

text \<open>\<open>SERROR_IDS_BIT\<close> is the number 24, which the code uses as a mask.\<close>

definition handler_lower_el_async_ea :: "'w exc_env \<Rightarrow> u64 \<Rightarrow> 'w caller_ctx \<Rightarrow> (unit, 'w caller_ctx) outcome" where
  "handler_lower_el_async_ea env esr ctx =
     (if feat_ras env \<and> drop_bit 26 esr AND 0x3f \<noteq> 0x2f then Halt
      else if feat_ras env \<and> esr AND 24 \<noteq> 0 \<and> esr AND 0x3f = 0x11 \<and> drop_bit 10 esr AND 0x7 = 0
      then Ret () (plat_handle_uncontainable_ea env ctx)
      else Ret () (ea_proceed env 0 esr (saved_scr_el3 ctx) ctx))"

section \<open>Synchronous exceptions\<close>

definition unhandled_trap :: "'w exc_env \<Rightarrow> 'w caller_ctx \<Rightarrow> (unit, 'w caller_ctx) outcome" where
  "unhandled_trap env ctx =
     (if include_aarch32_regs env \<and> spsr_el3 env AND 0x10 \<noteq> 0 then Halt else Ret () (inject_undef64 env ctx))"

definition handler_sync_exception ::
  "'w exc_env \<Rightarrow> 'w rt_svc_desc list \<Rightarrow> (nat \<Rightarrow> u8) \<Rightarrow> u64 \<Rightarrow> 'w caller_ctx \<Rightarrow> (unit, 'w caller_ctx) outcome" where
  "handler_sync_exception env descs indices esr ctx =
     (let smc_fid = ucast (gpreg ctx 0) :: u32;
          exc_class = drop_bit 26 esr AND 0x3f;
          scr = saved_scr_el3 ctx
      in if exc_class = 0x17 then sync_handler env descs indices ctx smc_fid scr
         else if include_aarch32_regs env \<and> exc_class = 0x13
         then if drop_bit 30 smc_fid AND 0x1 \<noteq> 0 then Ret () (smc_unknown ctx)
              else sync_handler env descs indices ctx smc_fid scr
         else if exc_class = 0x18
         then let (ret, ctx1) = handle_sysreg_trap env esr (get_flags env smc_fid scr) ctx
              in if sp_el0 ctx1 \<noteq> sp_el0 ctx then Halt
                 else if ret = 1 then Ret () (ctx1\<lparr>saved_elr_el3 := saved_elr_el3 ctx1 + 4\<rparr>)
                 else if ret = 0 then Ret () ctx1
                 else unhandled_trap env ctx1
         else if ffh_support env \<and> (exc_class = 0x20 \<or> exc_class = 0x24) \<and> scr AND 0x8 \<noteq> 0
         then if feat_ras env \<and> esr AND 0x3f = 0x10 \<and> drop_bit 11 esr AND 0x3 = 0x2
              then Ret () (plat_handle_uncontainable_ea env ctx)
              else let ctx1 = ea_proceed env 1 esr scr ctx
                   in Ret () (if sdei_support env then ctx1 else inject_sync_ea64 env esr ctx1)
         else unhandled_trap env ctx)"

section \<open>The services that answer\<close>

text \<open>
  The services whose initialisation succeeded, with their index, in the order of the table; the world is
  what the initialisation of each leaves to the next.
\<close>

fun live_svcs :: "nat \<Rightarrow> 'w rt_svc_desc list \<Rightarrow> 'w \<Rightarrow> (nat \<times> 'w rt_svc_desc) list" where
  "live_svcs index [] w = []"
| "live_svcs index (service # rest) w =
     (let (rc, w1) = (case svc_init service of None \<Rightarrow> (0, w) | Some f \<Rightarrow> f w)
      in if rc \<noteq> 0 then live_svcs (Suc index) rest w1 else (index, service) # live_svcs (Suc index) rest w1)"

definition covers_slot :: "'w rt_svc_desc \<Rightarrow> nat \<Rightarrow> bool" where
  "covers_slot d j \<longleftrightarrow> 64 * unat (call_type d) + unat (start_oen d) \<le> j \<and> j \<le> 64 * unat (call_type d) + unat (end_oen d)"

text \<open>A service answers a function of its owning entities and its call type.\<close>

definition svc_covers :: "'w rt_svc_desc \<Rightarrow> u32 \<Rightarrow> bool" where
  "svc_covers d fid \<longleftrightarrow> unat (start_oen d) \<le> unat (GET_SMC_OEN fid) \<and> unat (GET_SMC_OEN fid) \<le> unat (end_oen d) \<and>
     unat (GET_SMC_TYPE fid) = unat (call_type d)"

definition svc_for :: "'w rt_svc_desc list \<Rightarrow> 'w \<Rightarrow> u32 \<Rightarrow> 'w rt_svc_desc option" where
  "svc_for descs w fid =
     (case filter (\<lambda>(_, d). svc_covers d fid) (live_svcs 0 descs w) of [] \<Rightarrow> None | xs \<Rightarrow> Some (snd (last xs)))"

lemma unat_and_mask6: "unat (x AND 0x3f :: u32) = unat x mod 64"
proof -
  have "(0x3f :: u32) = mask 6"
    by (simp add: mask_eq_exp_minus_1)
  then have "x AND 0x3f = take_bit 6 x"
    by (simp add: take_bit_eq_mask)
  then show ?thesis
    by (simp add: take_bit_eq_mod unat_mod)
qed

lemma unat_unique_oen: "unat (get_unique_oen oen t) = 64 * (unat t mod 2) + unat oen mod 64"
proof -
  have t: "t AND 1 = (if odd t then 1 else 0)"
    by (simp add: and_one_eq mod_2_eq_odd)
  have "push_bit 6 (t AND 1) AND (oen AND 0x3f) = 0"
    by (simp add: t and.left_commute[of 64])
  moreover have "unat t mod 2 = unat (t AND 1)"
    by (simp only: and_one_eq) (simp add: unat_mod)
  ultimately show ?thesis
    unfolding get_unique_oen_def by (subst unat_or_disjoint) (simp_all add: unat_and_mask6 t)
qed

lemma fill_indices_eq:
  "fill_indices a b index ind i = (if unat a \<le> i \<and> i \<le> unat b then index else ind i)"
proof -
  have "fold (\<lambda>i ind. ind(i := index)) xs ind i = (if i \<in> set xs then index else ind i)" for xs
    by (induction xs arbitrary: ind) auto
  then show ?thesis
    by (auto simp: fill_indices_def less_Suc_eq_le simp del: upt_Suc)
qed

lemma valid_desc_slots:
  assumes "validate_rt_svc_desc d = 0"
  shows "unat (ucast (get_unique_oen (ucast (start_oen d)) (ucast (call_type d))) :: u8) = 64 * unat (call_type d) + unat (start_oen d)"
    and "unat (ucast (get_unique_oen (ucast (end_oen d)) (ucast (call_type d))) :: u8) = 64 * unat (call_type d) + unat (end_oen d)"
    and "64 * unat (call_type d) + unat (end_oen d) < MAX_RT_SVCS" and "unat (start_oen d) \<le> unat (end_oen d)"
proof -
  have d: "start_oen d \<le> end_oen d" "end_oen d < 64" "call_type d = 0 \<or> call_type d = 1"
    using assms by (auto simp: validate_rt_svc_desc_def not_le split: if_splits)
  then show le: "unat (start_oen d) \<le> unat (end_oen d)"
    by (simp add: word_le_nat_alt)
  have e: "unat (end_oen d) < 64" and s: "unat (start_oen d) < 64" and c: "unat (call_type d) < 2"
    using d le by (auto simp: word_less_nat_alt)
  then show "64 * unat (call_type d) + unat (end_oen d) < MAX_RT_SVCS"
    by simp
  have "unat (ucast (get_unique_oen (ucast (x :: u8)) (ucast (call_type d))) :: u8) = 64 * unat (call_type d) + unat x" if "unat x < 64" for x
    using that c by (simp add: unsigned_ucast_eq unat_unique_oen take_bit_eq_mod)
  then show "unat (ucast (get_unique_oen (ucast (start_oen d)) (ucast (call_type d))) :: u8) = 64 * unat (call_type d) + unat (start_oen d)"
    "unat (ucast (get_unique_oen (ucast (end_oen d)) (ucast (call_type d))) :: u8) = 64 * unat (call_type d) + unat (end_oen d)"
    using s e by blast+
qed

lemma svc_init_loop_spec:
  "svc_init_loop k ds ind w = Ret ind' w' \<Longrightarrow>
   ind' j = (case filter (\<lambda>(_, d). covers_slot d j) (live_svcs k ds w) of [] \<Rightarrow> ind j | xs \<Rightarrow> of_nat (fst (last xs)))"
proof (induction ds arbitrary: k ind w)
  case (Cons d ds)
  obtain rc w1 where i: "(case svc_init d of None \<Rightarrow> (0, w) | Some f \<Rightarrow> f w) = (rc, w1)"
    by fastforce
  have valid: "validate_rt_svc_desc d = 0"
    using Cons.prems by (simp split: if_splits)
  note slots = valid_desc_slots[OF valid]
  have none: "svc_init d = None \<Longrightarrow> rc = 0"
    using i by simp
  show ?case
  proof (cases "rc = 0")
    case False
    then obtain f where "svc_init d = Some f"
      using none by blast
    then have "svc_init_loop (Suc k) ds ind w1 = Ret ind' w'"
      using Cons.prems i valid False by simp
    then show ?thesis
      using Cons.IH[of "Suc k" ind w1] i False by simp
  next
    case True
    let ?ind = "fill_indices (ucast (get_unique_oen (ucast (start_oen d)) (ucast (call_type d))))
      (ucast (get_unique_oen (ucast (end_oen d)) (ucast (call_type d)))) (of_nat k) ind"
    have "svc_init_loop (Suc k) ds ?ind w1 = Ret ind' w'"
      using Cons.prems i valid True by (auto simp: Let_def split: if_splits)
    moreover have "?ind j = (if covers_slot d j then of_nat k else ind j)"
      unfolding fill_indices_eq slots(1,2) covers_slot_def ..
    ultimately show ?thesis
      using Cons.IH[of "Suc k" ?ind w1] i True by (auto split: list.splits)
  qed
qed simp

lemma live_svcs_nth: "(i, d) \<in> set (live_svcs k ds w) \<Longrightarrow> k \<le> i \<and> i < k + length ds \<and> ds ! (i - k) = d"
proof (induction ds arbitrary: k w)
  case (Cons a ds)
  obtain rc w1 where "(case svc_init a of None \<Rightarrow> (0, w) | Some f \<Rightarrow> f w) = (rc, w1)"
    by fastforce
  then consider "(i, d) = (k, a)" | "(i, d) \<in> set (live_svcs (Suc k) ds w1)"
    using Cons.prems by (auto split: if_splits)
  then show ?case
  proof cases
    case 2
    then show ?thesis
      using Cons.IH[OF 2] by (auto simp: nth_Cons' Suc_diff_le)
  qed simp
qed simp

lemma live_valid:
  "svc_init_loop k ds ind w = Ret ind' w' \<Longrightarrow> (i, d) \<in> set (live_svcs k ds w) \<Longrightarrow> validate_rt_svc_desc d = 0"
proof (induction ds arbitrary: k ind w)
  case (Cons a ds)
  obtain rc w1 where "(case svc_init a of None \<Rightarrow> (0, w) | Some f \<Rightarrow> f w) = (rc, w1)"
    by fastforce
  then show ?case
    using Cons by (auto simp: Let_def split: if_splits)
qed simp

lemma slot_range:
  fixes a c e s t :: nat
  assumes "a < 64" "e < 64" "s \<le> e" "t < 2" "c < 2"
  shows "64 * c + s \<le> 64 * t + a \<and> 64 * t + a \<le> 64 * c + e \<longleftrightarrow> s \<le> a \<and> a \<le> e \<and> t = c"
proof -
  have "t = 0 \<or> t = 1" "c = 0 \<or> c = 1"
    using assms by auto
  then show ?thesis
    using assms by (elim disjE) auto
qed

lemma covers_fid:
  assumes "validate_rt_svc_desc d = 0"
  shows "covers_slot d (unat (get_unique_oen_from_smc_fid fid)) \<longleftrightarrow> svc_covers d fid"
proof -
  have oen: "unat (GET_SMC_OEN fid) < 64" and type: "unat (GET_SMC_TYPE fid) < 2"
    by (simp_all add: GET_SMC_OEN_def unat_and_mask6 GET_SMC_TYPE_def and_one_eq unat_mod)
  have "unat (call_type d) < 2" "unat (end_oen d) < 64"
    using valid_desc_slots(3)[OF assms] assms by (auto simp: validate_rt_svc_desc_def not_le word_less_nat_alt split: if_splits)
  then show ?thesis
    using oen type valid_desc_slots(4)[OF assms] unfolding covers_slot_def svc_covers_def get_unique_oen_from_smc_fid_def unat_unique_oen
    by (simp add: slot_range)
qed

lemma handler_for_fid:
  assumes init: "runtime_svc_init descs ind0 w = Ret ind w'"
  shows "get_handler_for_smc_fid descs ind fid =
    (case svc_for descs w fid of None \<Rightarrow> Inr None
     | Some d \<Rightarrow> (case svc_handle d of None \<Rightarrow> Inl () | Some h \<Rightarrow> Inr (Some h)))"
proof -
  let ?j = "unat (get_unique_oen_from_smc_fid fid)"
  have j: "?j < MAX_RT_SVCS"
    by (simp add: get_unique_oen_from_smc_fid_def unat_unique_oen)
  show ?thesis
  proof (cases "descs = []")
    case True
    then show ?thesis
      using j by (simp add: get_handler_for_smc_fid_def svc_for_def)
  next
    case False
    then have loop: "svc_init_loop 0 descs (\<lambda>_. 0xff) w = Ret ind w'" and len: "length descs < MAX_RT_SVCS"
      using init by (simp_all add: runtime_svc_init_def split: if_splits)
    let ?xs = "filter (\<lambda>(_, d). covers_slot d ?j) (live_svcs 0 descs w)"
    have same: "?xs = filter (\<lambda>(_, d). svc_covers d fid) (live_svcs 0 descs w)"
      using covers_fid live_valid[OF loop] by (intro filter_cong) auto
    have entry: "ind ?j = (case ?xs of [] \<Rightarrow> 0xff | xs \<Rightarrow> of_nat (fst (last xs)))"
      by (rule svc_init_loop_spec[OF loop])
    show ?thesis
    proof (cases "?xs = []")
      case True
      then show ?thesis
        using j len entry same by (simp add: get_handler_for_smc_fid_def svc_for_def)
    next
      case nonempty: False
      obtain i d where last: "last ?xs = (i, d)"
        by fastforce
      then have "(i, d) \<in> set (live_svcs 0 descs w)"
        using last_in_set[OF nonempty] by simp
      then have i: "i < length descs" "descs ! i = d"
        using live_svcs_nth by fastforce+
      have "unat (ind ?j) = i"
        using entry nonempty last i len by (cases ?xs) (simp_all add: unat_of_nat)
      moreover have "svc_for descs w fid = Some d"
        unfolding svc_for_def same[symmetric] using nonempty last by (cases ?xs) simp_all
      ultimately show ?thesis
        using j i by (simp add: get_handler_for_smc_fid_def)
    qed
  qed
qed

section \<open>Properties\<close>

text \<open>
  C8. The dispatch of SMCs after the table of services has been initialised: for every function identifier, a fast
  call with a reserved bit set is answered as unknown; otherwise the call goes to the last service of
  the table that covers the owning entity and the type of the call and whose initialisation succeeded,
  with the arguments of the caller and the hint bit cleared; and when there is none, the caller finds the
  unknown-function code in its first register and nothing else has changed.
\<close>

theorem smc_dispatch_correct:
  assumes "runtime_svc_init descs ind0 w = Ret ind w'"
  shows "sync_handler env descs ind ctx smc_fid scr =
    (let fid = smc_fid AND NOT FUNCID_SVE_HINT;
         unknown = Ret () (ctx\<lparr>gpreg := (gpreg ctx)(0 := SMC_UNKNOWN)\<rparr>)
     in if GET_SMC_TYPE smc_fid = 1 \<and> drop_bit 17 smc_fid AND 0x7f \<noteq> 0 then unknown
        else case svc_for descs w fid of
               None \<Rightarrow> unknown
             | Some d \<Rightarrow> (case svc_handle d of
                   None \<Rightarrow> Halt
                 | Some h \<Rightarrow> Ret () (h fid (gpreg ctx 1) (gpreg ctx 2) (gpreg ctx 3) (gpreg ctx 4) (get_flags env fid scr) ctx)))"
  unfolding sync_handler_def handler_for_fid[OF assms] smc_unknown_def Let_def by (auto split: option.splits)

text \<open>
  C29. The SVE hint bit of the SMC calling convention has no effect: a call with the hint is handled exactly as the
  same call without it, and the flags given to the service never carry the hint.
\<close>

theorem smc_sve_hint_ignored:
  "sync_handler env descs ind ctx (smc_fid OR FUNCID_SVE_HINT) scr = sync_handler env descs ind ctx (smc_fid AND NOT FUNCID_SVE_HINT) scr \<and>
   \<not> bit (get_flags env (smc_fid AND NOT FUNCID_SVE_HINT) scr) 16"
proof
  have hint: "FUNCID_SVE_HINT = push_bit 16 1"
    by simp
  note bits = bit_drop_bit_eq bit_or_iff bit_and_iff bit_not_iff bit_push_bit_iff bit_1_iff o_def
  have "GET_SMC_TYPE (smc_fid OR FUNCID_SVE_HINT) = GET_SMC_TYPE (smc_fid AND NOT FUNCID_SVE_HINT)"
    unfolding GET_SMC_TYPE_def hint by (rule bit_eqI) (simp only: bits, auto dest: bit_imp_possible_bit)
  moreover have "drop_bit 17 (smc_fid OR FUNCID_SVE_HINT) = drop_bit 17 (smc_fid AND NOT FUNCID_SVE_HINT)"
    unfolding hint by (rule bit_eqI) (simp only: bits, auto dest: bit_imp_possible_bit)
  moreover have "(smc_fid OR FUNCID_SVE_HINT) AND NOT FUNCID_SVE_HINT = smc_fid AND NOT FUNCID_SVE_HINT"
    unfolding hint by (rule bit_eqI) (simp only: bits, auto dest: bit_imp_possible_bit)
  moreover have "(smc_fid AND NOT FUNCID_SVE_HINT) AND NOT FUNCID_SVE_HINT = smc_fid AND NOT FUNCID_SVE_HINT"
    unfolding hint by (rule bit_eqI) (simp only: bits, auto dest: bit_imp_possible_bit)
  ultimately show "sync_handler env descs ind ctx (smc_fid OR FUNCID_SVE_HINT) scr =
      sync_handler env descs ind ctx (smc_fid AND NOT FUNCID_SVE_HINT) scr"
    by (simp add: sync_handler_def)
  have "(smc_fid AND NOT FUNCID_SVE_HINT) AND FUNCID_SVE_HINT = 0"
    by (simp add: and.assoc)
  then show "\<not> bit (get_flags env (smc_fid AND NOT FUNCID_SVE_HINT) scr) 16"
    by (auto simp: get_flags_def bit_simps)
qed

text \<open>
  C30. Asynchronous external aborts from a lower exception level: the handler takes the error type from the
  syndrome whenever the fault status code is that of an SError, whatever the bit that marks an
  implementation-defined syndrome says; setting or clearing that bit changes nothing in the choice between
  the two platform handlers.
\<close>

theorem async_ea_ids_ignored:
  assumes "feat_ras env" and "drop_bit 26 esr AND 0x3f = 0x2f"
  shows "handler_lower_el_async_ea env esr ctx =
    Ret () (if esr AND 0x3f = 0x11 \<and> drop_bit 10 esr AND 0x7 = 0 then plat_handle_uncontainable_ea env ctx
            else ea_proceed env 0 esr (saved_scr_el3 ctx) ctx)"
proof -
  have "esr AND 24 \<noteq> 0" if "esr AND 0x3f = 0x11"
  proof
    assume "esr AND 24 = 0"
    then have "(esr AND 0x3f) AND 24 = 0"
      by (simp add: and.assoc)
    then show False
      using that by simp
  qed
  then show ?thesis
    using assms by (auto simp: handler_lower_el_async_ea_def)
qed

section \<open>Examples\<close>

text \<open>
  A table with one service for the fast calls of owning entities 4 to 5, which counts its calls, and an
  environment whose platform handlers leave the context alone or mark it.
\<close>

definition svc_example :: "nat rt_svc_desc list" where
  "svc_example = [\<lparr>start_oen = 4, end_oen = 5, call_type = SMC_TYPE_FAST, svc_init = Some (\<lambda>w. (0, w)),
     svc_handle = Some (\<lambda>fid x1 x2 x3 x4 flags ctx. ctx\<lparr>gpreg := (gpreg ctx)(0 := x1 + 1), world := Suc (world ctx)\<rparr>)\<rparr>]"

definition env_example :: "nat exc_env" where
  "env_example = \<lparr>include_aarch32_regs = False, ffh_support = True, sdei_support = False, rmm_support = False, feat_ras = True,
     handle_sysreg_trap = (\<lambda>_ _ ctx. (1, ctx)), plat_ea_handler = (\<lambda>_ _ _ ctx. ctx), plat_handle_double_fault = (\<lambda>_ _ ctx. ctx),
     plat_handle_uncontainable_ea = (\<lambda>ctx. ctx\<lparr>world := 7\<rparr>), inject_sync_ea64 = (\<lambda>_ ctx. ctx), inject_undef64 = (\<lambda>ctx. ctx), spsr_el3 = 0\<rparr>"

definition ctx_example :: "nat caller_ctx" where
  "ctx_example = \<lparr>gpreg = (\<lambda>i. of_nat i), sp_el0 = 0, saved_scr_el3 = 1, saved_elr_el3 = 0, double_fault_esr = 0, world = 0\<rparr>"

theorem smc_dispatch_correct_witness:
  "\<exists>ind. runtime_svc_init svc_example (\<lambda>_. 0) 0 = Ret ind 0 \<and>
     sync_handler env_example svc_example ind ctx_example 0x84000000 1 =
       Ret () (ctx_example\<lparr>gpreg := (gpreg ctx_example)(0 := 2), world := 1\<rparr>) \<and>
     sync_handler env_example svc_example ind ctx_example 0x87000000 1 = Ret () (ctx_example\<lparr>gpreg := (gpreg ctx_example)(0 := SMC_UNKNOWN)\<rparr>)"
proof -
  obtain ind where i: "runtime_svc_init svc_example (\<lambda>_. 0) 0 = Ret ind 0"
    by (simp add: runtime_svc_init_def svc_example_def validate_rt_svc_desc_def get_unique_oen_def Let_def)
  have "svc_for svc_example 0 0x84000000 = Some (svc_example ! 0)" "svc_for svc_example 0 0x87000000 = None"
    by (simp_all add: svc_for_def svc_example_def svc_covers_def GET_SMC_OEN_def GET_SMC_TYPE_def)
  then show ?thesis
    using smc_dispatch_correct[OF i, of env_example ctx_example "0x84000000" 1]
      smc_dispatch_correct[OF i, of env_example ctx_example "0x87000000" 1] i
    by (simp add: GET_SMC_TYPE_def svc_example_def ctx_example_def Let_def)
qed

theorem async_ea_ids_ignored_witness:
  "feat_ras env_example \<and> (drop_bit 26 (0xBD000011 :: u64)) AND 0x3f = 0x2f \<and> bit (0xBD000011 :: u64) 24 \<and>
   handler_lower_el_async_ea env_example 0xBD000011 ctx_example = Ret () (ctx_example\<lparr>world := 7\<rparr>)"
  using async_ea_ids_ignored[of env_example "0xBD000011" ctx_example] by (simp add: env_example_def)

end
