(* ===== verification/Ehf.thy ===== *)
theory Ehf
  imports Interrupt_Mgmt
begin

unbundle bit_operations_syntax

text \<open>
  The EL3 exception handling framework, \<open>bl31/ehf.c\<close> with \<open>include/bl31/ehf.h\<close>: priority levels of
  exceptions handled at EL3, their activation and deactivation, and the priority mask on the way between
  the worlds. The priority mask and the running priority are the GIC CPU interface registers, through
  \<open>drivers/arm/gic/v3/gicv3_main.c\<close>; handlers are addresses, as in the code.
\<close>

section \<open>Data\<close>

abbreviation (input) EHF_PRI_VALID :: u64 where "EHF_PRI_VALID \<equiv> 1"
abbreviation (input) EHF_NO_HANDLER :: u64 where "EHF_NO_HANDLER \<equiv> 1"
abbreviation (input) EHF_INVALID_IDX :: int where "EHF_INVALID_IDX \<equiv> - 1"
abbreviation (input) GIC_HIGHEST_NS_PRIORITY :: u32 where "GIC_HIGHEST_NS_PRIORITY \<equiv> 0x80"

text \<open>The constant part of the platform's \<open>exception_data\<close>.\<close>

record ehf_priorities =
  num_priorities :: nat
  pri_bits :: nat

text \<open>
  The per-CPU data of a core, its priority mask and running priority registers, the table of handlers, and the
  first register of the saved non-secure context.
\<close>

record ehf_state =
  active_pri_bits :: u32
  init_pri_mask :: u8
  ns_pri_mask :: u8
  icc_pmr :: u32
  icc_rpr :: u32
  ehf_handler :: "nat \<Rightarrow> u64"
  ns_ctx_x0 :: "u64 option"

section \<open>Priorities and indices\<close>

text \<open>
  The platform's number of priority bits is from 1 to 7. For more, the distance of the shifts in C is negative
  and their result undefined; the distance of the model is then 0, and nothing is meant by it.
\<close>

definition EHF_PRI_TO_IDX :: "ehf_priorities \<Rightarrow> u32 \<Rightarrow> nat" where
  "EHF_PRI_TO_IDX pd pri = unat (drop_bit (7 - pri_bits pd) (pri AND 0x7f))"

definition IDX_TO_PRI :: "ehf_priorities \<Rightarrow> nat \<Rightarrow> u32" where
  "IDX_TO_PRI pd idx = push_bit (7 - pri_bits pd) (of_nat idx) AND 0x7f"

definition IS_IDX_VALID :: "nat \<Rightarrow> ehf_state \<Rightarrow> bool" where
  "IS_IDX_VALID idx s \<longleftrightarrow> ehf_handler s idx AND EHF_PRI_VALID \<noteq> 0"

definition IS_PRI_SECURE :: "u32 \<Rightarrow> bool" where
  "IS_PRI_SECURE pri \<longleftrightarrow> pri AND 0x80 = 0"

definition PRI_BIT :: "nat \<Rightarrow> u32" where
  "PRI_BIT idx = push_bit idx 1"

definition pri_to_idx :: "ehf_priorities \<Rightarrow> u32 \<Rightarrow> ehf_state \<Rightarrow> nat option" where
  "pri_to_idx pd priority s =
     (let idx = EHF_PRI_TO_IDX pd priority
      in if idx < num_priorities pd \<and> IS_IDX_VALID idx s then Some idx else None)"

definition has_valid_pri_activations :: "ehf_state \<Rightarrow> bool" where
  "has_valid_pri_activations s \<longleftrightarrow> active_pri_bits s \<noteq> 0"

text \<open>\<open>__builtin_ctz\<close> of a word that is not zero.\<close>

definition builtin_ctz :: "u32 \<Rightarrow> nat" where
  "builtin_ctz w = hd (filter (bit w) [0..<32])"

definition get_pe_highest_active_idx :: "ehf_state \<Rightarrow> int" where
  "get_pe_highest_active_idx s =
     (if \<not> has_valid_pri_activations s then EHF_INVALID_IDX else int (builtin_ctz (active_pri_bits s)))"

section \<open>The GIC CPU interface\<close>

definition gicv3_set_pmr :: "u32 \<Rightarrow> ehf_state \<Rightarrow> u32 \<times> ehf_state" where
  "gicv3_set_pmr pmr s = (icc_pmr s, s\<lparr>icc_pmr := pmr\<rparr>)"

definition gicv3_get_running_priority :: "ehf_state \<Rightarrow> u32" where
  "gicv3_get_running_priority s = icc_rpr s"

section \<open>Activation\<close>

definition ehf_activate_priority :: "ehf_priorities \<Rightarrow> u32 \<Rightarrow> ehf_state \<Rightarrow> (unit, ehf_state) outcome" where
  "ehf_activate_priority pd priority s =
     (let run_pri = gicv3_get_running_priority s
      in if priority \<ge> run_pri then Halt
         else let cur_pri_idx = get_pe_highest_active_idx s
              in case pri_to_idx pd priority s of
                   None \<Rightarrow> Halt
                 | Some idx \<Rightarrow>
                     if cur_pri_idx \<noteq> EHF_INVALID_IDX \<and> idx \<ge> nat cur_pri_idx then Halt
                     else let s1 = s\<lparr>active_pri_bits := active_pri_bits s OR PRI_BIT idx\<rparr>;
                              (old_mask, s2) = gicv3_set_pmr priority s1
                          in if priority \<ge> old_mask then Halt
                             else Ret () (if cur_pri_idx = EHF_INVALID_IDX then s2\<lparr>init_pri_mask := ucast old_mask\<rparr> else s2))"

definition ehf_deactivate_priority :: "ehf_priorities \<Rightarrow> u32 \<Rightarrow> ehf_state \<Rightarrow> (unit, ehf_state) outcome" where
  "ehf_deactivate_priority pd priority s =
     (let run_pri = gicv3_get_running_priority s
      in if priority \<ge> run_pri then Halt
         else let cur_pri_idx = get_pe_highest_active_idx s
              in case pri_to_idx pd priority s of
                   None \<Rightarrow> Halt
                 | Some idx \<Rightarrow>
                     if cur_pri_idx = EHF_INVALID_IDX \<or> idx \<noteq> nat cur_pri_idx then Halt
                     else let s1 = s\<lparr>active_pri_bits := active_pri_bits s AND (active_pri_bits s - 1)\<rparr>;
                              (old_mask, s2) = gicv3_set_pmr
                                (if get_pe_highest_active_idx s1 = EHF_INVALID_IDX then ucast (init_pri_mask s1) else priority) s1
                          in if old_mask > priority then Halt else Ret () s2)"

section \<open>Between the worlds\<close>

definition ehf_exited_normal_world :: "ehf_state \<Rightarrow> (unit, ehf_state) outcome" where
  "ehf_exited_normal_world s =
     (if IS_PRI_SECURE (gicv3_get_running_priority s) then Ret () s
      else if has_valid_pri_activations s then Ret () s
      else if ns_pri_mask s \<noteq> 0 then Halt
      else let (old, s1) = gicv3_set_pmr GIC_HIGHEST_NS_PRIORITY s;
               s2 = s1\<lparr>ns_pri_mask := ucast old\<rparr>
           in if IS_PRI_SECURE (ucast (ns_pri_mask s2)) then Halt else Ret () s2)"

definition ehf_entering_normal_world :: "ehf_state \<Rightarrow> (unit, ehf_state) outcome" where
  "ehf_entering_normal_world s =
     (if IS_PRI_SECURE (gicv3_get_running_priority s) then Ret () s
      else if has_valid_pri_activations s then Ret () s
      else if ns_pri_mask s = 0 then Ret () s
      else let (old_pmr, s1) = gicv3_set_pmr (ucast (ns_pri_mask s)) s
           in if old_pmr \<noteq> GIC_HIGHEST_NS_PRIORITY \<and> old_pmr \<noteq> ucast (ns_pri_mask s1) then Halt
              else Ret () (s1\<lparr>ns_pri_mask := 0\<rparr>))"

definition ehf_allow_ns_preemption :: "u64 \<Rightarrow> ehf_state \<Rightarrow> (unit, ehf_state) outcome" where
  "ehf_allow_ns_preemption preempt_ret_code s =
     (if ns_pri_mask s = 0 then Halt
      else if has_valid_pri_activations s then Halt
      else if ns_ctx_x0 s = None then Halt
      else let s1 = s\<lparr>ns_ctx_x0 := Some preempt_ret_code\<rparr>;
               (old_pmr, s2) = gicv3_set_pmr (ucast (ns_pri_mask s1)) s1
           in Ret () (s2\<lparr>ns_pri_mask := 0\<rparr>))"

definition ehf_is_ns_preemption_allowed :: "ehf_state \<Rightarrow> bool" where
  "ehf_is_ns_preemption_allowed s \<longleftrightarrow>
     \<not> IS_PRI_SECURE (gicv3_get_running_priority s) \<and> \<not> has_valid_pri_activations s \<and> ns_pri_mask s = 0"

section \<open>Interrupts\<close>

text \<open>
  The interrupt controller's acknowledge, which may change the running priority, its reading of an
  identifier, and the call of a handler at an address.
\<close>

record ehf_ic =
  ic_acknowledge :: "ehf_state \<Rightarrow> u32 \<times> ehf_state"
  ic_interrupt_id :: "u32 \<Rightarrow> u32"
  ic_call :: "u64 \<Rightarrow> u32 \<Rightarrow> u32 \<Rightarrow> ehf_state \<Rightarrow> int \<times> ehf_state"

definition RAW_HANDLER :: "u64 \<Rightarrow> u64" where
  "RAW_HANDLER h = (if h AND EHF_PRI_VALID \<noteq> 0 then h AND NOT EHF_PRI_VALID else 0)"

definition ehf_el3_interrupt_handler ::
  "ehf_priorities \<Rightarrow> ehf_ic \<Rightarrow> u32 \<Rightarrow> u32 \<Rightarrow> ehf_state \<Rightarrow> (u64, ehf_state) outcome" where
  "ehf_el3_interrupt_handler pd ic intr_id flags s =
     (if intr_id \<noteq> INTR_ID_UNAVAILABLE then Halt
      else let (intr_raw, s1) = ic_acknowledge ic s;
               intr = ic_interrupt_id ic intr_raw
           in if intr = INTR_ID_UNAVAILABLE then Ret 0 s1
              else let pri = gicv3_get_running_priority s1
                   in if \<not> IS_PRI_SECURE pri then Halt
                      else case pri_to_idx pd pri s1 of
                             None \<Rightarrow> Halt
                           | Some idx \<Rightarrow>
                               if pri \<noteq> IDX_TO_PRI pd idx then Halt
                               else let handler = RAW_HANDLER (ehf_handler s1 idx)
                                    in if handler = 0 then Halt
                                       else let (ret, s2) = ic_call ic handler intr_raw flags s1
                                            in Ret (word_of_int ret) s2)"

definition ehf_register_priority_handler :: "ehf_priorities \<Rightarrow> u32 \<Rightarrow> u64 \<Rightarrow> ehf_state \<Rightarrow> (unit, ehf_state) outcome" where
  "ehf_register_priority_handler pd pri handler s =
     (if handler = 0 \<or> handler AND 3 \<noteq> 0 then Halt
      else case pri_to_idx pd pri s of
             None \<Rightarrow> Halt
           | Some idx \<Rightarrow>
               if \<not> idx < num_priorities pd \<or> IDX_TO_PRI pd idx \<noteq> pri then Halt
               else if ehf_handler s idx \<noteq> EHF_NO_HANDLER then Halt
               else Ret () (s\<lparr>ehf_handler := (ehf_handler s)(idx := handler OR EHF_PRI_VALID)\<rparr>))"

text \<open>
  The initialisation registers the handler of EL3 interrupts, routed to EL3 from the non-secure state. The
  assertion on \<open>pri_bits\<close> is a disjunction that always holds.
\<close>

definition ehf_init :: "ehf_priorities \<Rightarrow> 'h \<Rightarrow> 'h intr_state \<Rightarrow> (unit, 'h intr_state) outcome" where
  "ehf_init pd handler s =
     (if \<not> plat_ic_has_interrupt_type INTR_TYPE_EL3 then Halt
      else if \<not> num_priorities pd \<le> 32 then Halt
      else if \<not> (pri_bits pd \<ge> 1 \<or> pri_bits pd < 8) then Halt
      else obind (register_interrupt_type_handler INTR_TYPE_EL3 (Some handler) (0 OR push_bit NON_SECURE 1) s)
             (\<lambda>ret s1. if ret = 0 then Ret () s1 else Halt))"

section \<open>The bitmap as a stack\<close>

text \<open>The indices of the active priorities, the most urgent first.\<close>

definition active_idxs :: "ehf_state \<Rightarrow> nat list" where
  "active_idxs s = filter (bit (active_pri_bits s)) [0..<32]"

lemma filter_bit_Nil:
  fixes w :: u32
  shows "filter (bit w) [0..<32] = [] \<longleftrightarrow> w = 0"
proof
  assume "filter (bit w) [0..<32] = []"
  then have "\<not> bit w n" for n
    using bit_imp_le_length [of w n] by (auto simp: filter_empty_conv)
  then show "w = 0" by (simp add: bit_eq_iff)
qed simp

lemma active_idxs_Nil [simp]: "active_idxs s = [] \<longleftrightarrow> active_pri_bits s = 0"
  by (simp add: active_idxs_def filter_bit_Nil)

lemma highest_active_idx:
  "get_pe_highest_active_idx s = (case active_idxs s of [] \<Rightarrow> - 1 | i # is \<Rightarrow> int i)"
  by (cases "active_idxs s")
    (auto simp: get_pe_highest_active_idx_def has_valid_pri_activations_def builtin_ctz_def
       active_idxs_def filter_bit_Nil)

lemma active_idxs_sorted: "sorted_wrt (<) (active_idxs s)"
  by (simp add: active_idxs_def sorted_wrt_filter)

lemma active_idxs_below: "active_idxs s = i # is \<Longrightarrow> n < i \<Longrightarrow> \<not> bit (active_pri_bits s) n"
proof -
  assume a: "active_idxs s = i # is" and n: "n < i"
  have "i \<in> set (active_idxs s)" using a by simp
  then have i: "i < 32" by (simp add: active_idxs_def)
  have "n \<notin> set (active_idxs s)"
    using active_idxs_sorted [of s] n unfolding a by auto
  then show ?thesis using n i by (simp add: active_idxs_def)
qed

lemma filter_upt_insert:
  assumes "i < n" "\<And>m. P m \<Longrightarrow> i < m"
  shows "filter (\<lambda>m. P m \<or> m = i) [0..<n] = i # filter P [0..<n]"
proof -
  have u: "[0..<n] = [0..<i] @ i # [Suc i..<n]"
    using assms(1) by (metis le0 less_imp_le upt_add_eq_append upt_conv_Cons le_add_diff_inverse add_0)
  have "filter (\<lambda>m. P m \<or> m = i) [0..<i] = []" "filter P [0..<i] = []" "\<not> P i"
    by (auto simp: filter_empty_conv dest!: assms(2))
  moreover have "filter (\<lambda>m. P m \<or> m = i) [Suc i..<n] = filter P [Suc i..<n]"
    by (rule filter_cong) auto
  ultimately show ?thesis unfolding u by simp
qed

lemma push_lowest_bit:
  fixes w :: u32
  assumes "idx < 32" "\<And>m. bit w m \<Longrightarrow> idx < m"
  shows "filter (bit (w OR PRI_BIT idx)) [0..<32] = idx # filter (bit w) [0..<32]"
proof -
  have "filter (bit (w OR PRI_BIT idx)) [0..<32] = filter (\<lambda>m. bit w m \<or> m = idx) [0..<32]"
    by (rule filter_cong) (auto simp: PRI_BIT_def bit_simps)
  then show ?thesis using filter_upt_insert [OF assms] by simp
qed

lemma clear_lowest_bit:
  fixes w :: u32
  assumes "idx < 32" "\<And>m. bit w m \<Longrightarrow> idx < m"
  shows "(w OR PRI_BIT idx) AND ((w OR PRI_BIT idx) - 1) = w"
proof -
  have d: "w AND PRI_BIT idx = 0" "w AND mask idx = 0"
    by (rule bit_word_eqI, auto simp: bit_simps PRI_BIT_def dest!: assms(2))+
  have "(w OR PRI_BIT idx) - 1 = w + (PRI_BIT idx - 1)"
    using d(1) by (simp add: disjunctive_add_eq_or [symmetric])
  also have "\<dots> = w OR mask idx"
    using d(2) by (simp add: PRI_BIT_def push_bit_eq_mult mask_eq_exp_minus_1 [symmetric] disjunctive_add_eq_or)
  finally have e: "(w OR PRI_BIT idx) - 1 = w OR mask idx" .
  show ?thesis unfolding e
  proof (rule bit_word_eqI)
    fix n
    show "bit ((w OR PRI_BIT idx) AND (w OR mask idx)) n = bit w n"
      using assms(2) [of n] by (auto simp: bit_simps PRI_BIT_def)
  qed
qed

section \<open>What an activation does\<close>

lemma pri_to_idx_Some: "pri_to_idx pd p s = Some i \<longleftrightarrow> i = EHF_PRI_TO_IDX pd p \<and> i < num_priorities pd \<and> IS_IDX_VALID i s"
  by (auto simp: pri_to_idx_def Let_def)

lemma ehf_activate_cases:
  assumes "ehf_activate_priority pd p s = Ret () s'"
  obtains i where "pri_to_idx pd p s = Some i" "p < icc_rpr s" "p < icc_pmr s"
    "\<And>m. bit (active_pri_bits s) m \<Longrightarrow> i < m"
    "s' = s\<lparr>active_pri_bits := active_pri_bits s OR PRI_BIT i, icc_pmr := p,
       init_pri_mask := (if active_pri_bits s = 0 then ucast (icc_pmr s) else init_pri_mask s)\<rparr>"
proof -
  from assms obtain i where i: "pri_to_idx pd p s = Some i" and p: "p < icc_rpr s" "p < icc_pmr s"
    and c: "active_idxs s = [] \<or> i < hd (active_idxs s)"
    and s': "s' = s\<lparr>active_pri_bits := active_pri_bits s OR PRI_BIT i, icc_pmr := p,
       init_pri_mask := (if active_pri_bits s = 0 then ucast (icc_pmr s) else init_pri_mask s)\<rparr>"
    by (cases "active_idxs s") (auto simp: ehf_activate_priority_def Let_def gicv3_set_pmr_def gicv3_get_running_priority_def
        highest_active_idx not_le simp flip: active_idxs_Nil split: if_splits option.splits)
  have "i < m" if "bit (active_pri_bits s) m" for m
    using c that active_idxs_below [of s "hd (active_idxs s)" "tl (active_idxs s)" m]
    by (cases "active_idxs s") (auto simp: active_idxs_Nil [symmetric] simp del: active_idxs_Nil, force+)
  then show ?thesis using that i p s' by blast
qed

lemma ehf_deactivate_cases:
  assumes "ehf_deactivate_priority pd p s = Ret () s'"
  obtains i where "pri_to_idx pd p s = Some i" "p < icc_rpr s" "icc_pmr s \<le> p"
    "active_idxs s = i # tl (active_idxs s)"
    "s' = s\<lparr>active_pri_bits := active_pri_bits s AND (active_pri_bits s - 1),
       icc_pmr := (if active_pri_bits s AND (active_pri_bits s - 1) = 0 then ucast (init_pri_mask s) else p)\<rparr>"
proof -
  have h: "get_pe_highest_active_idx t = - 1 \<longleftrightarrow> active_pri_bits t = 0" for t
    by (auto simp: get_pe_highest_active_idx_def has_valid_pri_activations_def)
  have n: "get_pe_highest_active_idx s \<noteq> - 1 \<Longrightarrow> i = nat (get_pe_highest_active_idx s)
    \<Longrightarrow> active_idxs s = i # tl (active_idxs s)" for i
    by (cases "active_idxs s") (auto simp: highest_active_idx)
  show ?thesis
    using assms that n
    by (auto simp: ehf_deactivate_priority_def Let_def gicv3_set_pmr_def gicv3_get_running_priority_def h not_less
        split: if_splits option.splits)
qed

lemma active_bits_Cons:
  assumes "active_idxs s = i # is"
  shows "i < 32" and "\<And>m. bit (active_pri_bits s AND NOT (PRI_BIT i)) m \<Longrightarrow> i < m"
    and "active_pri_bits s = (active_pri_bits s AND NOT (PRI_BIT i)) OR PRI_BIT i"
proof -
  have "i \<in> set (active_idxs s)" using assms by simp
  then show i: "i < 32" by (simp add: active_idxs_def)
  have bi: "bit (active_pri_bits s) i"
    using \<open>i \<in> set (active_idxs s)\<close> by (simp add: active_idxs_def)
  show "i < m" if "bit (active_pri_bits s AND NOT (PRI_BIT i)) m" for m
    using that active_idxs_below [OF assms, of m] i by (auto simp: bit_simps PRI_BIT_def) (metis linorder_neqE_nat)
  show "active_pri_bits s = (active_pri_bits s AND NOT (PRI_BIT i)) OR PRI_BIT i"
    using bi i by (auto intro!: bit_word_eqI simp: bit_simps PRI_BIT_def)
qed

lemma ehf_activate_push:
  assumes "num_priorities pd \<le> 32" "ehf_activate_priority pd p s = Ret () s'"
  shows "active_idxs s' = EHF_PRI_TO_IDX pd p # active_idxs s"
  using assms(2)
proof (cases rule: ehf_activate_cases)
  case (1 i)
  then have "i < 32" "i = EHF_PRI_TO_IDX pd p" using assms(1) by (auto simp: pri_to_idx_Some)
  then show ?thesis using push_lowest_bit [of i "active_pri_bits s"] 1 by (simp add: active_idxs_def)
qed

lemma ehf_deactivate_bits:
  assumes "active_idxs s = i # is"
  shows "active_pri_bits s AND (active_pri_bits s - 1) = active_pri_bits s AND NOT (PRI_BIT i)"
    and "active_idxs (s\<lparr>active_pri_bits := active_pri_bits s AND NOT (PRI_BIT i)\<rparr>) = is"
proof -
  note b = active_bits_Cons [OF assms]
  show "active_pri_bits s AND (active_pri_bits s - 1) = active_pri_bits s AND NOT (PRI_BIT i)"
    using clear_lowest_bit [of i "active_pri_bits s AND NOT (PRI_BIT i)"] b by metis
  have "i # is = i # filter (bit (active_pri_bits s AND NOT (PRI_BIT i))) [0..<32]"
    using push_lowest_bit [of i "active_pri_bits s AND NOT (PRI_BIT i)"] b assms by (metis active_idxs_def)
  then show "active_idxs (s\<lparr>active_pri_bits := active_pri_bits s AND NOT (PRI_BIT i)\<rparr>) = is"
    by (simp add: active_idxs_def)
qed

lemma active_idxs_cong: "active_pri_bits s = active_pri_bits t \<Longrightarrow> active_idxs s = active_idxs t"
  by (simp add: active_idxs_def)

lemma ehf_deactivate_pop:
  assumes "ehf_deactivate_priority pd p s = Ret () s'"
  shows "active_idxs s = EHF_PRI_TO_IDX pd p # active_idxs s'"
  using assms
proof (cases rule: ehf_deactivate_cases)
  case (1 i)
  note b = ehf_deactivate_bits [OF 1(4)]
  have "active_idxs s' = active_idxs (s\<lparr>active_pri_bits := active_pri_bits s AND NOT (PRI_BIT i)\<rparr>)"
    by (rule active_idxs_cong) (simp add: 1(5) b(1))
  then show ?thesis using 1(1,4) b(2) by (simp add: pri_to_idx_Some)
qed

section \<open>The priority mask\<close>

text \<open>
  The steps of a core: the operations of the framework for priorities of the secure range, a change of the
  running priority by the interrupt controller, and a write of the priority mask by the normal world,
  which the controller confines to the non-secure range and ignores while the mask is in the secure one.
\<close>

inductive ehf_step :: "ehf_priorities \<Rightarrow> ehf_state \<Rightarrow> ehf_state \<Rightarrow> bool" for pd where
  activate: "p < 0x80 \<Longrightarrow> ehf_activate_priority pd p s = Ret () t \<Longrightarrow> ehf_step pd s t"
| deactivate: "p < 0x80 \<Longrightarrow> ehf_deactivate_priority pd p s = Ret () t \<Longrightarrow> ehf_step pd s t"
| exited: "ehf_exited_normal_world s = Ret () t \<Longrightarrow> ehf_step pd s t"
| entering: "ehf_entering_normal_world s = Ret () t \<Longrightarrow> ehf_step pd s t"
| allow: "ehf_allow_ns_preemption c s = Ret () t \<Longrightarrow> ehf_step pd s t"
| register: "ehf_register_priority_handler pd p h s = Ret () t \<Longrightarrow> ehf_step pd s t"
| running: "ehf_step pd s (s\<lparr>icc_rpr := r\<rparr>)"
| ns_mask: "0x80 \<le> icc_pmr s \<Longrightarrow> 0x80 \<le> m \<Longrightarrow> m < 0x100 \<Longrightarrow> ehf_step pd s (s\<lparr>icc_pmr := m\<rparr>)"

text \<open>The start: the initialisation has passed its assertion on the number of priorities.\<close>

definition ehf_start :: "ehf_priorities \<Rightarrow> ehf_state \<Rightarrow> bool" where
  "ehf_start pd s \<longleftrightarrow> num_priorities pd \<le> 32 \<and> active_pri_bits s = 0 \<and> ns_pri_mask s = 0 \<and> 0x80 \<le> icc_pmr s \<and> icc_pmr s < 0x100"

definition ehf_inv :: "ehf_priorities \<Rightarrow> ehf_state \<Rightarrow> bool" where
  "ehf_inv pd s \<longleftrightarrow> num_priorities pd \<le> 32 \<and>
     (if active_pri_bits s = 0 then 0x80 \<le> icc_pmr s else icc_pmr s < 0x80 \<and> 0x80 \<le> init_pri_mask s) \<and>
     icc_pmr s < 0x100 \<and> (ns_pri_mask s = 0 \<or> 0x80 \<le> ns_pri_mask s) \<and>
     (\<forall>i \<in> set (active_idxs s). i < num_priorities pd \<and> IS_IDX_VALID i s)"

lemma ucast_ge_80: "0x80 \<le> (m :: u32) \<Longrightarrow> m < 0x100 \<Longrightarrow> (0x80 :: u8) \<le> ucast m"
  by (simp add: word_le_nat_alt word_less_nat_alt unsigned_ucast_eq take_bit_eq_mod)

lemma ucast_u8_ge: "(0x80 :: u8) \<le> m \<Longrightarrow> (0x80 :: u32) \<le> ucast m"
  using unat_u8_less [of m] by (simp add: word_le_nat_alt unsigned_ucast_eq take_bit_eq_mod)

lemma ucast_u8_less: "(ucast (m :: u8) :: u32) < 0x100"
  using unat_u8_less [of m] by (simp add: word_less_nat_alt unsigned_ucast_eq take_bit_eq_mod)

lemma ucast_u8_u32: "(m :: u32) < 0x100 \<Longrightarrow> ucast (ucast m :: u8) = m"
  by (simp add: word_eq_iff_unsigned unsigned_ucast_eq take_bit_eq_mod mod_word_less)

lemma IS_PRI_SECURE_u8: "IS_PRI_SECURE (ucast (m :: u8)) \<longleftrightarrow> m < 0x80"
proof -
  have "(ucast m :: u32) AND 2 ^ 7 = 0 \<longleftrightarrow> \<not> bit m 7"
    unfolding and_exp_eq_0_iff_not_bit by (simp add: bit_simps)
  moreover have "bit m 7 \<longleftrightarrow> odd (unat m div 2 ^ 7)"
    unfolding bit_iff_odd [of "unat m" 7, symmetric] by (simp add: bit_simps)
  moreover have "odd (unat m div 2 ^ 7) \<longleftrightarrow> \<not> unat m < 128"
    using unat_u8_less [of m] by simp presburger
  ultimately show ?thesis by (simp add: IS_PRI_SECURE_def word_less_nat_alt)
qed

lemma active_idxs_update [simp]:
  "active_idxs (s\<lparr>icc_pmr := m\<rparr>) = active_idxs s" "active_idxs (s\<lparr>icc_rpr := m\<rparr>) = active_idxs s"
  "active_idxs (s\<lparr>ns_pri_mask := b\<rparr>) = active_idxs s" "active_idxs (s\<lparr>init_pri_mask := b\<rparr>) = active_idxs s"
  "active_idxs (s\<lparr>ehf_handler := h\<rparr>) = active_idxs s" "active_idxs (s\<lparr>ns_ctx_x0 := x\<rparr>) = active_idxs s"
  by (simp_all add: active_idxs_def)

lemma IS_IDX_VALID_update [simp]:
  "IS_IDX_VALID i (s\<lparr>icc_pmr := m\<rparr>) = IS_IDX_VALID i s" "IS_IDX_VALID i (s\<lparr>icc_rpr := m\<rparr>) = IS_IDX_VALID i s"
  "IS_IDX_VALID i (s\<lparr>ns_pri_mask := b\<rparr>) = IS_IDX_VALID i s" "IS_IDX_VALID i (s\<lparr>init_pri_mask := b\<rparr>) = IS_IDX_VALID i s"
  "IS_IDX_VALID i (s\<lparr>active_pri_bits := h\<rparr>) = IS_IDX_VALID i s" "IS_IDX_VALID i (s\<lparr>ns_ctx_x0 := x\<rparr>) = IS_IDX_VALID i s"
  by (simp_all add: IS_IDX_VALID_def)

lemma ehf_activate_inv:
  assumes "ehf_inv pd s" "p < 0x80" "ehf_activate_priority pd p s = Ret () t"
  shows "ehf_inv pd t"
proof -
  have push: "active_idxs t = EHF_PRI_TO_IDX pd p # active_idxs s"
    by (rule ehf_activate_push [OF _ assms(3)]) (use assms(1) in \<open>simp add: ehf_inv_def\<close>)
  then have act: "active_pri_bits t \<noteq> 0" by (metis active_idxs_Nil list.distinct(1))
  from assms(3) show ?thesis
  proof (cases rule: ehf_activate_cases)
    case (1 i)
    have "p < 0x100" using assms(2) by (simp add: word_less_nat_alt)
    moreover have "ns_pri_mask t = ns_pri_mask s" "icc_pmr t = p"
      "init_pri_mask t = (if active_pri_bits s = 0 then ucast (icc_pmr s) else init_pri_mask s)"
      "IS_IDX_VALID j t = IS_IDX_VALID j s" for j
      using 1(5) by auto
    ultimately show ?thesis using assms(1,2) 1(1) act push
      by (auto simp: ehf_inv_def pri_to_idx_Some ucast_ge_80 split: if_splits)
  qed
qed

lemma ehf_deactivate_inv:
  assumes "ehf_inv pd s" "p < 0x80" "ehf_deactivate_priority pd p s = Ret () t"
  shows "ehf_inv pd t"
proof -
  have pop: "active_idxs s = EHF_PRI_TO_IDX pd p # active_idxs t"
    by (rule ehf_deactivate_pop [OF assms(3)])
  then have act: "active_pri_bits s \<noteq> 0" by (metis active_idxs_Nil list.distinct(1))
  from assms(3) show ?thesis
  proof (cases rule: ehf_deactivate_cases)
    case (1 i)
    have "p < 0x100" using assms(2) by (simp add: word_less_nat_alt)
    moreover have "ns_pri_mask t = ns_pri_mask s" "init_pri_mask t = init_pri_mask s"
      "icc_pmr t = (if active_pri_bits t = 0 then ucast (init_pri_mask s) else p)"
      "IS_IDX_VALID j t = IS_IDX_VALID j s" for j
      using 1(5) by auto
    ultimately show ?thesis using assms(1,2) act pop
      by (auto simp: ehf_inv_def ucast_u8_ge ucast_u8_less split: if_splits)
  qed
qed

lemma ehf_register_cases:
  assumes "ehf_register_priority_handler pd pri h s = Ret () t"
  obtains i where "pri_to_idx pd pri s = Some i" "IDX_TO_PRI pd i = pri" "h \<noteq> 0" "h AND 3 = 0" "ehf_handler s i = EHF_NO_HANDLER"
    "t = s\<lparr>ehf_handler := (ehf_handler s)(i := h OR EHF_PRI_VALID)\<rparr>"
  using assms by (auto simp: ehf_register_priority_handler_def split: if_splits option.splits)

lemma ehf_register_inv:
  assumes "ehf_inv pd s" "ehf_register_priority_handler pd pri h s = Ret () t"
  shows "ehf_inv pd t"
  using assms(2)
proof (cases rule: ehf_register_cases)
  case (1 i)
  have "(h OR EHF_PRI_VALID) AND EHF_PRI_VALID \<noteq> 0"
    by (simp add: bit.conj_disj_distrib2)
  then have "IS_IDX_VALID j s \<Longrightarrow> IS_IDX_VALID j t" for j
    using 1(6) by (auto simp: IS_IDX_VALID_def)
  then show ?thesis using assms(1) 1(6) by (auto simp: ehf_inv_def)
qed

lemma ehf_world_inv:
  assumes "ehf_inv pd s"
  shows "ehf_exited_normal_world s = Ret () t \<Longrightarrow> ehf_inv pd t"
    and "ehf_entering_normal_world s = Ret () t \<Longrightarrow> ehf_inv pd t"
    and "ehf_allow_ns_preemption c s = Ret () t \<Longrightarrow> ehf_inv pd t"
  using assms
  by (auto simp: ehf_inv_def ehf_exited_normal_world_def ehf_entering_normal_world_def ehf_allow_ns_preemption_def
      gicv3_set_pmr_def has_valid_pri_activations_def Let_def IS_PRI_SECURE_u8 ucast_u8_ge ucast_u8_less not_less
      split: if_splits)

lemma ehf_step_inv:
  assumes "ehf_inv pd s" "ehf_step pd s t"
  shows "ehf_inv pd t"
  using assms(2)
proof cases
  case (activate p)
  then show ?thesis by (rule ehf_activate_inv [OF assms(1)])
next
  case (deactivate p)
  then show ?thesis by (rule ehf_deactivate_inv [OF assms(1)])
next
  case (register p h)
  then show ?thesis by (rule ehf_register_inv [OF assms(1)])
next
  case (running r)
  then show ?thesis using assms(1) by (simp add: ehf_inv_def)
next
  case (ns_mask m)
  have "active_pri_bits s = 0"
    using assms(1) ns_mask(2) by (auto simp: ehf_inv_def not_le [symmetric] split: if_splits)
  then show ?thesis using assms(1) ns_mask by (simp add: ehf_inv_def)
qed (auto intro: ehf_world_inv [OF assms(1)])

interpretation ehf_run: invariant_system "ehf_start pd" "ehf_step pd" "ehf_inv pd"
proof unfold_locales
  show "ehf_inv pd s" if "ehf_start pd s" for s
    using that by (auto simp: ehf_start_def ehf_inv_def) (metis active_idxs_Nil empty_iff empty_set)+
qed (rule ehf_step_inv)

section \<open>Properties\<close>

text \<open>
  C11. The bitmap of active priorities is a stack: an activation that returns pushes the index of its priority, which is
  more urgent than everything active; a deactivation that returns pops the index of its priority from the top.
\<close>

theorem ehf_stack_refinement:
  assumes "num_priorities pd \<le> 32"
  shows "(ehf_activate_priority pd p s = Ret () t \<longrightarrow>
           active_idxs t = EHF_PRI_TO_IDX pd p # active_idxs s \<and> (\<forall>i \<in> set (active_idxs s). EHF_PRI_TO_IDX pd p < i)) \<and>
         (ehf_deactivate_priority pd p s = Ret () t \<longrightarrow> active_idxs s = EHF_PRI_TO_IDX pd p # active_idxs t)"
  using ehf_activate_push [OF assms] ehf_deactivate_pop [of pd p s t] active_idxs_sorted [of t] by auto

text \<open>
  C10. Non-secure interrupts and active priorities: in every state a core can reach, by activations and deactivations of
  secure priorities, moves between the worlds, permitted preemption and changes made by the
  interrupt controller and the normal world, the priority mask is in the secure range exactly while a
  priority is active, and the active priorities are ones the platform declared.
\<close>

theorem ehf_mask_secure_iff_active:
  assumes "reach (ehf_start pd) (ehf_step pd) s"
  shows "(icc_pmr s < 0x80 \<longleftrightarrow> active_pri_bits s \<noteq> 0) \<and>
         (\<forall>i \<in> set (active_idxs s). i < num_priorities pd \<and> IS_IDX_VALID i s)"
  using ehf_run.reach_inv [OF assms] by (auto simp: ehf_inv_def not_less split: if_splits)

text \<open>
  C16. An activation and its deactivation: when no priority is active, a deactivation of the priority just activated
  returns and restores the priority mask and the set of active priorities. When another priority was
  active, a deactivation leaves the mask at the priority it deactivates, and activating that priority again
  stops the core.
\<close>

theorem ehf_activate_deactivate:
  assumes "num_priorities pd \<le> 32" "icc_pmr s < 0x100" "ehf_activate_priority pd p s = Ret () s1"
  shows "\<exists>s2. ehf_deactivate_priority pd p s1 = Ret () s2 \<and> active_pri_bits s2 = active_pri_bits s \<and>
           icc_pmr s2 = (if active_pri_bits s = 0 then icc_pmr s else p) \<and>
           (active_pri_bits s \<noteq> 0 \<longrightarrow> ehf_activate_priority pd p s2 = Halt)"
proof -
  have push: "active_idxs s1 = EHF_PRI_TO_IDX pd p # active_idxs s"
    by (rule ehf_activate_push [OF assms(1,3)])
  from assms(3) show ?thesis
  proof (cases rule: ehf_activate_cases)
    case (1 i)
    then have i: "i = EHF_PRI_TO_IDX pd p" "i < 32" using assms(1) by (auto simp: pri_to_idx_Some)
    have c: "active_pri_bits s1 AND (active_pri_bits s1 - 1) = active_pri_bits s"
      using clear_lowest_bit [OF i(2), of "active_pri_bits s"] 1(4,5) by simp
    define s2 where "s2 = s1\<lparr>active_pri_bits := active_pri_bits s,
      icc_pmr := (if active_pri_bits s = 0 then ucast (init_pri_mask s1) else p)\<rparr>"
    have pr: "pri_to_idx pd p s1 = Some i" using 1(1,5) by (auto simp: pri_to_idx_Some IS_IDX_VALID_def)
    have h: "get_pe_highest_active_idx t = - 1 \<longleftrightarrow> active_pri_bits t = 0" for t
      by (auto simp: get_pe_highest_active_idx_def has_valid_pri_activations_def)
    have top: "get_pe_highest_active_idx s1 = int i" using push i(1) by (simp add: highest_active_idx)
    have rp: "icc_rpr s1 = icc_rpr s" "icc_pmr s1 = p" "init_pri_mask s1 = (if active_pri_bits s = 0 then ucast (icc_pmr s) else init_pri_mask s)"
      using 1(5) by auto
    have d: "ehf_deactivate_priority pd p s1 = Ret () s2"
      using 1(2) by (simp add: ehf_deactivate_priority_def Let_def gicv3_get_running_priority_def gicv3_set_pmr_def rp pr top c h s2_def not_le)
    have m: "ucast (ucast (icc_pmr s) :: u8) = icc_pmr s"
      using assms(2) by (rule ucast_u8_u32)
    have "ehf_activate_priority pd p s2 = Halt" if "active_pri_bits s \<noteq> 0"
      using that by (auto simp: ehf_activate_priority_def Let_def gicv3_set_pmr_def s2_def split: option.splits)
    then show ?thesis using d m rp(3) by (auto simp: s2_def)
  qed
qed

text \<open>
  C17. Moves between the worlds with no priority active: leaving the normal world masks non-secure interrupts and stops
  preemption, and entering it again restores the state exactly. Permitting preemption in between restores the
  mask of the normal world, stores the return code it will find, and leaves nothing to restore on the way back.
\<close>

theorem ehf_world_switch:
  assumes "active_pri_bits s = 0" "ns_pri_mask s = 0" "\<not> IS_PRI_SECURE (icc_rpr s)" "0x80 \<le> icc_pmr s" "icc_pmr s < 0x100"
    and "ns_ctx_x0 s \<noteq> None"
  shows "\<exists>s1 s2. ehf_exited_normal_world s = Ret () s1 \<and> icc_pmr s1 = GIC_HIGHEST_NS_PRIORITY \<and> \<not> ehf_is_ns_preemption_allowed s1 \<and>
           ehf_entering_normal_world s1 = Ret () s \<and>
           ehf_allow_ns_preemption c s1 = Ret () s2 \<and> s2 = s\<lparr>ns_ctx_x0 := Some c\<rparr> \<and> ehf_is_ns_preemption_allowed s2 \<and>
           ehf_entering_normal_world s2 = Ret () s2"
proof -
  define s1 where "s1 = s\<lparr>icc_pmr := GIC_HIGHEST_NS_PRIORITY, ns_pri_mask := ucast (icc_pmr s)\<rparr>"
  have m: "(0x80 :: u8) \<le> ucast (icc_pmr s)" "ucast (ucast (icc_pmr s) :: u8) = icc_pmr s"
    using assms(4,5) by (simp_all add: ucast_ge_80 ucast_u8_u32)
  then have n: "(ucast (icc_pmr s) :: u8) \<noteq> 0" "\<not> IS_PRI_SECURE (ucast (ucast (icc_pmr s) :: u8))"
    unfolding IS_PRI_SECURE_u8 by (auto simp: not_less)
  have r: "s\<lparr>icc_pmr := icc_pmr s\<rparr> = s" "s1\<lparr>icc_pmr := icc_pmr s, ns_pri_mask := 0\<rparr> = s"
    using assms(2) by (simp_all add: s1_def)
  have e: "ehf_exited_normal_world s = Ret () s1"
    using assms(1-3) n m(2)
    by (simp add: ehf_exited_normal_world_def gicv3_get_running_priority_def has_valid_pri_activations_def
        gicv3_set_pmr_def Let_def s1_def)
  have "ehf_entering_normal_world s1 = Ret () s" "ehf_allow_ns_preemption c s1 = Ret () (s\<lparr>ns_ctx_x0 := Some c\<rparr>)"
    using assms n m(2)
    by (simp_all add: ehf_entering_normal_world_def ehf_allow_ns_preemption_def gicv3_get_running_priority_def
        has_valid_pri_activations_def gicv3_set_pmr_def Let_def s1_def)
  then show ?thesis using e assms n
    by (auto simp: ehf_is_ns_preemption_allowed_def ehf_entering_normal_world_def gicv3_get_running_priority_def
        has_valid_pri_activations_def s1_def)
qed

lemma RAW_HANDLER_aligned: "h AND 3 = 0 \<Longrightarrow> RAW_HANDLER (h OR EHF_PRI_VALID) = h"
proof -
  assume a: "h AND 3 = 0"
  have "bit (h AND 3) 0 = bit h 0" by (simp add: bit_simps bit_numeral_rec)
  then have b: "\<not> bit h 0" using a by simp
  have "(h OR 1) AND NOT 1 = h"
  proof (rule bit_word_eqI)
    fix n assume "n < LENGTH(64)"
    then show "bit ((h OR 1) AND NOT 1) n = bit h n" using b by (cases n) (auto simp: bit_simps)
  qed
  then show ?thesis by (simp add: RAW_HANDLER_def bit.conj_disj_distrib2)
qed

lemma IDX_TO_PRI_secure: "IS_PRI_SECURE (IDX_TO_PRI pd i)"
proof -
  have "(x AND 0x7f) AND (0x80 :: u32) = 0" for x :: u32
    by (simp add: and.assoc)
  then show ?thesis by (simp add: IS_PRI_SECURE_def IDX_TO_PRI_def)
qed

text \<open>
  C18. Interrupts handled at EL3: once a handler is registered for a priority, an interrupt acknowledged at that priority
  is given, with its raw value, to that handler and no other, and its result is returned; a second
  registration for the priority stops the core, where the documentation announces a return of -1. An interrupt at a declared priority with no handler stops the
  core, and a spurious one returns with nothing done.
\<close>

theorem ehf_interrupt_dispatch:
  assumes "ehf_register_priority_handler pd pri h s = Ret () t"
    and "ic_acknowledge ic u = (raw, v)" "icc_rpr v = pri" "ehf_handler v = ehf_handler t"
  shows "ehf_el3_interrupt_handler pd ic INTR_ID_UNAVAILABLE flags u =
           (if ic_interrupt_id ic raw = INTR_ID_UNAVAILABLE then Ret 0 v
            else let (r, w) = ic_call ic h raw flags v in Ret (word_of_int r) w) \<and>
         ehf_register_priority_handler pd pri h2 t = Halt \<and>
         (ic_interrupt_id ic raw \<noteq> INTR_ID_UNAVAILABLE \<longrightarrow>
           ehf_el3_interrupt_handler pd (ic\<lparr>ic_acknowledge := \<lambda>_. (raw, v\<lparr>ehf_handler := ehf_handler s\<rparr>)\<rparr>) INTR_ID_UNAVAILABLE flags u = Halt)"
  using assms(1)
proof (cases rule: ehf_register_cases)
  case (1 i)
  have valid: "IS_IDX_VALID i v" "IS_IDX_VALID i t" "ehf_handler v i = h OR EHF_PRI_VALID" "ehf_handler t i = h OR EHF_PRI_VALID"
    using assms(4) 1(6) by (simp_all add: IS_IDX_VALID_def bit.conj_disj_distrib2)
  have pr: "pri_to_idx pd pri v = Some i" "pri_to_idx pd pri t = Some i"
    "pri_to_idx pd pri (v\<lparr>ehf_handler := ehf_handler s\<rparr>) = Some i"
    using 1(1) valid by (auto simp: pri_to_idx_Some IS_IDX_VALID_def)
  have sec: "IS_PRI_SECURE pri" using IDX_TO_PRI_secure [of pd i] 1(2) by simp
  have ne: "h OR EHF_PRI_VALID \<noteq> EHF_NO_HANDLER"
    using RAW_HANDLER_aligned [OF 1(4)] 1(3) by (auto simp: RAW_HANDLER_def)
  have raw: "RAW_HANDLER EHF_NO_HANDLER = 0" by (simp add: RAW_HANDLER_def)
  show ?thesis
    using assms(2,3) pr sec valid(3,4) 1(2,3,5) ne raw RAW_HANDLER_aligned [OF 1(4)]
    by (simp add: ehf_el3_interrupt_handler_def ehf_register_priority_handler_def gicv3_get_running_priority_def Let_def)
qed

section \<open>Instances\<close>

text \<open>Four priorities in two bits, with none active and with the third one active.\<close>

definition ehf_example :: ehf_priorities where
  "ehf_example = \<lparr>num_priorities = 4, pri_bits = 2\<rparr>"

definition ehf_idle :: ehf_state where
  "ehf_idle = \<lparr>active_pri_bits = 0, init_pri_mask = 0, ns_pri_mask = 0, icc_pmr = 0xf0, icc_rpr = 0xff,
     ehf_handler = (\<lambda>i. if i < 4 then 1 else 0), ns_ctx_x0 = Some 0\<rparr>"

definition ehf_busy :: ehf_state where
  "ehf_busy = ehf_idle\<lparr>active_pri_bits := 4, init_pri_mask := 0xf0, icc_pmr := 0x40\<rparr>"

lemmas ehf_example_defs = ehf_example_def ehf_idle_def ehf_busy_def

lemma ctz_4: "builtin_ctz 4 = 2"
  by code_simp

lemmas ehf_activate_eval = ehf_activate_priority_def gicv3_get_running_priority_def get_pe_highest_active_idx_def
  has_valid_pri_activations_def gicv3_set_pmr_def pri_to_idx_def EHF_PRI_TO_IDX_def IS_IDX_VALID_def PRI_BIT_def
  ctz_4 ehf_example_defs

lemma ehf_busy_from_idle: "ehf_activate_priority ehf_example 0x40 ehf_idle = Ret () ehf_busy"
  by (simp add: ehf_activate_eval)

lemma ehf_busy_again:
  "ehf_activate_priority ehf_example 0x20 ehf_busy = Ret () (ehf_busy\<lparr>active_pri_bits := 6, icc_pmr := 0x20\<rparr>)"
  by (simp add: ehf_activate_eval)

lemma ehf_busy_reach: "reach (ehf_start ehf_example) (ehf_step ehf_example) ehf_busy"
proof -
  have "ehf_start ehf_example ehf_idle" by (simp add: ehf_start_def ehf_example_defs)
  then have "reach (ehf_start ehf_example) (ehf_step ehf_example) ehf_idle" by (rule reach_init)
  moreover have "ehf_step ehf_example ehf_idle ehf_busy"
    by (rule ehf_step.activate [OF _ ehf_busy_from_idle]) simp
  ultimately show ?thesis by (rule reach_step)
qed

lemma ctz_6: "builtin_ctz 6 = 1"
  by code_simp

lemma ehf_busy_back:
  "ehf_deactivate_priority ehf_example 0x20 (ehf_busy\<lparr>active_pri_bits := 6, icc_pmr := 0x20\<rparr>) =
     Ret () (ehf_busy\<lparr>active_pri_bits := 4, icc_pmr := 0x20\<rparr>)"
  by (simp add: ehf_deactivate_priority_def ehf_activate_eval ctz_6)

theorem ehf_stack_refinement_witness:
  "\<exists>t u. num_priorities ehf_example \<le> 32 \<and>
     ehf_activate_priority ehf_example 0x20 ehf_busy = Ret () t \<and> active_idxs ehf_busy = [2] \<and> active_idxs t = [1, 2] \<and>
     ehf_deactivate_priority ehf_example 0x20 t = Ret () u \<and> active_idxs u = [2]"
proof -
  let ?t = "ehf_busy\<lparr>active_pri_bits := 6, icc_pmr := 0x20\<rparr>" and ?u = "ehf_busy\<lparr>active_pri_bits := 4, icc_pmr := 0x20\<rparr>"
  have n: "num_priorities ehf_example \<le> 32" by (simp add: ehf_example_def)
  have b: "active_idxs ehf_busy = [2]" by code_simp
  have i: "EHF_PRI_TO_IDX ehf_example 0x20 = 1" by code_simp
  have "active_idxs ?t = [1, 2]"
    using ehf_stack_refinement [OF n, of "0x20" ehf_busy ?t] ehf_busy_again b i by simp
  moreover from this have "active_idxs ?u = [2]"
    using ehf_stack_refinement [OF n, of "0x20" ?t ?u] ehf_busy_back i by simp
  ultimately show ?thesis
    using n ehf_busy_again b ehf_busy_back by blast
qed

theorem ehf_mask_secure_iff_active_witness:
  "reach (ehf_start ehf_example) (ehf_step ehf_example) ehf_busy \<and> icc_pmr ehf_busy < 0x80"
  using ehf_mask_secure_iff_active [OF ehf_busy_reach] ehf_busy_reach by (simp add: ehf_busy_def)

theorem ehf_activate_deactivate_witness:
  "\<exists>s2. ehf_deactivate_priority ehf_example 0x20 (ehf_busy\<lparr>active_pri_bits := 6, icc_pmr := 0x20\<rparr>) = Ret () s2 \<and>
     icc_pmr s2 = 0x20 \<and> ehf_activate_priority ehf_example 0x20 s2 = Halt"
  using ehf_activate_deactivate [OF _ _ ehf_busy_again] by (auto simp: ehf_example_defs)

theorem ehf_world_switch_witness:
  "\<exists>s1. ehf_exited_normal_world ehf_idle = Ret () s1 \<and> ehf_entering_normal_world s1 = Ret () ehf_idle"
  using ehf_world_switch [of ehf_idle 7] by (auto simp: ehf_idle_def IS_PRI_SECURE_def)

theorem ehf_interrupt_dispatch_witness:
  "\<exists>t v. ehf_register_priority_handler ehf_example 0x20 0x1000 ehf_idle = Ret () t \<and>
     ehf_el3_interrupt_handler ehf_example
       \<lparr>ic_acknowledge = \<lambda>s. (29, s\<lparr>icc_rpr := 0x20\<rparr>), ic_interrupt_id = id, ic_call = \<lambda>h raw flags s. (uint h, s)\<rparr>
       INTR_ID_UNAVAILABLE 0 t = Ret 0x1000 v"
proof -
  have r: "ehf_register_priority_handler ehf_example 0x20 0x1000 ehf_idle =
      Ret () (ehf_idle\<lparr>ehf_handler := (ehf_handler ehf_idle)(1 := 0x1001)\<rparr>)"
    by (simp add: ehf_register_priority_handler_def pri_to_idx_def EHF_PRI_TO_IDX_def IDX_TO_PRI_def IS_IDX_VALID_def ehf_example_defs)
  show ?thesis
    using ehf_interrupt_dispatch [OF r, of
        "\<lparr>ic_acknowledge = \<lambda>s. (29, s\<lparr>icc_rpr := 0x20\<rparr>), ic_interrupt_id = id, ic_call = \<lambda>h raw flags s. (uint h, s)\<rparr>"
        "ehf_idle\<lparr>ehf_handler := (ehf_handler ehf_idle)(1 := 0x1001)\<rparr>" 29
        "ehf_idle\<lparr>ehf_handler := (ehf_handler ehf_idle)(1 := 0x1001), icc_rpr := 0x20\<rparr>" 0 0] r
    by (simp add: ehf_idle_def)
qed

end
