(* ===== verification/Bl1_Fwu.thy ===== *)
theory Bl1_Fwu
  imports Prelude
begin

unbundle bit_operations_syntax

text \<open>
  Firmware update in BL1, \<open>bl1/bl1_fwu.c\<close>, with the image descriptors of
  \<open>include/export/common/bl_common_exp.h\<close>, the preparation of an image in
  \<open>bl1/aarch64/bl1_context_mgmt.c\<close> and the memory check of the Arm platforms in
  \<open>plat/arm/common/arm_bl1_fwu.c\<close>. Memory is a map from addresses to bytes. The authentication module and the
  platform's hooks around the loading of an image are parameters.
\<close>

section \<open>Data\<close>

abbreviation (input) SEC_SECURE :: u32 where "SEC_SECURE \<equiv> 0"
abbreviation (input) SEC_NON_SECURE :: u32 where "SEC_NON_SECURE \<equiv> 1"
abbreviation (input) NON_EXECUTABLE :: u32 where "NON_EXECUTABLE \<equiv> 0"
abbreviation (input) EXECUTABLE :: u32 where "EXECUTABLE \<equiv> 8"
abbreviation (input) INVALID_IMAGE_ID :: u32 where "INVALID_IMAGE_ID \<equiv> 0xFFFFFFFF"
abbreviation (input) EAUTH :: int where "EAUTH \<equiv> 80"

datatype image_state = STATE_RESET | STATE_COPIED | STATE_COPYING | STATE_AUTHENTICATED | STATE_EXECUTED | STATE_INTERRUPTED

record image_desc =
  img_state :: image_state
  copied_size :: u32
  image_base :: u64
  image_size :: u32
  image_max_size :: u32
  ep_attr :: u32

type_synonym memory = "u64 \<Rightarrow> u8"

record bl1_mem_info =
  mem_base :: u64
  mem_size :: u32

text \<open>
  The state of BL1: the platform's descriptors by image identifier, the loaded identifiers, the last secure image
  executed, the flags of the authentication module, memory, the EL1 system registers (live, and saved
  for each security state), the context the next exception return takes and the first register of
  each context.
\<close>

record 'r fwu_state =
  image_descs :: "u32 \<Rightarrow> image_desc option"
  bl1_fwu_loaded_ids :: "u32 list"
  sec_exec_image_id :: u32
  auth_img_flags :: "u32 \<Rightarrow> u32"
  fwu_mem :: memory
  el1_live :: 'r
  el1_saved :: "u32 \<Rightarrow> 'r"
  next_eret :: u32
  ctx_x0 :: "u32 \<Rightarrow> u64"

text \<open>
  What BL1 calls: the authentication of an image's bytes, which reads and writes the flags of the module, the
  hooks of the platform, its memory maps, and the EL1 registers a fresh context of an image has.
\<close>

record 'r fwu_env =
  auth_mod_verify_img :: "u32 \<Rightarrow> u8 list \<Rightarrow> (u32 \<Rightarrow> u32) \<Rightarrow> int \<times> (u32 \<Rightarrow> u32)"
  bl1_plat_handle_pre_image_load :: "u32 \<Rightarrow> int"
  bl1_plat_handle_post_image_load :: "u32 \<Rightarrow> int"
  fwu_addr_map_secure :: "bl1_mem_info list"
  fwu_addr_map_non_secure :: "bl1_mem_info list"
  fresh_el1 :: "u32 \<Rightarrow> 'r"

definition GET_SECURITY_STATE :: "u32 \<Rightarrow> u32" where
  "GET_SECURITY_STATE x = x AND 0x21"

definition EP_GET_EXE :: "u32 \<Rightarrow> u32" where
  "EP_GET_EXE x = x AND 0x8"

definition check_uptr_overflow :: "u64 \<Rightarrow> u64 \<Rightarrow> bool" where
  "check_uptr_overflow ptr inc \<longleftrightarrow> ptr > - 1 - inc"

text \<open>The search for a descriptor ends at the invalid identifier.\<close>

definition bl1_plat_get_image_desc :: "'r fwu_state \<Rightarrow> u32 \<Rightarrow> image_desc option" where
  "bl1_plat_get_image_desc s iid = (if iid = INVALID_IMAGE_ID then None else image_descs s iid)"

definition set_desc :: "u32 \<Rightarrow> image_desc \<Rightarrow> 'r fwu_state \<Rightarrow> 'r fwu_state" where
  "set_desc iid d s = s\<lparr>image_descs := (image_descs s)(iid := Some d)\<rparr>"

section \<open>Memory\<close>

definition memcpy :: "u64 \<Rightarrow> u64 \<Rightarrow> u32 \<Rightarrow> memory \<Rightarrow> memory" where
  "memcpy dst src n m = (\<lambda>a. if a - dst < ucast n then m (src + (a - dst)) else m a)"

definition zero_normalmem :: "u64 \<Rightarrow> u32 \<Rightarrow> memory \<Rightarrow> memory" where
  "zero_normalmem base n m = (\<lambda>a. if a - base < ucast n then 0 else m a)"

definition mem_bytes :: "u64 \<Rightarrow> u32 \<Rightarrow> memory \<Rightarrow> u8 list" where
  "mem_bytes base n m = map (\<lambda>i. m (base + of_nat i)) [0..<unat n]"

fun mem_check_loop :: "bl1_mem_info list \<Rightarrow> u64 \<Rightarrow> u64 \<Rightarrow> int" where
  "mem_check_loop [] base lim = - ENOMEM"
| "mem_check_loop (r # rs) base lim =
     (if \<not> mem_size r > 0 then - ENOMEM
      else if base \<ge> mem_base r \<and> lim \<le> mem_base r + ucast (mem_size r) then 0
      else mem_check_loop rs base lim)"

definition bl1_plat_mem_check :: "'r fwu_env \<Rightarrow> u64 \<Rightarrow> u32 \<Rightarrow> u32 \<Rightarrow> int" where
  "bl1_plat_mem_check env base isz flags =
     (if base = 0 \<or> isz = 0 \<or> check_uptr_overflow base (ucast isz) then - ENOMEM
      else mem_check_loop (if GET_SECURITY_STATE flags = SEC_SECURE then fwu_addr_map_secure env else fwu_addr_map_non_secure env)
             base (base + ucast isz))"

section \<open>The loaded identifiers\<close>

text \<open>The first entry that holds a value is overwritten; nothing is returned when there is none.\<close>

fun replace_first :: "u32 \<Rightarrow> u32 \<Rightarrow> u32 list \<Rightarrow> u32 list option" where
  "replace_first x y [] = None"
| "replace_first x y (z # zs) = (if z = x then Some (y # zs) else map_option ((#) z) (replace_first x y zs))"

definition bl1_fwu_add_loaded_id :: "u32 \<Rightarrow> 'r fwu_state \<Rightarrow> int \<times> 'r fwu_state" where
  "bl1_fwu_add_loaded_id iid s =
     (if iid \<in> set (bl1_fwu_loaded_ids s) then (0, s)
      else case replace_first INVALID_IMAGE_ID iid (bl1_fwu_loaded_ids s) of
             Some l \<Rightarrow> (0, s\<lparr>bl1_fwu_loaded_ids := l\<rparr>)
           | None \<Rightarrow> (1, s))"

definition bl1_fwu_remove_loaded_id :: "u32 \<Rightarrow> 'r fwu_state \<Rightarrow> int \<times> 'r fwu_state" where
  "bl1_fwu_remove_loaded_id iid s =
     (case replace_first iid INVALID_IMAGE_ID (bl1_fwu_loaded_ids s) of
        Some l \<Rightarrow> (0, s\<lparr>bl1_fwu_loaded_ids := l\<rparr>)
      | None \<Rightarrow> (1, s))"

text \<open>The check for overlaps; \<open>None\<close> is a failed assertion.\<close>

fun check_overlaps_loop :: "'r fwu_state \<Rightarrow> u32 \<Rightarrow> u64 \<Rightarrow> u64 \<Rightarrow> u32 list \<Rightarrow> int option" where
  "check_overlaps_loop s iid cbase cend [] = Some 0"
| "check_overlaps_loop s iid cbase cend (l # ls) =
     (if l = INVALID_IMAGE_ID \<or> l = iid then check_overlaps_loop s iid cbase cend ls
      else case bl1_plat_get_image_desc s l of
             None \<Rightarrow> None
           | Some d \<Rightarrow>
               if img_state d = STATE_RESET then None
               else if image_size d = 0 then check_overlaps_loop s iid cbase cend ls
               else
                 let ibase = image_base d; iend = ibase + ucast (image_size d) - 1
                 in if \<not> iend > ibase then None
                    else if \<not> (iend < cbase \<or> cend < ibase) then Some (- EPERM)
                    else check_overlaps_loop s iid cbase cend ls)"

definition bl1_fwu_image_check_overlaps :: "u32 \<Rightarrow> 'r fwu_state \<Rightarrow> int option" where
  "bl1_fwu_image_check_overlaps iid s =
     (case bl1_plat_get_image_desc s iid of
        None \<Rightarrow> None
      | Some d \<Rightarrow>
          if image_size d = 0 then None
          else check_overlaps_loop s iid (image_base d) (image_base d + ucast (image_size d) - 1) (bl1_fwu_loaded_ids s))"

section \<open>Copying\<close>

text \<open>
  The second half of the copy, from the point where the descriptor holds the size of the image and the
  number of bytes copied so far.
\<close>

definition fwu_copy_block ::
  "'r fwu_env \<Rightarrow> u32 \<Rightarrow> image_desc \<Rightarrow> u64 \<Rightarrow> u32 \<Rightarrow> u32 \<Rightarrow> u32 \<Rightarrow> 'r fwu_state \<Rightarrow> (int, 'r fwu_state) outcome" where
  "fwu_copy_block env iid d src block_size0 isz flags s =
     (let remaining = isz - copied_size d;
          block_size = (if block_size0 > remaining then remaining else block_size0)
      in if bl1_plat_mem_check env src block_size flags \<noteq> 0 then Ret (- ENOMEM) s
         else let (rc, s1) = bl1_fwu_add_loaded_id iid s
              in if rc \<noteq> 0 then Ret (- ENOMEM) s
                 else if img_state d = STATE_RESET \<and> bl1_plat_handle_pre_image_load env iid \<noteq> 0
                 then Ret (- EPERM) (snd (bl1_fwu_remove_loaded_id iid s1))
                 else
                   let dest_addr = image_base d + ucast (copied_size d);
                       s2 = s1\<lparr>fwu_mem := memcpy dest_addr src block_size (fwu_mem s1)\<rparr>
                   in Ret 0 (set_desc iid
                        (d\<lparr>copied_size := copied_size d + block_size,
                           img_state := (if block_size = remaining then STATE_COPIED else STATE_COPYING)\<rparr>) s2))"

definition bl1_fwu_image_copy ::
  "'r fwu_env \<Rightarrow> u32 \<Rightarrow> u64 \<Rightarrow> u32 \<Rightarrow> u32 \<Rightarrow> u32 \<Rightarrow> 'r fwu_state \<Rightarrow> (int, 'r fwu_state) outcome" where
  "bl1_fwu_image_copy env iid src block_size isz flags s =
     (case bl1_plat_get_image_desc s iid of
        None \<Rightarrow> Ret (- EPERM) s
      | Some d \<Rightarrow>
          if GET_SECURITY_STATE flags = SEC_SECURE then Ret (- EPERM) s
          else if GET_SECURITY_STATE (ep_attr d) = SEC_NON_SECURE then Ret (- EPERM) s
          else if img_state d \<noteq> STATE_RESET \<and> img_state d \<noteq> STATE_COPYING then Ret (- EPERM) s
          else if src = 0 \<or> block_size = 0 \<or> check_uptr_overflow src (ucast block_size) then Ret (- ENOMEM) s
          else if img_state d = STATE_COPYING
          then if copied_size d = 0 \<or> image_size d = 0 \<or> \<not> copied_size d < image_size d then Halt
               else fwu_copy_block env iid d src block_size (image_size d) flags s
          else if isz = 0 then Ret (- ENOMEM) s
          else if isz > image_max_size d then Ret (- ENOMEM) s
          else
            let s1 = set_desc iid (d\<lparr>image_size := isz\<rparr>) s
            in case bl1_fwu_image_check_overlaps iid s1 of
                 None \<Rightarrow> Halt
               | Some rc \<Rightarrow>
                   if rc \<noteq> 0 then Ret (- EPERM) (set_desc iid (d\<lparr>image_size := 0\<rparr>) s1)
                   else let d2 = d\<lparr>image_size := isz, copied_size := 0\<rparr>
                        in fwu_copy_block env iid d2 src block_size isz flags (set_desc iid d2 s1))"

section \<open>Authentication\<close>

definition fwu_auth_check ::
  "'r fwu_env \<Rightarrow> u32 \<Rightarrow> image_desc \<Rightarrow> u64 \<Rightarrow> u32 \<Rightarrow> 'r fwu_state \<Rightarrow> (int, 'r fwu_state) outcome" where
  "fwu_auth_check env iid d base isz s =
     (let (result, fl) = auth_mod_verify_img env iid (mem_bytes base isz (fwu_mem s)) (auth_img_flags s);
          s1 = s\<lparr>auth_img_flags := fl\<rparr>
      in if result \<noteq> 0
         then let s2 = (if img_state d = STATE_COPIED
                        then set_desc iid (d\<lparr>img_state := STATE_RESET\<rparr>) (s1\<lparr>fwu_mem := zero_normalmem base isz (fwu_mem s1)\<rparr>)
                        else s1)
              in Ret (- EAUTH) (snd (bl1_fwu_remove_loaded_id iid s2))
         else if bl1_plat_handle_post_image_load env iid \<noteq> 0 then Halt
         else Ret 0 (set_desc iid (d\<lparr>img_state := STATE_AUTHENTICATED\<rparr>) s1))"

definition bl1_fwu_image_auth ::
  "'r fwu_env \<Rightarrow> u32 \<Rightarrow> u64 \<Rightarrow> u32 \<Rightarrow> u32 \<Rightarrow> 'r fwu_state \<Rightarrow> (int, 'r fwu_state) outcome" where
  "bl1_fwu_image_auth env iid src isz flags s =
     (case bl1_plat_get_image_desc s iid of
        None \<Rightarrow> Ret (- EPERM) s
      | Some d \<Rightarrow>
          if GET_SECURITY_STATE flags = SEC_SECURE \<and> img_state d \<noteq> STATE_RESET then Ret (- EPERM) s
          else if GET_SECURITY_STATE flags \<noteq> SEC_SECURE \<and> GET_SECURITY_STATE (ep_attr d) = SEC_SECURE \<and> img_state d \<noteq> STATE_COPIED
          then Ret (- EPERM) s
          else if GET_SECURITY_STATE flags \<noteq> SEC_SECURE \<and> GET_SECURITY_STATE (ep_attr d) \<noteq> SEC_SECURE \<and> img_state d \<noteq> STATE_RESET
          then Ret (- EPERM) s
          else if img_state d = STATE_COPIED then fwu_auth_check env iid d (image_base d) (image_size d) s
          else if src = 0 \<or> isz = 0 \<or> check_uptr_overflow src (ucast isz) then Ret (- ENOMEM) s
          else if bl1_plat_mem_check env src isz (ep_attr d) \<noteq> 0 then Ret (- ENOMEM) s
          else let (rc, s1) = bl1_fwu_add_loaded_id iid s
               in if rc \<noteq> 0 then Ret (- ENOMEM) s
                  else let d2 = d\<lparr>image_size := isz\<rparr> in fwu_auth_check env iid d2 src isz (set_desc iid d2 s1))"

section \<open>Execution\<close>

definition cm_el1_sysregs_context_save :: "u32 \<Rightarrow> 'r fwu_state \<Rightarrow> 'r fwu_state" where
  "cm_el1_sysregs_context_save ss s = s\<lparr>el1_saved := (el1_saved s)(ss := el1_live s)\<rparr>"

definition cm_el1_sysregs_context_restore :: "u32 \<Rightarrow> 'r fwu_state \<Rightarrow> 'r fwu_state" where
  "cm_el1_sysregs_context_restore ss s = s\<lparr>el1_live := el1_saved s ss\<rparr>"

definition cm_set_next_eret_context :: "u32 \<Rightarrow> 'r fwu_state \<Rightarrow> 'r fwu_state" where
  "cm_set_next_eret_context ss s = s\<lparr>next_eret := ss\<rparr>"

text \<open>
  The image runs in the context of its security state, which is asserted to be one of the two that BL1 keeps a
  context for.
\<close>

definition prepared_image :: "'r fwu_env \<Rightarrow> u32 \<Rightarrow> image_desc \<Rightarrow> 'r fwu_state \<Rightarrow> 'r fwu_state" where
  "prepared_image env iid d s =
     (let ss = GET_SECURITY_STATE (ep_attr d);
          s1 = s\<lparr>el1_saved := (el1_saved s)(ss := fresh_el1 env iid)\<rparr>;
          s2 = cm_set_next_eret_context ss (cm_el1_sysregs_context_restore ss s1)
      in set_desc iid (d\<lparr>img_state := STATE_EXECUTED\<rparr>) s2)"

definition bl1_prepare_next_image :: "'r fwu_env \<Rightarrow> u32 \<Rightarrow> image_desc \<Rightarrow> 'r fwu_state \<Rightarrow> (unit, 'r fwu_state) outcome" where
  "bl1_prepare_next_image env iid d s =
     (if GET_SECURITY_STATE (ep_attr d) = SEC_SECURE \<or> GET_SECURITY_STATE (ep_attr d) = SEC_NON_SECURE
      then Ret () (prepared_image env iid d s) else Halt)"

text \<open>
  The results carry the security state of the context the call returns to. The handler writes the result to
  the context selected by the call; C leaves open whether the context is read before or after the call.
\<close>

definition bl1_fwu_image_execute ::
  "'r fwu_env \<Rightarrow> u32 \<Rightarrow> u32 \<Rightarrow> 'r fwu_state \<Rightarrow> (int \<times> u32, 'r fwu_state) outcome" where
  "bl1_fwu_image_execute env iid flags s =
     (case bl1_plat_get_image_desc s iid of
        None \<Rightarrow> Ret (- EPERM, GET_SECURITY_STATE flags) s
      | Some d \<Rightarrow>
          if GET_SECURITY_STATE flags = SEC_SECURE \<or> GET_SECURITY_STATE (ep_attr d) = SEC_NON_SECURE \<or>
             EP_GET_EXE (ep_attr d) = NON_EXECUTABLE \<or> img_state d \<noteq> STATE_AUTHENTICATED
          then Ret (- EPERM, GET_SECURITY_STATE flags) s
          else obind (bl1_prepare_next_image env iid d (cm_el1_sysregs_context_save SEC_NON_SECURE s))
                 (\<lambda>_ s1. Ret (0, SEC_SECURE) (s1\<lparr>sec_exec_image_id := iid\<rparr>)))"

definition bl1_fwu_image_resume :: "int \<Rightarrow> u32 \<Rightarrow> 'r fwu_state \<Rightarrow> (int \<times> u32, 'r fwu_state) outcome" where
  "bl1_fwu_image_resume image_param flags s =
     (let caller = GET_SECURITY_STATE flags
      in case bl1_plat_get_image_desc s (sec_exec_image_id s) of
           None \<Rightarrow> if caller = SEC_NON_SECURE then Ret (- EPERM, caller) s else Halt
         | Some d \<Rightarrow>
             if GET_SECURITY_STATE (ep_attr d) \<noteq> SEC_SECURE \<or> EP_GET_EXE (ep_attr d) \<noteq> EXECUTABLE then Halt
             else if caller = SEC_SECURE \<and> img_state d \<noteq> STATE_EXECUTED then Halt
             else if caller \<noteq> SEC_SECURE \<and> img_state d \<noteq> STATE_INTERRUPTED then Halt
             else
               let other = (if caller = SEC_SECURE then SEC_NON_SECURE else SEC_SECURE);
                   d2 = d\<lparr>img_state := (if caller = SEC_SECURE then STATE_INTERRUPTED else STATE_EXECUTED)\<rparr>
               in Ret (image_param, other)
                    (cm_set_next_eret_context other
                      (cm_el1_sysregs_context_restore other
                        (cm_el1_sysregs_context_save caller (set_desc (sec_exec_image_id s) d2 s)))))"

definition bl1_fwu_sec_image_done :: "u32 \<Rightarrow> 'r fwu_state \<Rightarrow> (int \<times> u32, 'r fwu_state) outcome" where
  "bl1_fwu_sec_image_done flags s =
     (if GET_SECURITY_STATE flags = SEC_NON_SECURE then Ret (- EPERM, SEC_NON_SECURE) s
      else case bl1_plat_get_image_desc s (sec_exec_image_id s) of
             None \<Rightarrow> Halt
           | Some d \<Rightarrow>
               if GET_SECURITY_STATE (ep_attr d) \<noteq> SEC_SECURE \<or> EP_GET_EXE (ep_attr d) \<noteq> EXECUTABLE \<or> img_state d \<noteq> STATE_EXECUTED
               then Halt
               else let (rc, s1) = bl1_fwu_remove_loaded_id (sec_exec_image_id s) s
                    in if rc \<noteq> 0 then Halt
                       else Ret (0, SEC_NON_SECURE)
                              (cm_set_next_eret_context SEC_NON_SECURE
                                (cm_el1_sysregs_context_restore SEC_NON_SECURE
                                  ((set_desc (sec_exec_image_id s) (d\<lparr>img_state := STATE_RESET\<rparr>) s1)
                                     \<lparr>sec_exec_image_id := INVALID_IMAGE_ID\<rparr>))))"

section \<open>Reset\<close>

definition bl1_fwu_image_reset :: "u32 \<Rightarrow> u32 \<Rightarrow> 'r fwu_state \<Rightarrow> (int, 'r fwu_state) outcome" where
  "bl1_fwu_image_reset iid flags s =
     (case bl1_plat_get_image_desc s iid of
        None \<Rightarrow> Ret (- EPERM) s
      | Some d \<Rightarrow>
          if GET_SECURITY_STATE flags = SEC_SECURE then Ret (- EPERM) s
          else case img_state d of
                 STATE_RESET \<Rightarrow> Ret 0 s
               | STATE_EXECUTED \<Rightarrow> Halt
               | _ \<Rightarrow>
                   let (rc, s1) = bl1_fwu_remove_loaded_id iid s
                   in if rc \<noteq> 0 then Ret (- EPERM) s
                      else if copied_size d \<noteq> 0 \<and> GET_SECURITY_STATE (ep_attr d) \<noteq> SEC_SECURE then Halt
                      else
                        let m = (if copied_size d \<noteq> 0 then zero_normalmem (image_base d) (copied_size d) (fwu_mem s1) else fwu_mem s1)
                        in Ret 0 ((set_desc iid (d\<lparr>copied_size := 0, image_size := 0, img_state := STATE_RESET\<rparr>) (s1\<lparr>fwu_mem := m\<rparr>))
                                    \<lparr>auth_img_flags := (auth_img_flags s1)(iid := 0)\<rparr>))"

section \<open>The SMC handler\<close>

definition smc_ret1 :: "u32 \<Rightarrow> int \<Rightarrow> 'r fwu_state \<Rightarrow> 'r fwu_state" where
  "smc_ret1 h rc s = s\<lparr>ctx_x0 := (ctx_x0 s)(h := word_of_int rc)\<rparr>"

definition bl1_fwu_smc_handler ::
  "'r fwu_env \<Rightarrow> u32 \<Rightarrow> u64 \<Rightarrow> u64 \<Rightarrow> u64 \<Rightarrow> u64 \<Rightarrow> u32 \<Rightarrow> 'r fwu_state \<Rightarrow> (unit, 'r fwu_state) outcome" where
  "bl1_fwu_smc_handler env fid x1 x2 x3 x4 flags s =
     (let h = GET_SECURITY_STATE flags in
      if fid = 0x10 then obind (bl1_fwu_image_copy env (ucast x1) x2 (ucast x3) (ucast x4) flags s) (\<lambda>rc t. Ret () (smc_ret1 h rc t))
      else if fid = 0x11 then obind (bl1_fwu_image_auth env (ucast x1) x2 (ucast x3) flags s) (\<lambda>rc t. Ret () (smc_ret1 h rc t))
      else if fid = 0x12 then obind (bl1_fwu_image_execute env (ucast x1) flags s) (\<lambda>(rc, h2) t. Ret () (smc_ret1 h2 rc t))
      else if fid = 0x13 then obind (bl1_fwu_image_resume (sint x1) flags s) (\<lambda>(rc, h2) t. Ret () (smc_ret1 h2 rc t))
      else if fid = 0x14 then obind (bl1_fwu_sec_image_done flags s) (\<lambda>(rc, h2) t. Ret () (smc_ret1 h2 rc t))
      else if fid = 0x16 then obind (bl1_fwu_image_reset (ucast x1) flags s) (\<lambda>rc t. Ret () (smc_ret1 h rc t))
      else Halt)"

section \<open>Lemmas on the parts\<close>

lemma get_desc_set [simp]:
  "bl1_plat_get_image_desc (set_desc iid d s) j =
     (if j = iid \<and> iid \<noteq> INVALID_IMAGE_ID then Some d else bl1_plat_get_image_desc s j)"
  by (simp add: bl1_plat_get_image_desc_def set_desc_def)

lemma get_desc_invalid [simp]: "bl1_plat_get_image_desc s INVALID_IMAGE_ID = None"
  by (simp add: bl1_plat_get_image_desc_def)

lemma get_desc_update [simp]:
  "bl1_plat_get_image_desc (s\<lparr>fwu_mem := m\<rparr>) = bl1_plat_get_image_desc s"
  "bl1_plat_get_image_desc (s\<lparr>bl1_fwu_loaded_ids := l\<rparr>) = bl1_plat_get_image_desc s"
  "bl1_plat_get_image_desc (s\<lparr>auth_img_flags := fl\<rparr>) = bl1_plat_get_image_desc s"
  "bl1_plat_get_image_desc (s\<lparr>sec_exec_image_id := i\<rparr>) = bl1_plat_get_image_desc s"
  "bl1_plat_get_image_desc (s\<lparr>el1_live := r\<rparr>) = bl1_plat_get_image_desc s"
  "bl1_plat_get_image_desc (s\<lparr>el1_saved := rs\<rparr>) = bl1_plat_get_image_desc s"
  "bl1_plat_get_image_desc (s\<lparr>next_eret := i\<rparr>) = bl1_plat_get_image_desc s"
  "bl1_plat_get_image_desc (s\<lparr>ctx_x0 := x\<rparr>) = bl1_plat_get_image_desc s"
  by (auto simp: bl1_plat_get_image_desc_def)

lemma set_desc_fields [simp]:
  "bl1_fwu_loaded_ids (set_desc iid d s) = bl1_fwu_loaded_ids s"
  "fwu_mem (set_desc iid d s) = fwu_mem s"
  "auth_img_flags (set_desc iid d s) = auth_img_flags s"
  "sec_exec_image_id (set_desc iid d s) = sec_exec_image_id s"
  by (simp_all add: set_desc_def)

lemma set_desc_twice [simp]: "set_desc iid d2 (set_desc iid d1 s) = set_desc iid d2 s"
  by (simp add: set_desc_def)

lemma replace_first_None [simp]: "replace_first x y l = None \<longleftrightarrow> x \<notin> set l"
  by (induction l) auto

lemma replace_first_Some:
  "replace_first x y l = Some l' \<Longrightarrow> \<exists>as bs. l = as @ x # bs \<and> x \<notin> set as \<and> l' = as @ y # bs"
proof (induction l arbitrary: l')
  case (Cons z zs)
  show ?case
  proof (cases "z = x")
    case True
    then show ?thesis using Cons.prems by (intro exI [of _ "[]"] exI [of _ zs]) auto
  next
    case False
    then obtain l2 where l2: "replace_first x y zs = Some l2" "l' = z # l2" using Cons.prems by auto
    then obtain as bs where "zs = as @ x # bs" "x \<notin> set as" "l2 = as @ y # bs" using Cons.IH by blast
    then show ?thesis using False l2(2) by (intro exI [of _ "z # as"] exI [of _ bs]) auto
  qed
qed simp

text \<open>The identifiers in the table, without the free entries.\<close>

definition loaded :: "'r fwu_state \<Rightarrow> u32 list" where
  "loaded s = filter (\<lambda>i. i \<noteq> INVALID_IMAGE_ID) (bl1_fwu_loaded_ids s)"

lemma loaded_update [simp]:
  "loaded (set_desc iid d s) = loaded s" "loaded (s\<lparr>fwu_mem := m\<rparr>) = loaded s"
  "loaded (s\<lparr>auth_img_flags := fl\<rparr>) = loaded s" "loaded (s\<lparr>sec_exec_image_id := i\<rparr>) = loaded s"
  "loaded (s\<lparr>el1_live := r\<rparr>) = loaded s" "loaded (s\<lparr>el1_saved := rs\<rparr>) = loaded s"
  "loaded (s\<lparr>next_eret := i\<rparr>) = loaded s" "loaded (s\<lparr>ctx_x0 := x\<rparr>) = loaded s"
  by (simp_all add: loaded_def)

lemma add_loaded:
  assumes "bl1_fwu_add_loaded_id iid s = (rc, t)" "iid \<noteq> INVALID_IMAGE_ID" "distinct (loaded s)"
  shows "\<exists>l. t = s\<lparr>bl1_fwu_loaded_ids := l\<rparr>" "rc = 0 \<Longrightarrow> distinct (loaded t) \<and> set (loaded t) = insert iid (set (loaded s))"
proof -
  show "\<exists>l. t = s\<lparr>bl1_fwu_loaded_ids := l\<rparr>"
    using assms(1) by (auto simp: bl1_fwu_add_loaded_id_def split: if_splits option.splits intro: exI [of _ "bl1_fwu_loaded_ids s"])
  assume rc: "rc = 0"
  show "distinct (loaded t) \<and> set (loaded t) = insert iid (set (loaded s))"
  proof (cases "iid \<in> set (bl1_fwu_loaded_ids s)")
    case True
    then show ?thesis using assms by (auto simp: bl1_fwu_add_loaded_id_def loaded_def)
  next
    case False
    then obtain l where l: "replace_first INVALID_IMAGE_ID iid (bl1_fwu_loaded_ids s) = Some l" "t = s\<lparr>bl1_fwu_loaded_ids := l\<rparr>"
      using assms(1) rc by (auto simp: bl1_fwu_add_loaded_id_def split: option.splits)
    then obtain as bs where "bl1_fwu_loaded_ids s = as @ INVALID_IMAGE_ID # bs" "l = as @ iid # bs"
      using replace_first_Some by blast
    then show ?thesis using False assms(2,3) l(2) by (auto simp: loaded_def)
  qed
qed

lemma remove_loaded:
  assumes "bl1_fwu_remove_loaded_id iid s = (rc, t)" "iid \<noteq> INVALID_IMAGE_ID" "distinct (loaded s)"
  shows "\<exists>l. t = s\<lparr>bl1_fwu_loaded_ids := l\<rparr>" "distinct (loaded t) \<and> set (loaded t) = set (loaded s) - {iid}"
    "rc = 0 \<longleftrightarrow> iid \<in> set (loaded s)"
proof -
  show "\<exists>l. t = s\<lparr>bl1_fwu_loaded_ids := l\<rparr>"
    using assms(1) by (auto simp: bl1_fwu_remove_loaded_id_def split: option.splits intro: exI [of _ "bl1_fwu_loaded_ids s"])
  show "rc = 0 \<longleftrightarrow> iid \<in> set (loaded s)"
    using assms(1,2) by (auto simp: bl1_fwu_remove_loaded_id_def loaded_def split: option.splits)
      (metis option.distinct(1) replace_first_None)
  show "distinct (loaded t) \<and> set (loaded t) = set (loaded s) - {iid}"
  proof (cases "replace_first iid INVALID_IMAGE_ID (bl1_fwu_loaded_ids s)")
    case None
    then have "t = s" using assms(1) by (simp add: bl1_fwu_remove_loaded_id_def del: replace_first_None)
    moreover have "iid \<notin> set (loaded s)" using None by (simp add: loaded_def)
    ultimately show ?thesis using assms(3) by simp
  next
    case (Some l)
    then obtain as bs where "bl1_fwu_loaded_ids s = as @ iid # bs" "l = as @ INVALID_IMAGE_ID # bs"
      using replace_first_Some by blast
    then show ?thesis using assms Some by (auto simp: bl1_fwu_remove_loaded_id_def loaded_def)
  qed
qed

section \<open>Regions\<close>

definition region :: "image_desc \<Rightarrow> u64 set" where
  "region d = {a. a - image_base d < ucast (image_size d)}"

lemma region_iff:
  assumes "unat (image_base d) + unat (image_size d) \<le> 2 ^ 64"
  shows "a \<in> region d \<longleftrightarrow> unat (image_base d) \<le> unat a \<and> unat a < unat (image_base d) + unat (image_size d)"
proof -
  have "unat (ucast (image_size d) :: u64) = unat (image_size d)"
    by (rule unat_u64_of_u32)
  then show ?thesis using assms unat_u64_less [of a]
    by (auto simp: region_def word_less_nat_alt unat_sub_if')
qed

lemma mem_bytes_cong:
  "(\<And>a. a \<in> region d \<Longrightarrow> m a = m' a) \<Longrightarrow> mem_bytes (image_base d) (image_size d) m = mem_bytes (image_base d) (image_size d) m'"
proof -
  assume e: "\<And>a. a \<in> region d \<Longrightarrow> m a = m' a"
  have "image_base d + of_nat i \<in> region d" if "i < unat (image_size d)" for i
    using that unat_u32_less [of "image_size d"]
    by (simp add: region_def word_less_nat_alt unat_of_nat)
  then show ?thesis by (simp add: mem_bytes_def e)
qed

text \<open>
  What a loop over the identifiers that ends without an overlap has checked.
\<close>

lemma check_overlaps_sound:
  assumes "check_overlaps_loop s iid cbase cend ls = Some 0" "l \<in> set ls" "l \<noteq> iid" "bl1_plat_get_image_desc s l = Some d" "image_size d \<noteq> 0"
  shows "image_base d + ucast (image_size d) - 1 < cbase \<or> cend < image_base d"
  using assms
proof (induction ls)
  case (Cons k ks)
  show ?case
  proof (cases "k = l")
    case True
    have "l \<noteq> INVALID_IMAGE_ID" using Cons.prems(4) by auto
    then show ?thesis using Cons.prems True by (auto simp: Let_def split: if_splits)
  next
    case False
    then show ?thesis using Cons by (auto simp: Let_def split: if_splits option.splits)
  qed
qed simp

lemma unat_region_end:
  assumes "unat (image_base d) + unat (image_size d) \<le> 2 ^ 64" "image_size d \<noteq> 0"
  shows "unat (image_base d + ucast (image_size d) - 1) = unat (image_base d) + unat (image_size d) - 1"
proof -
  have z: "0 < unat (image_size d)" using assms(2) by (simp add: unat_gt_0)
  define c where "c = ucast (image_size d) - (1 :: u64)"
  have e: "image_base d + ucast (image_size d) - 1 = image_base d + c" by (simp add: c_def)
  have "unat c = unat (image_size d) - 1"
    using z by (simp add: unat_sub_if' c_def)
  then show ?thesis unfolding e using assms(1) z by (simp add: unat_plus_if')
qed

section \<open>The invariant\<close>

text \<open>
  A run of firmware update starts with every image reset, but for the image of the normal world that drives it
  (\<open>b\<close>), which is running. \<open>G\<close> is the set of the identifiers whose image has been copied to its place and not
  been discarded since. The platform's descriptors are of the two worlds and name regions that do not wrap.
\<close>

definition plat_desc_ok :: "image_desc \<Rightarrow> bool" where
  "plat_desc_ok d \<longleftrightarrow> unat (image_base d) + unat (image_max_size d) \<le> 2 ^ 64 \<and>
     (GET_SECURITY_STATE (ep_attr d) = SEC_SECURE \<or> GET_SECURITY_STATE (ep_attr d) = SEC_NON_SECURE) \<and>
     (GET_SECURITY_STATE (ep_attr d) = SEC_NON_SECURE \<longrightarrow> copied_size d = 0)"

text \<open>The bytes have passed authentication as the given image.\<close>

definition authentic :: "'r fwu_env \<Rightarrow> u32 \<Rightarrow> u8 list \<Rightarrow> bool" where
  "authentic env iid bytes \<longleftrightarrow> (\<exists>fl. fst (auth_mod_verify_img env iid bytes fl) = 0)"

definition copied_ok :: "'r fwu_env \<Rightarrow> memory \<Rightarrow> u32 \<Rightarrow> image_desc \<Rightarrow> bool" where
  "copied_ok env m iid d \<longleftrightarrow> GET_SECURITY_STATE (ep_attr d) = SEC_SECURE \<and> img_state d \<noteq> STATE_RESET \<and>
     0 < image_size d \<and> image_size d \<le> image_max_size d \<and>
     (if img_state d = STATE_COPYING then 0 < copied_size d \<and> copied_size d < image_size d else copied_size d = image_size d) \<and>
     (img_state d = STATE_AUTHENTICATED \<longrightarrow> authentic env iid (mem_bytes (image_base d) (image_size d) m))"

definition img_ok :: "'r fwu_env \<Rightarrow> u32 set \<Rightarrow> memory \<Rightarrow> u32 \<Rightarrow> u32 \<Rightarrow> image_desc \<Rightarrow> bool" where
  "img_ok env G m b iid d \<longleftrightarrow> plat_desc_ok d \<and> (iid \<in> G \<longrightarrow> copied_ok env m iid d) \<and>
     (iid \<notin> G \<and> img_state d \<noteq> STATE_RESET \<longrightarrow> copied_size d = 0 \<and> img_state d \<noteq> STATE_COPYING \<and> img_state d \<noteq> STATE_COPIED) \<and>
     (iid = b \<longrightarrow> img_state d = STATE_EXECUTED \<and> GET_SECURITY_STATE (ep_attr d) = SEC_NON_SECURE)"

definition fwu_inv :: "'r fwu_env \<Rightarrow> u32 \<Rightarrow> 'r fwu_state \<times> u32 set \<Rightarrow> bool" where
  "fwu_inv env b sG \<longleftrightarrow> (case sG of (s, G) \<Rightarrow>
     (\<forall>i d. bl1_plat_get_image_desc s i = Some d \<longrightarrow> img_ok env G (fwu_mem s) b i d) \<and>
     (\<forall>i \<in> G. bl1_plat_get_image_desc s i \<noteq> None) \<and>
     distinct (loaded s) \<and>
     (\<forall>i. i \<in> set (loaded s) \<longleftrightarrow> i \<noteq> b \<and> (\<exists>d. bl1_plat_get_image_desc s i = Some d \<and> img_state d \<noteq> STATE_RESET)) \<and>
     (\<forall>i \<in> G. \<forall>j \<in> G. i \<noteq> j \<longrightarrow>
        (\<forall>di dj. bl1_plat_get_image_desc s i = Some di \<and> bl1_plat_get_image_desc s j = Some dj \<longrightarrow> region di \<inter> region dj = {})))"

lemma fwu_invD:
  assumes "fwu_inv env b (s, G)"
  shows "bl1_plat_get_image_desc s i = Some d \<Longrightarrow> img_ok env G (fwu_mem s) b i d"
    and "i \<in> G \<Longrightarrow> \<exists>d. bl1_plat_get_image_desc s i = Some d"
    and "distinct (loaded s)"
    and "i \<in> set (loaded s) \<longleftrightarrow> i \<noteq> b \<and> (\<exists>d. bl1_plat_get_image_desc s i = Some d \<and> img_state d \<noteq> STATE_RESET)"
    and "i \<in> G \<Longrightarrow> j \<in> G \<Longrightarrow> i \<noteq> j \<Longrightarrow> bl1_plat_get_image_desc s i = Some di \<Longrightarrow> bl1_plat_get_image_desc s j = Some dj \<Longrightarrow>
           region di \<inter> region dj = {}"
proof -
  note I = assms [unfolded fwu_inv_def split_conv]
  show "bl1_plat_get_image_desc s i = Some d \<Longrightarrow> img_ok env G (fwu_mem s) b i d" using I by (elim conjE) simp
  show "i \<in> G \<Longrightarrow> \<exists>d. bl1_plat_get_image_desc s i = Some d" using I by (elim conjE) fastforce
  show "distinct (loaded s)" using I by (elim conjE)
  show "i \<in> set (loaded s) \<longleftrightarrow> i \<noteq> b \<and> (\<exists>d. bl1_plat_get_image_desc s i = Some d \<and> img_state d \<noteq> STATE_RESET)"
    using I by (elim conjE) (rule spec)
  show "region di \<inter> region dj = {}"
    if "i \<in> G" "j \<in> G" "i \<noteq> j" "bl1_plat_get_image_desc s i = Some di" "bl1_plat_get_image_desc s j = Some dj"
    using I that by (elim conjE) (metis (no_types, lifting))
qed

lemma img_ok_cong:
  assumes "img_ok env G m b i d" "i \<in> G \<longleftrightarrow> i \<in> G'" "i \<in> G \<Longrightarrow> img_state d = STATE_AUTHENTICATED \<Longrightarrow> (\<And>a. a \<in> region d \<Longrightarrow> m' a = m a)"
  shows "img_ok env G' m' b i d"
proof -
  have "mem_bytes (image_base d) (image_size d) m' = mem_bytes (image_base d) (image_size d) m"
    if "i \<in> G" "img_state d = STATE_AUTHENTICATED"
    by (rule mem_bytes_cong) (use assms(3) that in blast)
  then show ?thesis using assms(1,2) by (auto simp: img_ok_def copied_ok_def)
qed

text \<open>
  An operation changes one descriptor, possibly the set of copied images at that identifier, and no memory in the
  region of another copied image: the form in which every operation below keeps the invariant.
\<close>

lemma fwu_inv_update:
  assumes inv: "fwu_inv env b (s, G)"
    and d: "bl1_plat_get_image_desc s iid = Some d"
    and desc: "\<And>j. bl1_plat_get_image_desc t j = (if j = iid then Some d' else bl1_plat_get_image_desc s j)"
    and ids: "distinct (loaded t)" "\<And>j. j \<noteq> iid \<Longrightarrow> j \<in> set (loaded t) \<longleftrightarrow> j \<in> set (loaded s)"
      "iid \<in> set (loaded t) \<longleftrightarrow> iid \<noteq> b \<and> img_state d' \<noteq> STATE_RESET"
    and ok: "img_ok env G' (fwu_mem t) b iid d'"
    and G': "\<And>j. j \<noteq> iid \<Longrightarrow> j \<in> G' \<longleftrightarrow> j \<in> G"
    and mem: "\<And>j dj a. j \<in> G \<Longrightarrow> j \<noteq> iid \<Longrightarrow> bl1_plat_get_image_desc s j = Some dj \<Longrightarrow> img_state dj = STATE_AUTHENTICATED \<Longrightarrow>
          a \<in> region dj \<Longrightarrow> fwu_mem t a = fwu_mem s a"
    and disj: "\<And>j dj. iid \<in> G' \<Longrightarrow> j \<in> G \<Longrightarrow> j \<noteq> iid \<Longrightarrow> bl1_plat_get_image_desc s j = Some dj \<Longrightarrow> region d' \<inter> region dj = {}"
  shows "fwu_inv env b (t, G')"
proof -
  note I = fwu_invD [OF inv]
  have 1: "img_ok env G' (fwu_mem t) b i x" if "bl1_plat_get_image_desc t i = Some x" for i x
  proof (cases "i = iid")
    case True
    then show ?thesis using that ok desc by simp
  next
    case False
    then have "bl1_plat_get_image_desc s i = Some x" using that desc by simp
    then show ?thesis by (intro img_ok_cong [OF I(1)]) (use False G' mem [of i x] in auto)
  qed
  have 2: "bl1_plat_get_image_desc t i \<noteq> None" if "i \<in> G'" for i
    using that I(2) [of i] G' [of i] desc [of i] by (cases "i = iid") auto
  have 3: "i \<in> set (loaded t) \<longleftrightarrow> i \<noteq> b \<and> (\<exists>d. bl1_plat_get_image_desc t i = Some d \<and> img_state d \<noteq> STATE_RESET)" for i
    using ids(2) [of i] ids(3) I(4) [of i] desc [of i] by (cases "i = iid") auto
  have 4: "region di \<inter> region dj = {}"
    if "i \<in> G'" "j \<in> G'" "i \<noteq> j" "bl1_plat_get_image_desc t i = Some di" "bl1_plat_get_image_desc t j = Some dj" for i j di dj
  proof (cases "i = iid \<or> j = iid")
    case True
    then consider "i = iid" "j \<noteq> iid" | "j = iid" "i \<noteq> iid" using \<open>i \<noteq> j\<close> by blast
    then show ?thesis
    proof cases
      case 1
      then show ?thesis using that G' [of j] desc [of i] desc [of j] disj [of j dj] by simp
    next
      case 2
      then show ?thesis using that G' [of i] desc [of i] desc [of j] disj [of i di] by (simp add: Int_commute)
    qed
  next
    case False
    then show ?thesis using that G' [of i] G' [of j] desc [of i] desc [of j] I(5) [of i j di dj] by simp
  qed
  show ?thesis unfolding fwu_inv_def split_conv
  proof (intro conjI allI ballI impI)
    show "img_ok env G' (fwu_mem t) b i d" if "bl1_plat_get_image_desc t i = Some d" for i d
      using that by (rule 1)
    show "bl1_plat_get_image_desc t i \<noteq> None" if "i \<in> G'" for i
      using that by (rule 2)
    show "distinct (loaded t)" by (rule ids(1))
    show "i \<in> set (loaded t) \<longleftrightarrow> i \<noteq> b \<and> (\<exists>d. bl1_plat_get_image_desc t i = Some d \<and> img_state d \<noteq> STATE_RESET)" for i
      by (rule 3)
    show "region di \<inter> region dj = {}"
      if "i \<in> G'" "j \<in> G'" "i \<noteq> j" "bl1_plat_get_image_desc t i = Some di \<and> bl1_plat_get_image_desc t j = Some dj" for i j di dj
      using that 4 [OF that(1-3)] by simp
  qed
qed

section \<open>Every operation keeps the invariant\<close>

lemma fwu_inv_state:
  assumes "fwu_inv env b (s, G)" "bl1_plat_get_image_desc s iid = Some d"
  shows "img_state d = STATE_RESET \<Longrightarrow> iid \<notin> G" "img_state d = STATE_COPYING \<or> img_state d = STATE_COPIED \<Longrightarrow> iid \<in> G"
    "plat_desc_ok d" "iid \<noteq> INVALID_IMAGE_ID" "GET_SECURITY_STATE (ep_attr d) = SEC_SECURE \<Longrightarrow> iid \<noteq> b"
    "iid \<in> G \<Longrightarrow> copied_ok env (fwu_mem s) iid d" "img_state d \<noteq> STATE_EXECUTED \<Longrightarrow> iid \<noteq> b"
    "iid \<notin> G \<Longrightarrow> img_state d \<noteq> STATE_RESET \<Longrightarrow> copied_size d = 0"
    "iid \<in> set (loaded s) \<longleftrightarrow> iid \<noteq> b \<and> img_state d \<noteq> STATE_RESET"
  using fwu_invD(1) [OF assms] fwu_invD(4) [OF assms(1), of iid] assms(2)
  by (auto simp: img_ok_def copied_ok_def)

lemma mem_check_nonzero: "bl1_plat_mem_check env src n flags = 0 \<Longrightarrow> n \<noteq> 0"
  by (auto simp: bl1_plat_mem_check_def)

lemma copy_block_cases:
  assumes "fwu_copy_block env iid d src bs (image_size d) flags s = Ret rc t" "bl1_plat_get_image_desc s iid = Some d"
    and "distinct (loaded s)" "img_state d = STATE_RESET \<longrightarrow> iid \<notin> set (loaded s)" "copied_size d < image_size d"
  obtains (err) "rc \<noteq> 0" "\<And>j. bl1_plat_get_image_desc t j = bl1_plat_get_image_desc s j" "fwu_mem t = fwu_mem s"
      "distinct (loaded t)" "set (loaded t) = set (loaded s)"
    | (copied) n where "rc = 0" "0 < n" "n \<le> image_size d - copied_size d"
      "\<And>j. bl1_plat_get_image_desc t j = (if j = iid then Some (d\<lparr>copied_size := copied_size d + n,
          img_state := (if n = image_size d - copied_size d then STATE_COPIED else STATE_COPYING)\<rparr>) else bl1_plat_get_image_desc s j)"
      "fwu_mem t = memcpy (image_base d + ucast (copied_size d)) src n (fwu_mem s)"
      "distinct (loaded t)" "set (loaded t) = insert iid (set (loaded s))"
proof -
  let ?rem = "image_size d - copied_size d"
  define n where "n = (if bs > ?rem then ?rem else bs)"
  have iid: "iid \<noteq> INVALID_IMAGE_ID" using assms(2) by auto
  obtain rc1 s1 where add: "bl1_fwu_add_loaded_id iid s = (rc1, s1)" by fastforce
  obtain rc2 s2 where rem: "bl1_fwu_remove_loaded_id iid s1 = (rc2, s2)" by fastforce
  obtain l where s1: "s1 = s\<lparr>bl1_fwu_loaded_ids := l\<rparr>" using add_loaded(1) [OF add iid assms(3)] by blast
  have run: "fwu_copy_block env iid d src bs (image_size d) flags s =
    (if bl1_plat_mem_check env src n flags \<noteq> 0 then Ret (- ENOMEM) s
     else if rc1 \<noteq> 0 then Ret (- ENOMEM) s
     else if img_state d = STATE_RESET \<and> bl1_plat_handle_pre_image_load env iid \<noteq> 0 then Ret (- EPERM) s2
     else Ret 0 (set_desc iid (d\<lparr>copied_size := copied_size d + n, img_state := (if n = ?rem then STATE_COPIED else STATE_COPYING)\<rparr>)
            (s1\<lparr>fwu_mem := memcpy (image_base d + ucast (copied_size d)) src n (fwu_mem s)\<rparr>)))"
    using add rem s1 by (simp add: fwu_copy_block_def Let_def n_def)
  show ?thesis
  proof (cases "bl1_plat_mem_check env src n flags \<noteq> 0 \<or> rc1 \<noteq> 0")
    case True
    then have "rc \<noteq> 0" "t = s" using assms(1) run by (auto split: if_splits)
    then show ?thesis using err assms(3) by simp
  next
    case False
    then have L: "distinct (loaded s1)" "set (loaded s1) = insert iid (set (loaded s))"
      using add_loaded(2) [OF add iid assms(3)] by auto
    show ?thesis
    proof (cases "img_state d = STATE_RESET \<and> bl1_plat_handle_pre_image_load env iid \<noteq> 0")
      case True
      then have "rc \<noteq> 0" "t = s2" using False assms(1) run by auto
      moreover obtain l2 where "s2 = s1\<lparr>bl1_fwu_loaded_ids := l2\<rparr>" using remove_loaded(1) [OF rem iid L(1)] by blast
      moreover have "distinct (loaded s2)" "set (loaded s2) = set (loaded s)"
        using remove_loaded(2) [OF rem iid L(1)] L(2) assms(4) True by auto
      ultimately show ?thesis using err s1 by simp
    next
      case nopre: False
      have n: "n \<noteq> 0" using False mem_check_nonzero [of env src n flags] by simp
      have le: "n \<le> ?rem" by (simp add: n_def not_less)
      have "rc = 0" "t = set_desc iid (d\<lparr>copied_size := copied_size d + n, img_state := (if n = ?rem then STATE_COPIED else STATE_COPYING)\<rparr>)
            (s1\<lparr>fwu_mem := memcpy (image_base d + ucast (copied_size d)) src n (fwu_mem s)\<rparr>)"
        using False nopre assms(1) run by auto
      then show ?thesis using copied [of n] n le L iid s1 by (simp add: word_neq_0_conv)
    qed
  qed
qed

lemma copy_block_sizes:
  assumes "(n :: u32) \<le> z - c" "c < z" "0 < n"
  shows "unat (c + n) = unat c + unat n" "unat c + unat n \<le> unat z" "n = z - c \<longleftrightarrow> c + n = z" "n \<noteq> z - c \<Longrightarrow> c + n < z" "0 < c + n"
proof -
  have zc: "unat (z - c) = unat z - unat c" using assms(2) by (simp add: unat_sub)
  have le: "unat n \<le> unat z - unat c" "unat c < unat z" "0 < unat n"
    using assms zc by (simp_all add: word_le_nat_alt word_less_nat_alt)
  show s: "unat (c + n) = unat c + unat n" using le unat_u32_less [of z] by (simp add: unat_plus_if')
  show "unat c + unat n \<le> unat z" using le by simp
  show e: "n = z - c \<longleftrightarrow> c + n = z" by (auto simp: algebra_simps)
  have "c + n \<le> z" using s le by (simp add: word_le_nat_alt)
  then show "n \<noteq> z - c \<Longrightarrow> c + n < z" using e by (simp add: order_less_le)
  show "0 < c + n" using s le by (simp add: word_less_nat_alt)
qed

lemma memcpy_outside:
  assumes "plat_desc_ok d" "image_size d \<le> image_max_size d" "unat (copied_size d) + unat n \<le> unat (image_size d)" "a \<notin> region d"
  shows "memcpy (image_base d + ucast (copied_size d)) src n m a = m a"
proof -
  have o: "unat (image_base d) + unat (image_size d) \<le> 2 ^ 64"
    using assms(1,2) by (simp add: plat_desc_ok_def word_le_nat_alt)
  have "a \<in> region d" if c: "a - (image_base d + ucast (copied_size d)) < ucast n"
  proof -
    define b where "b = a - (image_base d + ucast (copied_size d))"
    have a: "a - image_base d = b + ucast (copied_size d)" by (simp add: b_def)
    have "unat b < unat n" using c by (simp add: b_def word_less_nat_alt)
    then have "unat (b + ucast (copied_size d)) < unat (image_size d)"
      using assms(3) unat_u32_less [of "image_size d"] by (simp add: unat_plus_if')
    then show ?thesis by (simp add: region_def a word_less_nat_alt)
  qed
  then show ?thesis using assms(4) by (auto simp: memcpy_def)
qed

lemma copy_block_inv:
  assumes inv: "fwu_inv env b (s, G)" and d: "bl1_plat_get_image_desc s iid = Some d"
    and run: "fwu_copy_block env iid d src bs (image_size d) flags s = Ret rc t"
    and sec: "GET_SECURITY_STATE (ep_attr d) = SEC_SECURE" and st: "img_state d = STATE_RESET \<or> img_state d = STATE_COPYING"
    and sz: "0 < image_size d" "image_size d \<le> image_max_size d" "copied_size d < image_size d"
    and disj: "\<And>j dj. j \<in> G \<Longrightarrow> j \<noteq> iid \<Longrightarrow> bl1_plat_get_image_desc s j = Some dj \<Longrightarrow> region d \<inter> region dj = {}"
  shows "fwu_inv env b (t, if rc = 0 then insert iid G else G)"
proof -
  note F = fwu_inv_state [OF inv d]
  have iid: "iid \<noteq> b" using F(5) sec by simp
  have nl: "img_state d = STATE_RESET \<longrightarrow> iid \<notin> set (loaded s)" using F(9) by simp
  from run d fwu_invD(3) [OF inv] nl sz(3) show ?thesis
  proof (cases rule: copy_block_cases)
    case err
    have "fwu_inv env b (t, G)"
    proof (rule fwu_inv_update [OF inv d])
      show "bl1_plat_get_image_desc t j = (if j = iid then Some d else bl1_plat_get_image_desc s j)" for j
        using err(2) d by simp
      show "iid \<in> set (loaded t) \<longleftrightarrow> iid \<noteq> b \<and> img_state d \<noteq> STATE_RESET" using F(9) err(5) by simp
      show "img_ok env G (fwu_mem t) b iid d" using fwu_invD(1) [OF inv d] err(3) by simp
    qed (use err disj in auto)
    then show ?thesis using err(1) by simp
  next
    case (copied n)
    note S = copy_block_sizes [OF copied(3) sz(3) copied(2)]
    let ?d = "d\<lparr>copied_size := copied_size d + n, img_state := (if n = image_size d - copied_size d then STATE_COPIED else STATE_COPYING)\<rparr>"
    have "fwu_inv env b (t, insert iid G)"
    proof (rule fwu_inv_update [OF inv d copied(4)])
      show "iid \<in> set (loaded t) \<longleftrightarrow> iid \<noteq> b \<and> img_state ?d \<noteq> STATE_RESET" using copied(7) iid by simp
      have "plat_desc_ok ?d" using F(3) sec by (simp add: plat_desc_ok_def)
      then show "img_ok env (insert iid G) (fwu_mem t) b iid ?d"
        using iid sec sz S by (auto simp: img_ok_def copied_ok_def)
      show "fwu_mem t a = fwu_mem s a"
        if "j \<in> G" "j \<noteq> iid" "bl1_plat_get_image_desc s j = Some dj" "a \<in> region dj" for j dj a
        unfolding copied(5) by (rule memcpy_outside [OF F(3) sz(2) S(2)]) (use disj [OF that(1-3)] that(4) in blast)
      show "region ?d \<inter> region dj = {}" if "j \<in> G" "j \<noteq> iid" "bl1_plat_get_image_desc s j = Some dj" for j dj
        using disj [OF that] by (simp add: region_def)
    qed (use copied(6,7) in auto)
    then show ?thesis using copied(1) by simp
  qed
qed

lemma regions_disjoint:
  assumes "plat_desc_ok d" "image_size d \<le> image_max_size d" "plat_desc_ok e" "image_size e \<le> image_max_size e" "image_size d \<noteq> 0" "image_size e \<noteq> 0"
    and "image_base e + ucast (image_size e) - 1 < image_base d \<or> image_base d + ucast (image_size d) - 1 < image_base e"
  shows "region d \<inter> region e = {}"
proof -
  have o: "unat (image_base d) + unat (image_size d) \<le> 2 ^ 64" "unat (image_base e) + unat (image_size e) \<le> 2 ^ 64"
    using assms(1-4) by (simp_all add: plat_desc_ok_def word_le_nat_alt)
  have "unat (image_base e) + unat (image_size e) \<le> unat (image_base d) \<or> unat (image_base d) + unat (image_size d) \<le> unat (image_base e)"
    using assms(7) unat_region_end [OF o(1) assms(5)] unat_region_end [OF o(2) assms(6)] by (auto simp: word_less_nat_alt)
  then show ?thesis using region_iff [OF o(1)] region_iff [OF o(2)] by auto
qed

lemma check_overlaps_disjoint:
  assumes inv: "fwu_inv env b (s, G)" and d: "bl1_plat_get_image_desc s iid = Some d"
    and chk: "bl1_fwu_image_check_overlaps iid (set_desc iid (d\<lparr>image_size := isz\<rparr>) s) = Some 0"
    and sz: "isz \<noteq> 0" "isz \<le> image_max_size d" and j: "j \<in> G" "j \<noteq> iid" "bl1_plat_get_image_desc s j = Some dj"
  shows "region (d\<lparr>image_size := isz\<rparr>) \<inter> region dj = {}"
proof -
  note F = fwu_inv_state [OF inv d] and E = fwu_inv_state [OF inv j(3)]
  have ok: "copied_ok env (fwu_mem s) j dj" by (rule E(6) [OF j(1)])
  then have "j \<in> set (loaded s)" using E(5,9) by (auto simp: copied_ok_def)
  then have "j \<in> set (bl1_fwu_loaded_ids s)" by (simp add: loaded_def)
  moreover have "check_overlaps_loop (set_desc iid (d\<lparr>image_size := isz\<rparr>) s) iid (image_base d) (image_base d + ucast isz - 1) (bl1_fwu_loaded_ids s) = Some 0"
    using chk F(4) by (simp add: bl1_fwu_image_check_overlaps_def split: if_splits)
  ultimately have "image_base dj + ucast (image_size dj) - 1 < image_base d \<or> image_base d + ucast isz - 1 < image_base dj"
    using check_overlaps_sound j(2,3) ok by (fastforce simp: copied_ok_def)
  then show ?thesis using F(3) E(3) ok sz by (intro regions_disjoint) (auto simp: copied_ok_def plat_desc_ok_def)
qed

lemma reset_desc_inv:
  assumes inv: "fwu_inv env b (s, G)" and d: "bl1_plat_get_image_desc s iid = Some d" and reset: "img_state d = STATE_RESET"
    and c: "c = copied_size d \<or> c = 0"
  shows "fwu_inv env b (set_desc iid (d\<lparr>image_size := z, copied_size := c\<rparr>) s, G)"
proof (rule fwu_inv_update [OF inv d])
  note F = fwu_inv_state [OF inv d]
  show "img_ok env G (fwu_mem (set_desc iid (d\<lparr>image_size := z, copied_size := c\<rparr>) s)) b iid (d\<lparr>image_size := z, copied_size := c\<rparr>)"
    using F(1,3,7) reset c by (auto simp: img_ok_def plat_desc_ok_def)
qed (use fwu_inv_state [OF inv d] reset fwu_invD(3) [OF inv] in auto)

lemma image_copy_inv:
  assumes inv: "fwu_inv env b (s, G)" and run: "bl1_fwu_image_copy env iid src bs isz flags s = Ret rc t"
  shows "fwu_inv env b (t, if rc = 0 then insert iid G else G)"
proof (cases "bl1_plat_get_image_desc s iid = None \<or> (t = s \<and> rc \<noteq> 0)")
  case True
  then show ?thesis using inv run by (auto simp: bl1_fwu_image_copy_def)
next
  case nerr: False
  then obtain d where d: "bl1_plat_get_image_desc s iid = Some d" by auto
  note F = fwu_inv_state [OF inv d]
  have sec: "GET_SECURITY_STATE (ep_attr d) = SEC_SECURE" and st: "img_state d = STATE_RESET \<or> img_state d = STATE_COPYING"
    using nerr run d F(3) by (auto simp: bl1_fwu_image_copy_def plat_desc_ok_def split: if_splits)
  show ?thesis
  proof (cases "img_state d = STATE_COPYING")
    case True
    then have G: "iid \<in> G" using F(2) by simp
    have cb: "fwu_copy_block env iid d src bs (image_size d) flags s = Ret rc t"
      using nerr run d True by (auto simp: bl1_fwu_image_copy_def split: if_splits)
    show ?thesis
      by (rule copy_block_inv [OF inv d cb sec st])
        (use F(6) [OF G] True fwu_invD(5) [OF inv G _ _ d] in \<open>auto simp: copied_ok_def\<close>)
  next
    case False
    then have reset: "img_state d = STATE_RESET" using st by simp
    have sz: "isz \<noteq> 0" "isz \<le> image_max_size d"
      using nerr run d reset by (auto simp: bl1_fwu_image_copy_def split: if_splits)
    show ?thesis
    proof (cases "bl1_fwu_image_check_overlaps iid (set_desc iid (d\<lparr>image_size := isz\<rparr>) s) = Some 0")
      case False
      then have "rc \<noteq> 0" "t = set_desc iid (d\<lparr>image_size := 0, copied_size := copied_size d\<rparr>) s"
        using nerr run d reset by (auto simp: bl1_fwu_image_copy_def Let_def split: if_splits option.splits)
      then show ?thesis using reset_desc_inv [OF inv d reset, of "copied_size d" 0] by simp
    next
      case True
      let ?d = "d\<lparr>image_size := isz, copied_size := 0\<rparr>"
      have cb: "fwu_copy_block env iid ?d src bs (image_size ?d) flags (set_desc iid ?d s) = Ret rc t"
        using nerr run d reset True by (auto simp: bl1_fwu_image_copy_def Let_def split: if_splits)
      have "region ?d = region (d\<lparr>image_size := isz\<rparr>)" by (simp add: region_def)
      then show ?thesis
        by (intro copy_block_inv [OF reset_desc_inv [OF inv d reset] _ cb])
          (use F(4) sec reset sz check_overlaps_disjoint [OF inv d True sz] in \<open>auto simp: word_neq_0_conv\<close>)
    qed
  qed
qed

lemma region_update [simp]: "region (d\<lparr>img_state := st\<rparr>) = region d" "region (d\<lparr>copied_size := c\<rparr>) = region d"
  by (simp_all add: region_def)

lemma zero_outside: "a \<notin> region d \<Longrightarrow> zero_normalmem (image_base d) (image_size d) m a = m a"
  by (simp add: zero_normalmem_def region_def)

lemma auth_copied_inv:
  assumes inv: "fwu_inv env b (s, G)" and d: "bl1_plat_get_image_desc s iid = Some d" and st: "img_state d = STATE_COPIED"
    and run: "fwu_auth_check env iid d (image_base d) (image_size d) s = Ret rc t"
  shows "fwu_inv env b (t, if rc = - EAUTH then G - {iid} else G)"
proof -
  note F = fwu_inv_state [OF inv d]
  have G: "iid \<in> G" and ok: "copied_ok env (fwu_mem s) iid d" and nb: "iid \<noteq> b" using F(2,6,7) st by auto
  have other: "region d \<inter> region dj = {}" if "j \<in> G" "j \<noteq> iid" "bl1_plat_get_image_desc s j = Some dj" for j dj
    using fwu_invD(5) [OF inv G that(1) _ d that(3)] that(2) by simp
  obtain r fl where v: "auth_mod_verify_img env iid (mem_bytes (image_base d) (image_size d) (fwu_mem s)) (auth_img_flags s) = (r, fl)"
    by fastforce
  show ?thesis
  proof (cases "r = 0")
    case True
    then have "rc = 0" and t: "t = set_desc iid (d\<lparr>img_state := STATE_AUTHENTICATED\<rparr>) (s\<lparr>auth_img_flags := fl\<rparr>)"
      using run v by (auto simp: fwu_auth_check_def Let_def split: if_splits)
    have "authentic env iid (mem_bytes (image_base d) (image_size d) (fwu_mem s))"
      unfolding authentic_def using v True by (intro exI [of _ "auth_img_flags s"]) simp
    then have "img_ok env G (fwu_mem t) b iid (d\<lparr>img_state := STATE_AUTHENTICATED\<rparr>)"
      using F(3) ok nb st G t by (auto simp: img_ok_def copied_ok_def plat_desc_ok_def)
    then have "fwu_inv env b (t, G)"
      by (intro fwu_inv_update [OF inv d, where d' = "d\<lparr>img_state := STATE_AUTHENTICATED\<rparr>"])
        (use t F(4,9) nb st fwu_invD(3) [OF inv] in \<open>simp_all add: other\<close>)
    then show ?thesis using \<open>rc = 0\<close> by simp
  next
    case False
    let ?s = "set_desc iid (d\<lparr>img_state := STATE_RESET\<rparr>) (s\<lparr>auth_img_flags := fl, fwu_mem := zero_normalmem (image_base d) (image_size d) (fwu_mem s)\<rparr>)"
    obtain rc2 u where rem: "bl1_fwu_remove_loaded_id iid ?s = (rc2, u)" by fastforce
    have "distinct (loaded ?s)" using fwu_invD(3) [OF inv] by (simp add: loaded_def)
    note R = remove_loaded [OF rem F(4) this]
    have rc: "rc = - EAUTH" and t: "t = u" using run v rem False st by (auto simp: fwu_auth_check_def Let_def)
    obtain l where u: "u = ?s\<lparr>bl1_fwu_loaded_ids := l\<rparr>" using R(1) by blast
    have L: "set (loaded u) = set (loaded s) - {iid}" using R(2) by (simp add: loaded_def)
    have "fwu_inv env b (t, G - {iid})"
    proof (rule fwu_inv_update [OF inv d])
      show "bl1_plat_get_image_desc t j = (if j = iid then Some (d\<lparr>img_state := STATE_RESET\<rparr>) else bl1_plat_get_image_desc s j)" for j
        using t u F(4) by simp
      show "img_ok env (G - {iid}) (fwu_mem t) b iid (d\<lparr>img_state := STATE_RESET\<rparr>)"
        using F(3) nb by (simp add: img_ok_def plat_desc_ok_def)
      show "fwu_mem t a = fwu_mem s a" if "j \<in> G" "j \<noteq> iid" "bl1_plat_get_image_desc s j = Some dj" "a \<in> region dj" for j dj a
        using other [OF that(1-3)] that(4) t u by (auto intro: zero_outside)
    qed (use t L R(2) in auto)
    then show ?thesis using rc by simp
  qed
qed

lemma auth_in_place_inv:
  assumes inv: "fwu_inv env b (s, G)" and d: "bl1_plat_get_image_desc s iid = Some d"
    and st: "img_state d = STATE_RESET" "copied_size d = 0" and add: "bl1_fwu_add_loaded_id iid s = (0, s1)"
    and run: "fwu_auth_check env iid (d\<lparr>image_size := isz\<rparr>) src isz (set_desc iid (d\<lparr>image_size := isz\<rparr>) s1) = Ret rc t"
  shows "fwu_inv env b (t, G)"
proof -
  note F = fwu_inv_state [OF inv d]
  have nG: "iid \<notin> G" and nb: "iid \<noteq> b" and nl: "iid \<notin> set (loaded s)" using F(1,7,9) st by auto
  note A = add_loaded [OF add F(4) fwu_invD(3) [OF inv]]
  obtain l where s1: "s1 = s\<lparr>bl1_fwu_loaded_ids := l\<rparr>" using A(1) by blast
  let ?d = "d\<lparr>image_size := isz\<rparr>"
  obtain r fl where v: "auth_mod_verify_img env iid (mem_bytes src isz (fwu_mem s)) (auth_img_flags s) = (r, fl)" by fastforce
  let ?s = "(set_desc iid ?d s1)\<lparr>auth_img_flags := fl\<rparr>"
  obtain rc2 u where rem: "bl1_fwu_remove_loaded_id iid ?s = (rc2, u)" by fastforce
  have "distinct (loaded ?s)" using A(2) by simp
  note R = remove_loaded [OF rem F(4) this]
  obtain l2 where u: "u = ?s\<lparr>bl1_fwu_loaded_ids := l2\<rparr>" using R(1) by blast
  have L: "set (loaded u) = set (loaded s)" using R(2) A(2) nl by auto
  have t: "t = (if r = 0 then set_desc iid (?d\<lparr>img_state := STATE_AUTHENTICATED\<rparr>) ?s else u)"
    using run v rem st s1 by (auto simp: fwu_auth_check_def Let_def split: if_splits)
  show ?thesis
  proof (rule fwu_inv_update [OF inv d])
    show "bl1_plat_get_image_desc t j =
        (if j = iid then Some (?d\<lparr>img_state := (if r = 0 then STATE_AUTHENTICATED else STATE_RESET)\<rparr>) else bl1_plat_get_image_desc s j)" for j
      using t u s1 F(4) st(1) by (auto simp: image_desc.equality)
    show "img_ok env G (fwu_mem t) b iid (?d\<lparr>img_state := (if r = 0 then STATE_AUTHENTICATED else STATE_RESET)\<rparr>)"
      using F(3) nb nG st by (simp add: img_ok_def plat_desc_ok_def)
  qed (use t u s1 L R(2) A(2) nb nl nG in auto)
qed

lemma image_auth_inv:
  assumes inv: "fwu_inv env b (s, G)" and run: "bl1_fwu_image_auth env iid src isz flags s = Ret rc t"
    and fresh: "\<And>d. GET_SECURITY_STATE flags = SEC_SECURE \<Longrightarrow> bl1_plat_get_image_desc s iid = Some d \<Longrightarrow> copied_size d = 0"
  shows "fwu_inv env b (t, if rc = - EAUTH then G - {iid} else G)"
proof (cases "bl1_plat_get_image_desc s iid = None \<or> (t = s \<and> rc \<noteq> - EAUTH)")
  case True
  then show ?thesis using inv run by (auto simp: bl1_fwu_image_auth_def)
next
  case nerr: False
  then obtain e where e: "bl1_plat_get_image_desc s iid = Some e" by auto
  note F = fwu_inv_state [OF inv e]
  show ?thesis
  proof (cases "img_state e = STATE_COPIED")
    case True
    then have "fwu_auth_check env iid e (image_base e) (image_size e) s = Ret rc t"
      using nerr run e by (auto simp: bl1_fwu_image_auth_def split: if_splits)
    then show ?thesis by (rule auth_copied_inv [OF inv e True])
  next
    case False
    obtain rc1 s1 where add: "bl1_fwu_add_loaded_id iid s = (rc1, s1)" by fastforce
    have st: "img_state e = STATE_RESET" "GET_SECURITY_STATE flags \<noteq> SEC_SECURE \<longrightarrow> GET_SECURITY_STATE (ep_attr e) \<noteq> SEC_SECURE" "rc1 = 0"
      "fwu_auth_check env iid (e\<lparr>image_size := isz\<rparr>) src isz (set_desc iid (e\<lparr>image_size := isz\<rparr>) s1) = Ret rc t"
      using nerr run e add False by (auto simp: bl1_fwu_image_auth_def Let_def split: if_splits)
    have "copied_size e = 0" using fresh e st(2) F(3) by (auto simp: plat_desc_ok_def)
    then have "fwu_inv env b (t, G)" using auth_in_place_inv [OF inv e st(1) _ _ st(4)] add st(3) by simp
    then show ?thesis using F(1) st(1) by (simp add: Diff_triv)
  qed
qed

lemma running_state_inv:
  assumes inv: "fwu_inv env b (s, G)" and d: "bl1_plat_get_image_desc s iid = Some d" and nb: "iid \<noteq> b"
    and st: "img_state d \<in> {STATE_AUTHENTICATED, STATE_EXECUTED, STATE_INTERRUPTED}" "st' \<in> {STATE_EXECUTED, STATE_INTERRUPTED}"
    and t: "\<And>j. bl1_plat_get_image_desc t j = (if j = iid then Some (d\<lparr>img_state := st'\<rparr>) else bl1_plat_get_image_desc s j)"
      "loaded t = loaded s" "fwu_mem t = fwu_mem s"
  shows "fwu_inv env b (t, G)"
proof (rule fwu_inv_update [OF inv d t(1)])
  note F = fwu_inv_state [OF inv d]
  show "img_ok env G (fwu_mem t) b iid (d\<lparr>img_state := st'\<rparr>)"
    using F(3,6,8) nb st by (auto simp: img_ok_def copied_ok_def plat_desc_ok_def)
  show "region (d\<lparr>img_state := st'\<rparr>) \<inter> region dj = {}" if "iid \<in> G" "j \<in> G" "j \<noteq> iid" "bl1_plat_get_image_desc s j = Some dj" for j dj
    using fwu_invD(5) [OF inv that(1,2) _ d that(4)] that(3) by simp
qed (use t fwu_invD(3) [OF inv] fwu_inv_state(9) [OF inv d] nb st in auto)

lemma discard_inv:
  assumes inv: "fwu_inv env b (s, G)" and d: "bl1_plat_get_image_desc s iid = Some d" and nb: "iid \<noteq> b"
    and d': "img_state d' = STATE_RESET" "plat_desc_ok d'"
    and t: "\<And>j. bl1_plat_get_image_desc t j = (if j = iid then Some d' else bl1_plat_get_image_desc s j)"
      "distinct (loaded t)" "set (loaded t) = set (loaded s) - {iid}"
    and mem: "\<And>a. iid \<notin> G \<or> a \<notin> region d \<Longrightarrow> fwu_mem t a = fwu_mem s a"
  shows "fwu_inv env b (t, G - {iid})"
proof (rule fwu_inv_update [OF inv d t(1)])
  show "fwu_mem t a = fwu_mem s a" if "j \<in> G" "j \<noteq> iid" "bl1_plat_get_image_desc s j = Some dj" "a \<in> region dj" for j dj a
    using mem [of a] fwu_invD(5) [OF inv _ that(1) _ d that(3)] that(2,4) by blast
  show "img_ok env (G - {iid}) (fwu_mem t) b iid d'" using d' nb by (simp add: img_ok_def)
qed (use t d' in auto)

lemma image_execute_inv:
  assumes inv: "fwu_inv env b (s, G)" and run: "bl1_fwu_image_execute env iid flags s = Ret rh t"
  shows "fwu_inv env b (t, G)"
proof (cases "t = s")
  case False
  then obtain d where d: "bl1_plat_get_image_desc s iid = Some d" and st: "img_state d = STATE_AUTHENTICATED"
    and t: "t = (prepared_image env iid d (cm_el1_sysregs_context_save SEC_NON_SECURE s))\<lparr>sec_exec_image_id := iid\<rparr>"
    using run by (auto simp: bl1_fwu_image_execute_def bl1_prepare_next_image_def split: option.splits if_splits)
  have nb: "iid \<noteq> b" using fwu_inv_state(7) [OF inv d] st by simp
  show ?thesis
    by (rule running_state_inv [OF inv d nb, of STATE_EXECUTED])
      (use st t fwu_inv_state(4) [OF inv d] in \<open>auto simp: prepared_image_def Let_def cm_set_next_eret_context_def
         cm_el1_sysregs_context_restore_def cm_el1_sysregs_context_save_def\<close>)
qed (use inv in simp)

lemma image_resume_inv:
  assumes inv: "fwu_inv env b (s, G)" and run: "bl1_fwu_image_resume p flags s = Ret rh t"
  shows "fwu_inv env b (t, G)"
proof (cases "t = s")
  case False
  let ?i = "sec_exec_image_id s"
  obtain d where d: "bl1_plat_get_image_desc s ?i = Some d"
    using run False by (cases "bl1_plat_get_image_desc s ?i") (auto simp: bl1_fwu_image_resume_def Let_def split: if_splits)
  define other where "other = (if GET_SECURITY_STATE flags = SEC_SECURE then SEC_NON_SECURE else SEC_SECURE)"
  define st' where "st' = (if GET_SECURITY_STATE flags = SEC_SECURE then STATE_INTERRUPTED else STATE_EXECUTED)"
  have sec: "GET_SECURITY_STATE (ep_attr d) = SEC_SECURE" "img_state d \<in> {STATE_EXECUTED, STATE_INTERRUPTED}"
    and t: "t = cm_set_next_eret_context other (cm_el1_sysregs_context_restore other
        (cm_el1_sysregs_context_save (GET_SECURITY_STATE flags) (set_desc ?i (d\<lparr>img_state := st'\<rparr>) s)))"
    using run d by (auto simp: bl1_fwu_image_resume_def Let_def other_def st'_def split: if_splits)
  have nb: "?i \<noteq> b" using fwu_inv_state(5) [OF inv d] sec by simp
  show ?thesis
    by (rule running_state_inv [OF inv d nb, of st'])
      (use sec t fwu_inv_state(4) [OF inv d] in \<open>auto simp: st'_def cm_set_next_eret_context_def
         cm_el1_sysregs_context_restore_def cm_el1_sysregs_context_save_def\<close>)
qed (use inv in simp)

lemma sec_image_done_inv:
  assumes inv: "fwu_inv env b (s, G)" and run: "bl1_fwu_sec_image_done flags s = Ret (rc, h) t"
  shows "fwu_inv env b (t, if rc = 0 then G - {sec_exec_image_id s} else G)"
proof (cases "rc = 0")
  case False
  then show ?thesis using run inv by (auto simp: bl1_fwu_sec_image_done_def Let_def split: if_splits option.splits prod.splits)
next
  case True
  let ?i = "sec_exec_image_id s"
  obtain rc1 s1 where rem: "bl1_fwu_remove_loaded_id ?i s = (rc1, s1)" by fastforce
  obtain d where d: "bl1_plat_get_image_desc s ?i = Some d" and sec: "GET_SECURITY_STATE (ep_attr d) = SEC_SECURE"
    and t: "t = cm_set_next_eret_context SEC_NON_SECURE (cm_el1_sysregs_context_restore SEC_NON_SECURE
       ((set_desc ?i (d\<lparr>img_state := STATE_RESET\<rparr>) s1)\<lparr>sec_exec_image_id := INVALID_IMAGE_ID\<rparr>))"
    using run True rem by (auto simp: bl1_fwu_sec_image_done_def Let_def split: if_splits option.splits)
  note F = fwu_inv_state [OF inv d]
  note R = remove_loaded [OF rem F(4) fwu_invD(3) [OF inv]]
  obtain l where s1: "s1 = s\<lparr>bl1_fwu_loaded_ids := l\<rparr>" using R(1) by blast
  have "fwu_inv env b (t, G - {?i})"
    by (rule discard_inv [OF inv d, where d' = "d\<lparr>img_state := STATE_RESET\<rparr>"])
      (use F(3,4,5) sec t s1 R(2) in \<open>auto simp: plat_desc_ok_def cm_set_next_eret_context_def cm_el1_sysregs_context_restore_def\<close>)
  then show ?thesis using True by simp
qed

lemma image_reset_inv:
  assumes inv: "fwu_inv env b (s, G)" and run: "bl1_fwu_image_reset iid flags s = Ret rc t"
  shows "fwu_inv env b (t, if rc = 0 then G - {iid} else G)"
proof (cases "rc = 0 \<and> (\<forall>d. bl1_plat_get_image_desc s iid = Some d \<longrightarrow> img_state d \<noteq> STATE_RESET)")
  case False
  then have "t = s" "rc = 0 \<longrightarrow> iid \<notin> G"
    using run fwu_inv_state(1) [OF inv]
    by (auto simp: bl1_fwu_image_reset_def Let_def split: option.splits if_splits image_state.splits prod.splits)
  then show ?thesis using inv by simp
next
  case True
  obtain rc1 s1 where rem: "bl1_fwu_remove_loaded_id iid s = (rc1, s1)" by fastforce
  obtain d where d: "bl1_plat_get_image_desc s iid = Some d" and nr: "img_state d \<noteq> STATE_RESET"
    using run True by (auto simp: bl1_fwu_image_reset_def split: option.splits)
  define m where "m = (if copied_size d \<noteq> 0 then zero_normalmem (image_base d) (copied_size d) (fwu_mem s1) else fwu_mem s1)"
  let ?d = "d\<lparr>copied_size := 0, image_size := 0, img_state := STATE_RESET\<rparr>"
  have rc: "rc = 0" and st: "img_state d \<noteq> STATE_EXECUTED" "img_state d \<noteq> STATE_RESET"
    and t: "t = (set_desc iid ?d (s1\<lparr>fwu_mem := m\<rparr>))\<lparr>auth_img_flags := (auth_img_flags s1)(iid := 0)\<rparr>"
    using run True nr d rem by (auto simp: bl1_fwu_image_reset_def Let_def m_def split: if_splits image_state.splits)
  note F = fwu_inv_state [OF inv d]
  note R = remove_loaded [OF rem F(4) fwu_invD(3) [OF inv]]
  obtain l where s1: "s1 = s\<lparr>bl1_fwu_loaded_ids := l\<rparr>" using R(1) by blast
  have "fwu_inv env b (t, G - {iid})"
  proof (rule discard_inv [OF inv d, where d' = ?d])
    show "fwu_mem t a = fwu_mem s a" if "iid \<notin> G \<or> a \<notin> region d" for a
    proof (cases "iid \<in> G")
      case True
      then have "copied_size d \<le> image_size d" using F(6) by (auto simp: copied_ok_def split: if_splits)
      then have "a - image_base d \<ge> ucast (copied_size d)" using that True by (simp add: region_def word_less_nat_alt word_le_nat_alt)
      then show ?thesis using t s1 by (auto simp: m_def zero_normalmem_def dest: leD)
    next
      case nG: False
      then show ?thesis using F(8) st t s1 by (simp add: m_def)
    qed
  qed (use F(3,4,7) st t s1 R(2) in \<open>auto simp: plat_desc_ok_def\<close>)
  then show ?thesis using rc by simp
qed

section \<open>Runs\<close>

text \<open>
  The calls of the two worlds in any order, each with any arguments, and what runs between them. The set of
  identifiers is that of the images that were copied to their places.
\<close>

datatype fwu_event =
    Image_Copy u32
  | Image_Auth u32 u32
  | Image_Execute u32
  | Image_Resume
  | Sec_Image_Done
  | Image_Reset u32
  | Worlds_Run

inductive fwu_does :: "'r fwu_env \<Rightarrow> fwu_event \<Rightarrow> 'r fwu_state \<times> u32 set \<Rightarrow> 'r fwu_state \<times> u32 set \<Rightarrow> bool" for env where
  copy: "bl1_fwu_image_copy env iid src bs isz flags s = Ret rc t \<Longrightarrow>
    fwu_does env (Image_Copy iid) (s, G) (t, if rc = 0 then insert iid G else G)"
| auth: "bl1_fwu_image_auth env iid src isz flags s = Ret rc t \<Longrightarrow>
    fwu_does env (Image_Auth iid flags) (s, G) (t, if rc = - EAUTH then G - {iid} else G)"
| execute: "bl1_fwu_image_execute env iid flags s = Ret rh t \<Longrightarrow> fwu_does env (Image_Execute iid) (s, G) (t, G)"
| resume: "bl1_fwu_image_resume p flags s = Ret rh t \<Longrightarrow> fwu_does env Image_Resume (s, G) (t, G)"
| sec_done: "bl1_fwu_sec_image_done flags s = Ret (rc, h) t \<Longrightarrow>
    fwu_does env Sec_Image_Done (s, G) (t, if rc = 0 then G - {sec_exec_image_id s} else G)"
| reset: "bl1_fwu_image_reset iid flags s = Ret rc t \<Longrightarrow>
    fwu_does env (Image_Reset iid) (s, G) (t, if rc = 0 then G - {iid} else G)"
| worlds: "fwu_does env Worlds_Run (s, G) (s\<lparr>fwu_mem := m, el1_live := r, ctx_x0 := x\<rparr>, G)"

text \<open>
  Two conditions on the steps of a run. The software of the worlds does not write the memory of a copied image
  between its authentication and its execution: that memory is not mapped for the normal world, and the secure
  world is trusted with it. And the secure world does not authenticate in place an image whose descriptor still
  holds the number of bytes of an earlier copy: \<open>bl1_fwu_sec_image_done\<close> leaves that number behind, and a
  reset of the image would clear as many bytes, whatever image they belong to by then.
\<close>

definition keeps_images :: "fwu_event \<Rightarrow> 'r fwu_state \<times> u32 set \<Rightarrow> 'r fwu_state \<times> u32 set \<Rightarrow> bool" where
  "keeps_images ev sG tG \<longleftrightarrow> (ev = Worlds_Run \<longrightarrow>
     (\<forall>i\<in>snd sG. \<forall>d. bl1_plat_get_image_desc (fst sG) i = Some d \<and> img_state d = STATE_AUTHENTICATED \<longrightarrow>
        (\<forall>a\<in>region d. fwu_mem (fst tG) a = fwu_mem (fst sG) a)))"

definition no_stale_size :: "fwu_event \<Rightarrow> 'r fwu_state \<times> u32 set \<Rightarrow> bool" where
  "no_stale_size ev sG \<longleftrightarrow> (\<forall>iid flags d. ev = Image_Auth iid flags \<and> GET_SECURITY_STATE flags = SEC_SECURE \<and>
     bl1_plat_get_image_desc (fst sG) iid = Some d \<longrightarrow> copied_size d = 0)"

abbreviation fwu_step :: "'r fwu_env \<Rightarrow> 'r fwu_state \<times> u32 set \<Rightarrow> 'r fwu_state \<times> u32 set \<Rightarrow> bool" where
  "fwu_step env sG tG \<equiv> \<exists>ev. fwu_does env ev sG tG \<and> keeps_images ev sG tG \<and> no_stale_size ev sG"

definition fwu_start :: "u32 \<Rightarrow> 'r fwu_state \<times> u32 set \<Rightarrow> bool" where
  "fwu_start b sG \<longleftrightarrow> (case sG of (s, G) \<Rightarrow> G = {} \<and> loaded s = [] \<and>
     (\<forall>i d. bl1_plat_get_image_desc s i = Some d \<longrightarrow> plat_desc_ok d \<and> copied_size d = 0 \<and>
        (if i = b then img_state d = STATE_EXECUTED \<and> GET_SECURITY_STATE (ep_attr d) = SEC_NON_SECURE else img_state d = STATE_RESET)))"

lemma worlds_inv:
  assumes inv: "fwu_inv env b (s, G)"
    and m: "\<And>i d a. i \<in> G \<Longrightarrow> bl1_plat_get_image_desc s i = Some d \<Longrightarrow> img_state d = STATE_AUTHENTICATED \<Longrightarrow> a \<in> region d \<Longrightarrow> m a = fwu_mem s a"
  shows "fwu_inv env b (s\<lparr>fwu_mem := m, el1_live := r, ctx_x0 := x\<rparr>, G)"
proof -
  have "img_ok env G m b i d" if "bl1_plat_get_image_desc s i = Some d" for i d
    by (rule img_ok_cong [OF fwu_invD(1) [OF inv that]]) (use m that in auto)
  then show ?thesis using inv by (simp add: fwu_inv_def)
qed

lemma fwu_start_inv: "fwu_start b (s, G) \<Longrightarrow> fwu_inv env b (s, G)"
proof -
  assume "fwu_start b (s, G)"
  then have G: "G = {}" "loaded s = []" and d: "\<And>i d. bl1_plat_get_image_desc s i = Some d \<Longrightarrow> plat_desc_ok d \<and> copied_size d = 0 \<and>
      (if i = b then img_state d = STATE_EXECUTED \<and> GET_SECURITY_STATE (ep_attr d) = SEC_NON_SECURE else img_state d = STATE_RESET)"
    by (auto simp: fwu_start_def)
  have "img_ok env {} (fwu_mem s) b i x" if "bl1_plat_get_image_desc s i = Some x" for i x
    using d [OF that] by (auto simp: img_ok_def split: if_splits)
  moreover have "i = b \<or> img_state x = STATE_RESET" if "bl1_plat_get_image_desc s i = Some x" for i x
    using d [OF that] by (auto split: if_splits)
  ultimately show ?thesis using G by (auto simp: fwu_inv_def)
qed

lemma fwu_does_inv:
  assumes "fwu_does env ev sG tG" and keep: "keeps_images ev sG tG" and fresh: "no_stale_size ev sG" and "fwu_inv env b sG"
  shows "fwu_inv env b tG"
  using assms(1)
proof cases
  case copy
  then show ?thesis using assms(4) image_copy_inv by blast
next
  case (auth iid src isz flags s rc t G)
  then have "copied_size d = 0" if "GET_SECURITY_STATE flags = SEC_SECURE" "bl1_plat_get_image_desc s iid = Some d" for d
    using fresh that by (simp add: no_stale_size_def)
  then show ?thesis using auth assms(4) image_auth_inv [of env b s G iid src isz flags rc t] by simp
next
  case execute
  then show ?thesis using assms(4) image_execute_inv by blast
next
  case resume
  then show ?thesis using assms(4) image_resume_inv by blast
next
  case sec_done
  then show ?thesis using assms(4) sec_image_done_inv by blast
next
  case reset
  then show ?thesis using assms(4) image_reset_inv by blast
next
  case (worlds s G x r m)
  then have "m a = fwu_mem s a" if "i \<in> G" "bl1_plat_get_image_desc s i = Some d" "img_state d = STATE_AUTHENTICATED" "a \<in> region d" for i d a
    using keep that by (auto simp: keeps_images_def)
  then show ?thesis using worlds assms(4) worlds_inv [of env b s G m] by simp
qed

interpretation fwu_run: invariant_system "fwu_start b" "fwu_step env" "fwu_inv env b"
  by unfold_locales (metis fwu_start_inv surj_pair, blast intro: fwu_does_inv)

lemma EP_GET_EXE_cases: "EP_GET_EXE a \<noteq> NON_EXECUTABLE \<Longrightarrow> EP_GET_EXE a = EXECUTABLE"
  using and_exp [of a 3] by (simp add: EP_GET_EXE_def split: if_splits)

section \<open>Properties\<close>

text \<open>
  C6. Only authenticated bytes are executed. In every state that a run of firmware update can reach, if the worlds
  never write the memory of a copied image between its authentication and its execution and the
  secure world never authenticates in place an image whose descriptor still holds the size of an earlier copy: when
  the execution of an image that was copied to its place succeeds, the bytes in its memory are bytes that passed
  authentication as that image, the image is a secure executable one of the authenticated state, and the
  return from the call enters the secure world.
\<close>

theorem fwu_execute_authentic:
  assumes "reach (fwu_start b) (\<lambda>x y. \<exists>ev. fwu_does env ev x y \<and> keeps_images ev x y \<and> no_stale_size ev x) (s, G)"
    and "iid \<in> G" "bl1_plat_get_image_desc s iid = Some d"
    and "bl1_fwu_image_execute env iid flags s = Ret (0, h) t"
  shows "authentic env iid (mem_bytes (image_base d) (image_size d) (fwu_mem t)) \<and>
         GET_SECURITY_STATE (ep_attr d) = SEC_SECURE \<and> EP_GET_EXE (ep_attr d) = EXECUTABLE \<and> img_state d = STATE_AUTHENTICATED \<and>
         next_eret t = SEC_SECURE \<and> sec_exec_image_id t = iid"
proof -
  have ok: "copied_ok env (fwu_mem s) iid d"
    by (rule fwu_inv_state(6) [OF fwu_run.reach_inv [OF assms(1)] assms(3,2)])
  have x: "EP_GET_EXE a \<noteq> NON_EXECUTABLE \<Longrightarrow> EP_GET_EXE a = EXECUTABLE" for a
    by (rule EP_GET_EXE_cases)
  show ?thesis
    using assms(3,4) ok x [of "ep_attr d"]
    by (auto simp: bl1_fwu_image_execute_def bl1_prepare_next_image_def copied_ok_def prepared_image_def Let_def cm_set_next_eret_context_def set_desc_def
        cm_el1_sysregs_context_restore_def cm_el1_sysregs_context_save_def split: if_splits)
qed

text \<open>
  C7. The images in memory: in every state a run of firmware update can reach, under the two conditions on its steps (the
  worlds leave authenticated images alone, and no image is authenticated in place with the size of an earlier copy
  in its descriptor), the images copied to their places lie in regions that do not
  overlap and are no larger than the platform allows, an image whose copy is not complete is smaller
  in memory than its announced size, and the table of loaded images holds, without duplicates, exactly the images
  that are not reset, but for the one that drives the update.
\<close>

theorem fwu_images_disjoint:
  assumes "reach (fwu_start b) (\<lambda>x y. \<exists>ev. fwu_does env ev x y \<and> keeps_images ev x y \<and> no_stale_size ev x) (s, G)"
  shows "(\<forall>i \<in> G. \<forall>j \<in> G. \<forall>di dj. bl1_plat_get_image_desc s i = Some di \<and> bl1_plat_get_image_desc s j = Some dj \<and> i \<noteq> j \<longrightarrow>
            region di \<inter> region dj = {}) \<and>
         (\<forall>i \<in> G. \<exists>d. bl1_plat_get_image_desc s i = Some d \<and> copied_size d \<le> image_size d \<and> image_size d \<le> image_max_size d \<and>
            (img_state d = STATE_COPYING \<longleftrightarrow> copied_size d < image_size d)) \<and>
         distinct (loaded s) \<and>
         (\<forall>i. i \<in> set (loaded s) \<longleftrightarrow> i \<noteq> b \<and> (\<exists>d. bl1_plat_get_image_desc s i = Some d \<and> img_state d \<noteq> STATE_RESET))"
proof -
  note inv = fwu_run.reach_inv [OF assms]
  note I = fwu_invD [OF inv]
  have "\<exists>d. bl1_plat_get_image_desc s i = Some d \<and> copied_size d \<le> image_size d \<and> image_size d \<le> image_max_size d \<and>
     (img_state d = STATE_COPYING \<longleftrightarrow> copied_size d < image_size d)" if "i \<in> G" for i
  proof -
    from I(2) [OF that] obtain d where d: "bl1_plat_get_image_desc s i = Some d" by blast
    then show ?thesis using fwu_inv_state(6) [OF inv d \<open>i \<in> G\<close>] by (auto simp: copied_ok_def split: if_splits)
  qed
  moreover have "\<forall>i \<in> G. \<forall>j \<in> G. \<forall>di dj. bl1_plat_get_image_desc s i = Some di \<and> bl1_plat_get_image_desc s j = Some dj \<and> i \<noteq> j \<longrightarrow>
      region di \<inter> region dj = {}"
    using I(5) by simp
  ultimately show ?thesis using I(3) I(4) by simp
qed

text \<open>
  C19. The two worlds take turns: when a secure image is executed from the normal world and, after changing the EL1
  registers, gives the core back, the normal world is returned to with the registers it had and the
  parameter of the secure world; and when the normal world resumes the image, the secure world finds its own
  registers again.
\<close>

theorem fwu_execute_resume:
  assumes "GET_SECURITY_STATE (ep_attr d) = SEC_SECURE" "bl1_plat_get_image_desc s iid = Some d"
    and "bl1_fwu_image_execute env iid SEC_NON_SECURE s = Ret (0, h) t"
  shows "\<exists>u v. bl1_fwu_image_resume p SEC_SECURE (t\<lparr>el1_live := r\<rparr>) = Ret (p, SEC_NON_SECURE) u \<and>
           el1_live u = el1_live s \<and> next_eret u = SEC_NON_SECURE \<and>
           bl1_fwu_image_resume q SEC_NON_SECURE (u\<lparr>el1_live := r2\<rparr>) = Ret (q, SEC_SECURE) v \<and>
           el1_live v = r \<and> next_eret v = SEC_SECURE \<and> el1_saved v SEC_NON_SECURE = r2"
proof -
  have x: "EP_GET_EXE (ep_attr d) = EXECUTABLE" "img_state d = STATE_AUTHENTICATED" "iid \<noteq> INVALID_IMAGE_ID"
    and t: "t = (prepared_image env iid d (cm_el1_sysregs_context_save SEC_NON_SECURE s))\<lparr>sec_exec_image_id := iid\<rparr>"
    using assms by (auto simp: bl1_fwu_image_execute_def bl1_prepare_next_image_def GET_SECURITY_STATE_def intro: EP_GET_EXE_cases split: if_splits)
  have z: "GET_SECURITY_STATE 0 = 0" "GET_SECURITY_STATE 1 = 1" by (simp_all add: GET_SECURITY_STATE_def)
  have D: "bl1_plat_get_image_desc t iid = Some (d\<lparr>img_state := STATE_EXECUTED\<rparr>)" "sec_exec_image_id t = iid"
    and E: "el1_saved t SEC_NON_SECURE = el1_live s"
    using x(3) assms(1) by (auto simp: t prepared_image_def Let_def cm_set_next_eret_context_def set_desc_def
        cm_el1_sysregs_context_restore_def cm_el1_sysregs_context_save_def bl1_plat_get_image_desc_def)
  define u where "u = cm_set_next_eret_context SEC_NON_SECURE (cm_el1_sysregs_context_restore SEC_NON_SECURE
    (cm_el1_sysregs_context_save SEC_SECURE (set_desc iid (d\<lparr>img_state := STATE_INTERRUPTED\<rparr>) (t\<lparr>el1_live := r\<rparr>))))"
  have R: "bl1_fwu_image_resume p SEC_SECURE (t\<lparr>el1_live := r\<rparr>) = Ret (p, SEC_NON_SECURE) u"
    using D x(1) assms(1) by (simp add: bl1_fwu_image_resume_def z u_def)
  have U: "bl1_plat_get_image_desc u iid = Some (d\<lparr>img_state := STATE_INTERRUPTED\<rparr>)" "sec_exec_image_id u = iid"
    "el1_live u = el1_live s" "next_eret u = SEC_NON_SECURE" "el1_saved u SEC_SECURE = r"
    using D(2) E x(3) by (auto simp: u_def cm_set_next_eret_context_def set_desc_def cm_el1_sysregs_context_restore_def
        cm_el1_sysregs_context_save_def bl1_plat_get_image_desc_def)
  show ?thesis using R U x(1) assms(1)
    by (simp add: bl1_fwu_image_resume_def z cm_set_next_eret_context_def set_desc_def cm_el1_sysregs_context_restore_def
        cm_el1_sysregs_context_save_def)
qed

text \<open>
  C32. Resetting an interrupted image: when the secure image that gave the core back is reset from the normal world, the
  record of the last executed image keeps naming it, and a later call to resume it fails an assertion.
\<close>

theorem fwu_reset_interrupted:
  assumes "GET_SECURITY_STATE flags = SEC_SECURE" "bl1_fwu_image_resume p flags s = Ret rh s1"
    and "bl1_fwu_image_reset (sec_exec_image_id s1) SEC_NON_SECURE s1 = Ret 0 s2"
  shows "bl1_fwu_image_resume q SEC_NON_SECURE s2 = Halt"
proof -
  let ?i = "sec_exec_image_id s"
  obtain d where d: "bl1_plat_get_image_desc s ?i = Some d"
    using assms(1,2) by (cases "bl1_plat_get_image_desc s ?i") (auto simp: bl1_fwu_image_resume_def Let_def split: if_splits)
  have ne: "?i \<noteq> INVALID_IMAGE_ID" using d by (metis get_desc_invalid option.distinct(1))
  have s1: "sec_exec_image_id s1 = ?i" "bl1_plat_get_image_desc s1 ?i = Some (d\<lparr>img_state := STATE_INTERRUPTED\<rparr>)"
    using assms(1,2) d ne by (auto simp: bl1_fwu_image_resume_def Let_def cm_set_next_eret_context_def
        cm_el1_sysregs_context_restore_def cm_el1_sysregs_context_save_def split: if_splits)
  have ids: "sec_exec_image_id (snd (bl1_fwu_remove_loaded_id i x)) = sec_exec_image_id x" for i and x :: "'a fwu_state"
    by (simp add: bl1_fwu_remove_loaded_id_def split: option.splits)
  obtain rc1 u where u: "bl1_fwu_remove_loaded_id ?i s1 = (rc1, u)" by fastforce
  have z: "GET_SECURITY_STATE SEC_NON_SECURE = SEC_NON_SECURE" by (simp add: GET_SECURITY_STATE_def)
  define m where "m = (if copied_size d \<noteq> 0 then zero_normalmem (image_base d) (copied_size d) (fwu_mem u) else fwu_mem u)"
  have "s2 = (set_desc ?i (d\<lparr>copied_size := 0, image_size := 0, img_state := STATE_RESET\<rparr>) (u\<lparr>fwu_mem := m\<rparr>))
      \<lparr>auth_img_flags := (auth_img_flags u)(?i := 0)\<rparr>"
    using assms(3) s1 u by (auto simp: bl1_fwu_image_reset_def Let_def z m_def split: if_splits)
  then have "bl1_plat_get_image_desc s2 ?i = Some (d\<lparr>copied_size := 0, image_size := 0, img_state := STATE_RESET\<rparr>)" "sec_exec_image_id s2 = ?i"
    using ne ids [of ?i s1] u s1(1) by simp_all
  then show ?thesis by (simp add: bl1_fwu_image_resume_def z)
qed

text \<open>
  C31. The number of copied bytes outlives the image: when a secure image is done, is next authenticated in place by the
  secure world at any address, and is then reset, the reset clears as many bytes at the image's own base as the
  earlier copy had, whatever was put there in the meantime.
\<close>

theorem fwu_stale_size_clears:
  assumes "bl1_fwu_sec_image_done fl s = Ret (0, h) s1" "bl1_plat_get_image_desc s (sec_exec_image_id s) = Some d" "copied_size d \<noteq> 0"
    and "bl1_plat_get_image_desc s2 (sec_exec_image_id s) = bl1_plat_get_image_desc s1 (sec_exec_image_id s)"
    and "bl1_fwu_image_auth env (sec_exec_image_id s) src isz SEC_SECURE s2 = Ret 0 s3"
    and "bl1_plat_get_image_desc s4 (sec_exec_image_id s) = bl1_plat_get_image_desc s3 (sec_exec_image_id s)"
    and "bl1_fwu_image_reset (sec_exec_image_id s) SEC_NON_SECURE s4 = Ret 0 s5"
  shows "fwu_mem s5 = zero_normalmem (image_base d) (copied_size d) (fwu_mem s4)"
proof -
  let ?i = "sec_exec_image_id s"
  have ne: "?i \<noteq> INVALID_IMAGE_ID" using assms(2) by (metis get_desc_invalid option.distinct(1))
  obtain rc1 u where u: "bl1_fwu_remove_loaded_id ?i s = (rc1, u)" by fastforce
  have "bl1_plat_get_image_desc s1 ?i = Some (d\<lparr>img_state := STATE_RESET\<rparr>)"
    using assms(1,2) ne u by (auto simp: bl1_fwu_sec_image_done_def cm_set_next_eret_context_def cm_el1_sysregs_context_restore_def
        split: if_splits)
  then have s2: "bl1_plat_get_image_desc s2 ?i = Some (d\<lparr>img_state := STATE_RESET\<rparr>)"
    using assms(4) by simp
  have "bl1_plat_get_image_desc s3 ?i = Some (d\<lparr>image_size := isz, img_state := STATE_AUTHENTICATED\<rparr>)"
    using assms(5) s2 ne
    by (auto simp: bl1_fwu_image_auth_def fwu_auth_check_def GET_SECURITY_STATE_def Let_def split: if_splits prod.splits)
  then have s4: "bl1_plat_get_image_desc s4 ?i = Some (d\<lparr>image_size := isz, img_state := STATE_AUTHENTICATED\<rparr>)"
    using assms(6) by simp
  obtain rc2 w where w: "bl1_fwu_remove_loaded_id ?i s4 = (rc2, w)" by fastforce
  then have "fwu_mem w = fwu_mem s4"
    by (auto simp: bl1_fwu_remove_loaded_id_def split: option.splits)
  then show ?thesis
    using assms(3,7) s4 w by (auto simp: bl1_fwu_image_reset_def GET_SECURITY_STATE_def Let_def split: if_splits)
qed

text \<open>
  An image of one byte: the check for overlaps asserts that the last address of a loaded image is past its first.
\<close>

lemma fwu_one_byte_image:
  assumes "bl1_fwu_loaded_ids s = l # ls" "l \<noteq> INVALID_IMAGE_ID" "l \<noteq> iid"
    and "bl1_plat_get_image_desc s l = Some d" "img_state d \<noteq> STATE_RESET" "image_size d = 1"
    and "bl1_plat_get_image_desc s iid = Some e" "image_size e \<noteq> 0"
  shows "bl1_fwu_image_check_overlaps iid s = None"
  using assms by (simp add: bl1_fwu_image_check_overlaps_def)

section \<open>An instance\<close>

text \<open>
  Three descriptors, the image of the normal world and two secure ones of two bytes. One is copied, authenticated and
  executed; in another run, the other is copied beside it.
\<close>

definition fwu_env_ex :: "u64 fwu_env" where
  "fwu_env_ex = \<lparr>auth_mod_verify_img = (\<lambda>i bytes fl. (if bytes = [0xAA, 0xBB] then 0 else 1, fl)),
     bl1_plat_handle_pre_image_load = (\<lambda>_. 0), bl1_plat_handle_post_image_load = (\<lambda>_. 0),
     fwu_addr_map_secure = [\<lparr>mem_base = 0x4000, mem_size = 0x2000\<rparr>], fwu_addr_map_non_secure = [\<lparr>mem_base = 0x80000000, mem_size = 0x1000\<rparr>], fresh_el1 = (\<lambda>_. 0)\<rparr>"

definition fwu_boot_desc :: image_desc where
  "fwu_boot_desc = \<lparr>img_state = STATE_EXECUTED, copied_size = 0, image_base = 0x90000000, image_size = 0, image_max_size = 0x1000, ep_attr = 9\<rparr>"

definition fwu_sec_desc :: image_desc where
  "fwu_sec_desc = \<lparr>img_state = STATE_RESET, copied_size = 0, image_base = 0x4000, image_size = 0, image_max_size = 0x100, ep_attr = 8\<rparr>"

definition fwu_sec2_desc :: image_desc where
  "fwu_sec2_desc = fwu_sec_desc\<lparr>image_base := 0x5000\<rparr>"

definition fwu_s0 :: "u64 fwu_state" where
  "fwu_s0 = \<lparr>image_descs = [1 \<mapsto> fwu_boot_desc, 5 \<mapsto> fwu_sec_desc, 6 \<mapsto> fwu_sec2_desc], bl1_fwu_loaded_ids = [INVALID_IMAGE_ID, INVALID_IMAGE_ID],
     sec_exec_image_id = INVALID_IMAGE_ID, auth_img_flags = (\<lambda>_. 0),
     fwu_mem = (\<lambda>a. if a = 0x80000000 then 0xAA else if a = 0x80000001 then 0xBB else 0),
     el1_live = 7, el1_saved = (\<lambda>_. 0), next_eret = 1, ctx_x0 = (\<lambda>_. 0)\<rparr>"

definition fwu_copied_desc :: image_desc where
  "fwu_copied_desc = fwu_sec_desc\<lparr>image_size := 2, copied_size := 2, img_state := STATE_COPIED\<rparr>"

definition fwu_s1 :: "u64 fwu_state" where
  "fwu_s1 = set_desc 5 fwu_copied_desc
     (fwu_s0\<lparr>bl1_fwu_loaded_ids := [5, INVALID_IMAGE_ID], fwu_mem := memcpy 0x4000 0x80000000 2 (fwu_mem fwu_s0)\<rparr>)"

definition fwu_s2 :: "u64 fwu_state" where
  "fwu_s2 = set_desc 5 (fwu_copied_desc\<lparr>img_state := STATE_AUTHENTICATED\<rparr>) fwu_s1"

definition fwu_s4 :: "u64 fwu_state" where
  "fwu_s4 = set_desc 6 (fwu_copied_desc\<lparr>image_base := 0x5000\<rparr>)
     (fwu_s2\<lparr>bl1_fwu_loaded_ids := [5, 6], fwu_mem := memcpy 0x5000 0x80000000 2 (fwu_mem fwu_s2)\<rparr>)"

lemmas fwu_ex_defs = fwu_env_ex_def fwu_boot_desc_def fwu_sec_desc_def fwu_sec2_desc_def fwu_copied_desc_def GET_SECURITY_STATE_def EP_GET_EXE_def

lemma fwu_s0_start: "fwu_start 1 (fwu_s0, {})"
  by (auto simp: fwu_start_def fwu_s0_def loaded_def bl1_plat_get_image_desc_def plat_desc_ok_def fwu_ex_defs split: if_splits)

lemma fwu_ex_copy: "bl1_fwu_image_copy fwu_env_ex 5 0x80000000 2 2 1 fwu_s0 = Ret 0 fwu_s1"
  by (simp add: bl1_fwu_image_copy_def fwu_copy_block_def bl1_fwu_image_check_overlaps_def bl1_plat_mem_check_def check_uptr_overflow_def
      bl1_fwu_add_loaded_id_def fwu_s1_def fwu_s0_def set_desc_def bl1_plat_get_image_desc_def fwu_ex_defs)

lemma fwu_ex_auth: "bl1_fwu_image_auth fwu_env_ex 5 0 0 1 fwu_s1 = Ret 0 fwu_s2"
proof -
  have "mem_bytes 0x4000 2 (fwu_mem fwu_s1) = [0xAA, 0xBB]"
    by (simp add: mem_bytes_def fwu_s1_def memcpy_def fwu_s0_def upt_rec)
  then show ?thesis
    by (simp add: bl1_fwu_image_auth_def fwu_auth_check_def fwu_s2_def fwu_s1_def fwu_s0_def set_desc_def bl1_plat_get_image_desc_def fwu_ex_defs)
qed

lemma fwu_ex_desc: "bl1_plat_get_image_desc fwu_s2 5 = Some (fwu_copied_desc\<lparr>img_state := STATE_AUTHENTICATED\<rparr>)"
  by (simp add: fwu_s2_def)

lemma fwu_ex_execute: "\<exists>t. bl1_fwu_image_execute fwu_env_ex 5 1 fwu_s2 = Ret (0, 0) t"
  by (simp add: bl1_fwu_image_execute_def bl1_prepare_next_image_def fwu_ex_desc fwu_ex_defs)

lemma fwu_ex_copy2: "bl1_fwu_image_copy fwu_env_ex 6 0x80000000 2 2 1 fwu_s2 = Ret 0 fwu_s4"
  by (simp add: bl1_fwu_image_copy_def fwu_copy_block_def bl1_fwu_image_check_overlaps_def bl1_plat_mem_check_def check_uptr_overflow_def
      bl1_fwu_add_loaded_id_def fwu_s4_def fwu_s2_def fwu_s1_def fwu_s0_def set_desc_def bl1_plat_get_image_desc_def fwu_ex_defs)

lemma fwu_step_calm:
  assumes "fwu_does env ev sG tG" and "ev \<noteq> Worlds_Run" and "\<And>iid flags. ev = Image_Auth iid flags \<Longrightarrow> GET_SECURITY_STATE flags \<noteq> SEC_SECURE"
  shows "fwu_step env sG tG"
  using assms by (intro exI [of _ ev]) (auto simp: keeps_images_def no_stale_size_def)

lemma fwu_ex_reach: "reach (fwu_start 1) (fwu_step fwu_env_ex) (fwu_s2, {5})"
proof -
  have "fwu_step fwu_env_ex (fwu_s0, {}) (fwu_s1, {5})"
    using fwu_does.copy [OF fwu_ex_copy, of "{}"] by (intro fwu_step_calm [where ev = "Image_Copy 5"]) simp_all
  then have r: "reach (fwu_start 1) (fwu_step fwu_env_ex) (fwu_s1, {5})"
    by (rule reach_step [OF reach_init [of "fwu_start 1", OF fwu_s0_start]])
  have "fwu_step fwu_env_ex (fwu_s1, {5}) (fwu_s2, {5})"
    using fwu_does.auth [OF fwu_ex_auth, of "{5}"] by (intro fwu_step_calm [where ev = "Image_Auth 5 1"]) (simp_all add: GET_SECURITY_STATE_def)
  then show ?thesis by (rule reach_step [OF r])
qed

lemma fwu_ex_reach2: "reach (fwu_start 1) (fwu_step fwu_env_ex) (fwu_s4, {6, 5})"
proof -
  have "fwu_step fwu_env_ex (fwu_s2, {5}) (fwu_s4, {6, 5})"
    using fwu_does.copy [OF fwu_ex_copy2, of "{5}"] by (intro fwu_step_calm [where ev = "Image_Copy 6"]) simp_all
  then show ?thesis by (rule reach_step [OF fwu_ex_reach])
qed

theorem fwu_execute_authentic_witness:
  "\<exists>t. bl1_fwu_image_execute fwu_env_ex 5 1 fwu_s2 = Ret (0, 0) t \<and> authentic fwu_env_ex 5 (mem_bytes 0x4000 2 (fwu_mem t))"
proof -
  obtain t where t: "bl1_fwu_image_execute fwu_env_ex 5 1 fwu_s2 = Ret (0, 0) t" using fwu_ex_execute by blast
  show ?thesis using fwu_execute_authentic [OF fwu_ex_reach _ fwu_ex_desc t] t
    by (auto simp: fwu_copied_desc_def fwu_sec_desc_def)
qed

theorem fwu_images_disjoint_witness:
  "\<exists>d e. bl1_plat_get_image_desc fwu_s4 5 = Some d \<and> bl1_plat_get_image_desc fwu_s4 6 = Some e \<and> image_size d = 2 \<and> image_size e = 2 \<and>
     region d \<inter> region e = {} \<and> reach (fwu_start 1) (fwu_step fwu_env_ex) (fwu_s4, {6, 5}) \<and> distinct (loaded fwu_s4)"
proof -
  have "bl1_plat_get_image_desc fwu_s4 5 = Some (fwu_copied_desc\<lparr>img_state := STATE_AUTHENTICATED\<rparr>)"
    "bl1_plat_get_image_desc fwu_s4 6 = Some (fwu_copied_desc\<lparr>image_base := 0x5000\<rparr>)"
    by (simp_all add: fwu_s4_def fwu_ex_desc)
  then show ?thesis
    using fwu_images_disjoint [OF fwu_ex_reach2] fwu_ex_reach2 by (simp add: fwu_copied_desc_def)
qed

theorem fwu_execute_resume_witness:
  "\<exists>t u. bl1_fwu_image_execute fwu_env_ex 5 1 fwu_s2 = Ret (0, 0) t \<and>
     bl1_fwu_image_resume 3 0 (t\<lparr>el1_live := 9\<rparr>) = Ret (3, 1) u \<and> el1_live u = 7"
proof -
  obtain t where t: "bl1_fwu_image_execute fwu_env_ex 5 1 fwu_s2 = Ret (0, 0) t" using fwu_ex_execute by blast
  have l: "el1_live fwu_s2 = 7" by (simp add: fwu_s2_def fwu_s1_def fwu_s0_def set_desc_def)
  have "GET_SECURITY_STATE (ep_attr (fwu_copied_desc\<lparr>img_state := STATE_AUTHENTICATED\<rparr>)) = 0" by (simp add: fwu_ex_defs)
  from fwu_execute_resume [OF this fwu_ex_desc t, of 3 9 0 0] show ?thesis using t l by auto
qed

definition fwu_s3 :: "u64 fwu_state" where
  "fwu_s3 = (set_desc 5 (fwu_copied_desc\<lparr>img_state := STATE_EXECUTED\<rparr>) fwu_s1)\<lparr>sec_exec_image_id := 5\<rparr>"

theorem fwu_reset_interrupted_witness:
  "\<exists>s1 s2. bl1_fwu_image_resume 3 0 fwu_s3 = Ret (3, 1) s1 \<and> bl1_fwu_image_reset 5 1 s1 = Ret 0 s2 \<and>
     bl1_fwu_image_resume 4 1 s2 = Halt"
proof -
  define s1 where "s1 = cm_set_next_eret_context 1 (cm_el1_sysregs_context_restore 1 (cm_el1_sysregs_context_save 0
    (set_desc 5 (fwu_copied_desc\<lparr>img_state := STATE_INTERRUPTED\<rparr>) fwu_s3)))"
  have r: "bl1_fwu_image_resume 3 0 fwu_s3 = Ret (3, 1) s1"
    by (simp add: bl1_fwu_image_resume_def s1_def fwu_s3_def fwu_ex_defs)
  have d: "bl1_plat_get_image_desc s1 5 = Some (fwu_copied_desc\<lparr>img_state := STATE_INTERRUPTED\<rparr>)" "sec_exec_image_id s1 = 5"
    "bl1_fwu_loaded_ids s1 = [5, INVALID_IMAGE_ID]"
    by (simp_all add: s1_def fwu_s3_def fwu_s1_def cm_set_next_eret_context_def cm_el1_sysregs_context_restore_def cm_el1_sysregs_context_save_def)
  have "\<exists>s2. bl1_fwu_image_reset 5 1 s1 = Ret 0 s2"
    by (simp add: bl1_fwu_image_reset_def bl1_fwu_remove_loaded_id_def d fwu_ex_defs)
  then obtain s2 where s2: "bl1_fwu_image_reset 5 1 s1 = Ret 0 s2" by blast
  have "bl1_fwu_image_resume 4 1 s2 = Halt"
    by (rule fwu_reset_interrupted [OF _ r]) (use s2 d(2) in \<open>simp_all add: GET_SECURITY_STATE_def\<close>)
  then show ?thesis using r s2 by blast
qed

theorem fwu_stale_size_clears_witness:
  "\<exists>s1 s2 s3 s5. bl1_fwu_sec_image_done 0 fwu_s3 = Ret (0, 1) s1 \<and>
     bl1_plat_get_image_desc s2 5 = bl1_plat_get_image_desc s1 5 \<and> bl1_fwu_image_auth fwu_env_ex 5 0x5000 2 0 s2 = Ret 0 s3 \<and>
     bl1_fwu_image_reset 5 1 s3 = Ret 0 s5 \<and> fwu_mem s3 0x4000 = 0xAA \<and> fwu_mem s5 0x4000 = 0"
proof -
  let ?m = "\<lambda>a::u64. if a = 0x4000 \<or> a = 0x5000 then 0xAA else if a = 0x4001 \<or> a = 0x5001 then 0xBB else 0 :: u8"
  have i: "sec_exec_image_id fwu_s3 = 5" and d: "bl1_plat_get_image_desc fwu_s3 5 = Some (fwu_copied_desc\<lparr>img_state := STATE_EXECUTED\<rparr>)"
    and l: "bl1_fwu_loaded_ids fwu_s3 = [5, INVALID_IMAGE_ID]"
    by (simp_all add: fwu_s3_def fwu_s1_def)
  obtain s1 where s1: "bl1_fwu_sec_image_done 0 fwu_s3 = Ret (0, 1) s1"
    and d1: "bl1_plat_get_image_desc s1 5 = Some (fwu_copied_desc\<lparr>img_state := STATE_RESET\<rparr>)" "bl1_fwu_loaded_ids s1 = [INVALID_IMAGE_ID, INVALID_IMAGE_ID]"
    by (simp add: bl1_fwu_sec_image_done_def bl1_fwu_remove_loaded_id_def i d l cm_set_next_eret_context_def
        cm_el1_sysregs_context_restore_def fwu_ex_defs)
  define s2 where "s2 = s1\<lparr>fwu_mem := ?m\<rparr>"
  have b: "mem_bytes 0x5000 2 ?m = [0xAA, 0xBB]"
    by (simp add: mem_bytes_def upt_rec)
  define d3 where "d3 = fwu_copied_desc\<lparr>img_state := STATE_AUTHENTICATED\<rparr>"
  obtain s3 where s3: "bl1_fwu_image_auth fwu_env_ex 5 0x5000 2 0 s2 = Ret 0 s3"
    and d3: "bl1_plat_get_image_desc s3 5 = Some d3" "bl1_fwu_loaded_ids s3 = [5, INVALID_IMAGE_ID]" "fwu_mem s3 = ?m"
    using b by (simp add: bl1_fwu_image_auth_def fwu_auth_check_def s2_def d1 bl1_plat_mem_check_def check_uptr_overflow_def
        bl1_fwu_add_loaded_id_def d3_def fwu_ex_defs)
  obtain s5 where s5: "bl1_fwu_image_reset 5 1 s3 = Ret 0 s5"
    by (simp add: bl1_fwu_image_reset_def bl1_fwu_remove_loaded_id_def d3 d3_def fwu_ex_defs)
  have "fwu_mem s5 = zero_normalmem (image_base fwu_copied_desc) (copied_size fwu_copied_desc) (fwu_mem s3)"
    using fwu_stale_size_clears [of 0 fwu_s3 1 s1 "fwu_copied_desc\<lparr>img_state := STATE_EXECUTED\<rparr>" s2 fwu_env_ex "0x5000" 2 s3 s3 s5]
      s1 d s3 s5 by (simp add: i s2_def fwu_copied_desc_def fwu_sec_desc_def)
  then have "fwu_mem s5 0x4000 = 0"
    by (simp add: zero_normalmem_def fwu_copied_desc_def fwu_sec_desc_def)
  moreover have "fwu_mem s3 0x4000 = 0xAA" "bl1_plat_get_image_desc s2 5 = bl1_plat_get_image_desc s1 5"
    by (simp_all add: d3 s2_def)
  ultimately show ?thesis
    using s1 s3 s5 by blast
qed

end
