(* ===== verification/Bakery_Lock.thy ===== *)
theory Bakery_Lock
  imports Prelude
begin

unbundle bit_operations_syntax

text \<open>
  The bakery lock of \<open>lib/locks/bakery/bakery_lock_coherent.c\<close> with the helpers of
  \<open>include/lib/bakery_lock.h\<close>: the lock PSCI uses to serialise power-domain state
  coordination. Every access to the shared \<open>lock_data\<close> array is one step, and the steps of
  different cores interleave freely. The lock memory is taken as coherent and ordered, which is what
  the source requires of it, so barriers and events (\<open>dmbish\<close>, \<open>dsb\<close>, \<open>wfe\<close>,
  \<open>sev\<close>) have no effect on the state. Shown: mutual exclusion, absence of deadlock, that no
  assertion of the lock fires, that the lock refines an abstract mutex, and what happens when a
  ticket leaves its 15-bit field.
\<close>

section \<open>Helpers of the lock word\<close>

definition bakery_get_priority :: "u32 \<Rightarrow> u32 \<Rightarrow> u32" where
  "bakery_get_priority t pos = (push_bit 8 t) OR pos"

definition CHOOSING_TICKET :: u32 where "CHOOSING_TICKET = 1"
definition CHOSEN_TICKET :: u32 where "CHOSEN_TICKET = 0"

definition bakery_is_choosing :: "u32 \<Rightarrow> bool" where
  "bakery_is_choosing info \<longleftrightarrow> info AND 1 = CHOOSING_TICKET"

definition bakery_ticket_number :: "u32 \<Rightarrow> u32" where
  "bakery_ticket_number info = drop_bit 1 info AND 0x7FFF"

definition make_bakery_data :: "u32 \<Rightarrow> u32 \<Rightarrow> u16" where
  "make_bakery_data choosing num = ucast ((choosing AND 1) OR push_bit 1 num)"

section \<open>The lock as a system of interleaved cores\<close>

text \<open>
  Where a core stands between two accesses to shared memory, with the local variables that are live
  there: outside the lock; in the ticket scan of \<open>bakery_get_ticket\<close> (\<open>they\<close>,
  \<open>my_ticket\<close>); in the loop of \<open>bakery_lock_get\<close> about to look at \<open>they\<close>;
  in its inner loop waiting for \<open>their_ticket\<close> to change; inside the critical section.
\<close>

datatype bakery_pc =
    Outside
  | Choosing nat u32
  | Comparing u32 nat
  | Waiting u32 nat u32
  | Holding u32

record bakery_lock =
  lock_data :: "nat \<Rightarrow> u16"
  pc :: "nat \<Rightarrow> bakery_pc"

definition goto :: "nat \<Rightarrow> bakery_pc \<Rightarrow> bakery_lock \<Rightarrow> bakery_lock" where
  "goto me p s = s\<lparr>pc := (pc s)(me := p)\<rparr>"

definition write_lock_data :: "nat \<Rightarrow> u16 \<Rightarrow> bakery_lock \<Rightarrow> bakery_lock" where
  "write_lock_data me d s = s\<lparr>lock_data := (lock_data s)(me := d)\<rparr>"

text \<open>\<open>n\<close> is \<open>BAKERY_LOCK_MAX_CPUS\<close>; a failed assertion is \<open>None\<close>.\<close>

definition bakery_get_ticket_enter :: "nat \<Rightarrow> bakery_lock \<Rightarrow> bakery_lock option" where
  "bakery_get_ticket_enter me s =
     (if bakery_ticket_number (ucast (lock_data s me)) = 0
      then Some (goto me (Choosing 0 0) (write_lock_data me (make_bakery_data CHOOSING_TICKET 0) s))
      else None)"

definition bakery_get_ticket_scan ::
  "nat \<Rightarrow> nat \<Rightarrow> nat \<Rightarrow> u32 \<Rightarrow> bakery_lock \<Rightarrow> bakery_lock" where
  "bakery_get_ticket_scan n me they my_ticket s =
     (if they < n
      then let their_ticket = bakery_ticket_number (ucast (lock_data s they))
           in goto me (Choosing (Suc they)
                (if their_ticket > my_ticket then their_ticket else my_ticket)) s
      else goto me (Comparing (my_ticket + 1) 0)
             (write_lock_data me (make_bakery_data CHOSEN_TICKET (my_ticket + 1)) s))"

definition bakery_lock_get_compare ::
  "nat \<Rightarrow> nat \<Rightarrow> u32 \<Rightarrow> nat \<Rightarrow> bakery_lock \<Rightarrow> bakery_lock" where
  "bakery_lock_get_compare n me my_ticket they s =
     (if they < n
      then if they = me then goto me (Comparing my_ticket (Suc they)) s
           else let their_bakery_data = ucast (lock_data s they) :: u32;
                    their_ticket = bakery_ticket_number their_bakery_data
                in if bakery_is_choosing their_bakery_data then s
                   else if their_ticket \<noteq> 0 \<and>
                           bakery_get_priority their_ticket (of_nat they)
                             < bakery_get_priority my_ticket (of_nat me)
                   then goto me (Waiting my_ticket they their_ticket) s
                   else goto me (Comparing my_ticket (Suc they)) s
      else goto me (Holding my_ticket) s)"

definition bakery_lock_get_wait ::
  "nat \<Rightarrow> u32 \<Rightarrow> nat \<Rightarrow> u32 \<Rightarrow> bakery_lock \<Rightarrow> bakery_lock" where
  "bakery_lock_get_wait me my_ticket they their_ticket s =
     (if their_ticket = bakery_ticket_number (ucast (lock_data s they)) then s
      else goto me (Comparing my_ticket (Suc they)) s)"

definition bakery_lock_release :: "nat \<Rightarrow> bakery_lock \<Rightarrow> bakery_lock option" where
  "bakery_lock_release me s =
     (if bakery_ticket_number (ucast (lock_data s me)) \<noteq> 0
      then Some (goto me Outside (write_lock_data me 0 s))
      else None)"

text \<open>
  One step of core \<open>me\<close>: the core outside calls \<open>bakery_lock_get\<close>, whose entry assertion
  is \<open>me < n\<close>, and the holder calls \<open>bakery_lock_release\<close>.
\<close>

definition bakery_step :: "nat \<Rightarrow> nat \<Rightarrow> bakery_lock \<Rightarrow> bakery_lock option" where
  "bakery_step n me s =
     (if me < n
      then case pc s me of
             Outside \<Rightarrow> bakery_get_ticket_enter me s
           | Choosing they t \<Rightarrow> Some (bakery_get_ticket_scan n me they t s)
           | Comparing t they \<Rightarrow> Some (bakery_lock_get_compare n me t they s)
           | Waiting t they w \<Rightarrow> Some (bakery_lock_get_wait me t they w s)
           | Holding t \<Rightarrow> bakery_lock_release me s
      else None)"

definition bakery_init :: "bakery_lock \<Rightarrow> bool" where
  "bakery_init s \<longleftrightarrow> lock_data s = (\<lambda>_. 0) \<and> pc s = (\<lambda>_. Outside)"

text \<open>
  The ticket is kept in 15 bits of the lock word. A core that saw a ticket of \<open>0x7FFF\<close> is
  about to take one that does not fit.
\<close>

definition ticket_fits :: "bakery_pc \<Rightarrow> bool" where
  "ticket_fits p \<longleftrightarrow> (case p of Choosing _ t \<Rightarrow> t < 0x7FFF | _ \<Rightarrow> True)"

inductive bakery_next :: "nat \<Rightarrow> bakery_lock \<Rightarrow> bakery_lock \<Rightarrow> bool" for n where
  bakery_next: "bakery_step n me s = Some t \<Longrightarrow> bakery_next n s t"

inductive bakery_next_fits :: "nat \<Rightarrow> bakery_lock \<Rightarrow> bakery_lock \<Rightarrow> bool" for n where
  bakery_next_fits: "bakery_step n me s = Some t \<Longrightarrow> ticket_fits (pc t me) \<Longrightarrow> bakery_next_fits n s t"

section \<open>Encoding of the lock word\<close>

lemma mask_15: "(0x7FFF :: u32) = mask 15"
  by (simp add: mask_eq_exp_minus_1)

lemma ticket_of_make [simp]:
  assumes "t < 0x8000"
  shows "bakery_ticket_number (ucast (make_bakery_data c t)) = t"
  unfolding bakery_ticket_number_def make_bakery_data_def mask_15
  using assms
  by (intro bit_word_eqI)
    (auto simp: bit_simps bit_double_iff mult.commute[of t 2] dest: bit_less_exp[where n = 15, simplified])

lemma is_choosing_bit: "bakery_is_choosing info \<longleftrightarrow> bit info 0"
  by (simp add: bakery_is_choosing_def CHOOSING_TICKET_def and_one_eq mod_2_eq_odd bit_0)

lemma choosing_of_make [simp]:
  "bakery_is_choosing (ucast (make_bakery_data CHOOSING_TICKET t))"
  "\<not> bakery_is_choosing (ucast (make_bakery_data CHOSEN_TICKET t))"
  unfolding is_choosing_bit make_bakery_data_def CHOOSING_TICKET_def CHOSEN_TICKET_def
  by (simp_all add: bit_simps bit_double_iff mult.commute[of t 2] del: bit_0)

lemma lock_word_0 [simp]:
  "bakery_ticket_number 0 = 0"
  "\<not> bakery_is_choosing 0"
  by (simp_all add: bakery_ticket_number_def bakery_is_choosing_def CHOOSING_TICKET_def)

lemma unat_priority:
  assumes "t < 0x8000" and "i < 256"
  shows "unat (bakery_get_priority t (of_nat i)) = unat t * 256 + i"
proof -
  have i: "(of_nat i :: u32) < 256"
    using assms(2) by (simp add: word_less_nat_alt unat_of_nat)
  have "push_bit 8 t AND of_nat i = (0 :: u32)"
    by (intro bit_word_eqI) (use i in \<open>auto simp: bit_simps dest: bit_less_exp[where n = 8, simplified]\<close>)
  then have "unat (bakery_get_priority t (of_nat i)) = unat (push_bit 8 t) + unat (of_nat i :: u32)"
    unfolding bakery_get_priority_def by (rule unat_or_disjoint)
  also have "unat (push_bit 8 t) = unat t * 256"
    using assms(1) by (simp add: push_bit_eq_mult word_less_nat_alt unat_word_ariths)
  also have "unat (of_nat i :: u32) = i"
    using assms(2) by (simp add: unat_of_nat)
  finally show ?thesis .
qed

lemma priority_less_iff:
  assumes "t < 0x8000" and "u < 0x8000" and "i < 256" and "j < 256"
  shows "bakery_get_priority t (of_nat i) < bakery_get_priority u (of_nat j)
    \<longleftrightarrow> t < u \<or> t = u \<and> i < j"
proof -
  have "bakery_get_priority t (of_nat i) < bakery_get_priority u (of_nat j)
      \<longleftrightarrow> unat t * 256 + i < unat u * 256 + j"
    using assms by (simp add: word_less_nat_alt unat_priority)
  also have "\<dots> \<longleftrightarrow> unat t < unat u \<or> unat t = unat u \<and> i < j"
    using assms(3,4) by linarith
  finally show ?thesis
    by (simp add: word_less_nat_alt word_unat_eq_iff)
qed

section \<open>The invariant\<close>

text \<open>
  The ticket a core has published (0 when it has none), and the lock word that goes with its
  control point.
\<close>

definition ticket_of :: "bakery_pc \<Rightarrow> u32" where
  "ticket_of p = (case p of Outside \<Rightarrow> 0 | Choosing _ _ \<Rightarrow> 0 | Comparing t _ \<Rightarrow> t
     | Waiting t _ _ \<Rightarrow> t | Holding t \<Rightarrow> t)"

definition lock_word_of :: "bakery_pc \<Rightarrow> u16" where
  "lock_word_of p = (case p of Outside \<Rightarrow> 0 | Choosing _ _ \<Rightarrow> make_bakery_data CHOOSING_TICKET 0
     | Comparing t _ \<Rightarrow> make_bakery_data CHOSEN_TICKET t
     | Waiting t _ _ \<Rightarrow> make_bakery_data CHOSEN_TICKET t
     | Holding t \<Rightarrow> make_bakery_data CHOSEN_TICKET t)"

definition pc_ok :: "nat \<Rightarrow> nat \<Rightarrow> bakery_pc \<Rightarrow> bool" where
  "pc_ok n me p = (case p of
       Outside \<Rightarrow> True
     | Choosing they t \<Rightarrow> they \<le> n \<and> t < 0x7FFF
     | Comparing t they \<Rightarrow> they \<le> n \<and> 0 < t \<and> t < 0x8000
     | Waiting t they w \<Rightarrow> they < n \<and> they \<noteq> me \<and> 0 < t \<and> t < 0x8000 \<and> w \<noteq> 0 \<and>
         bakery_get_priority w (of_nat they) < bakery_get_priority t (of_nat me)
     | Holding t \<Rightarrow> 0 < t \<and> t < 0x8000)"

text \<open>
  Core \<open>i\<close> (at \<open>p\<close>) comes after core \<open>j\<close> holding ticket \<open>t\<close>: it is out, or it
  is scanning and has taken \<open>t\<close> into account as soon as it has looked at \<open>j\<close>, or its
  ticket has the lower priority.
\<close>

definition after_ticket :: "u32 \<Rightarrow> nat \<Rightarrow> bakery_pc \<Rightarrow> nat \<Rightarrow> bool" where
  "after_ticket t j p i = (case p of
       Outside \<Rightarrow> True
     | Choosing they u \<Rightarrow> j < they \<longrightarrow> t \<le> u
     | _ \<Rightarrow> bakery_get_priority t (of_nat j) < bakery_get_priority (ticket_of p) (of_nat i))"

definition pair_ok :: "bakery_pc \<Rightarrow> nat \<Rightarrow> bakery_pc \<Rightarrow> nat \<Rightarrow> bool" where
  "pair_ok q j p i = (case q of
       Comparing t they \<Rightarrow> i < they \<longrightarrow> after_ticket t j p i
     | Waiting t they w \<Rightarrow> (i < they \<longrightarrow> after_ticket t j p i) \<and>
         (i = they \<longrightarrow> ticket_of p = w \<or> after_ticket t j p i)
     | Holding t \<Rightarrow> after_ticket t j p i
     | _ \<Rightarrow> True)"

definition bakery_inv :: "nat \<Rightarrow> bakery_lock \<Rightarrow> bool" where
  "bakery_inv n s \<longleftrightarrow>
     (\<forall>i<n. lock_data s i = lock_word_of (pc s i) \<and> pc_ok n i (pc s i)) \<and>
     (\<forall>i<n. \<forall>j<n. i \<noteq> j \<longrightarrow> pair_ok (pc s j) j (pc s i) i)"

lemma bakery_invD:
  assumes "bakery_inv n s" and "i < n"
  shows "lock_data s i = lock_word_of (pc s i)" and "pc_ok n i (pc s i)"
    and "\<lbrakk>j < n; i \<noteq> j\<rbrakk> \<Longrightarrow> pair_ok (pc s j) j (pc s i) i"
    and "\<lbrakk>j < n; i \<noteq> j\<rbrakk> \<Longrightarrow> pair_ok (pc s i) i (pc s j) j"
  using assms by (auto simp: bakery_inv_def)

lemma ticket_lock_word [simp]:
  "pc_ok n i p \<Longrightarrow> bakery_ticket_number (ucast (lock_word_of p)) = ticket_of p"
  by (cases p) (auto simp: lock_word_of_def ticket_of_def pc_ok_def)

lemma choosing_lock_word [simp]:
  "bakery_is_choosing (ucast (lock_word_of p)) \<longleftrightarrow> (\<exists>they t. p = Choosing they t)"
  by (cases p) (auto simp: lock_word_of_def)

lemma ticket_of_bound: "pc_ok n i p \<Longrightarrow> ticket_of p < 0x8000"
  by (cases p) (auto simp: pc_ok_def ticket_of_def)

text \<open>A step moves one core and rewrites its own lock word: what is left to show of it.\<close>

lemma bakery_inv_move:
  assumes "bakery_inv n s" and "me < n" and "pc_ok n me p"
    and "\<And>i. \<lbrakk>i < n; i \<noteq> me\<rbrakk> \<Longrightarrow> pair_ok p me (pc s i) i"
    and "\<And>j. \<lbrakk>j < n; j \<noteq> me\<rbrakk> \<Longrightarrow> pair_ok (pc s j) j p me"
  shows "bakery_inv n (goto me p (write_lock_data me (lock_word_of p) s))"
  using assms by (auto simp: bakery_inv_def goto_def write_lock_data_def)

lemma goto_same_word:
  assumes "bakery_inv n s" and "me < n" and "lock_word_of p = lock_word_of (pc s me)"
  shows "goto me p s = goto me p (write_lock_data me (lock_word_of p) s)"
proof -
  have "(lock_data s)(me := lock_word_of p) = lock_data s"
    using bakery_invD(1)[OF assms(1,2)] assms(3) by (simp add: fun_upd_idem)
  then show ?thesis by (simp add: write_lock_data_def goto_def)
qed

text \<open>Other cores see of a core only whether it scans, and which ticket it has published.\<close>

lemma after_ticket_ticketed:
  assumes "ticket_of p = ticket_of q" and "0 < ticket_of p"
  shows "after_ticket t j p i = after_ticket t j q i"
  using assms by (cases p; cases q) (auto simp: after_ticket_def ticket_of_def)

lemma pair_ok_ticketed:
  assumes "ticket_of p = ticket_of q" and "0 < ticket_of p"
  shows "pair_ok r j p i = pair_ok r j q i"
  using after_ticket_ticketed[OF assms] assms(1) by (simp add: pair_ok_def split: bakery_pc.splits)

lemma bakery_init_inv: "bakery_init s \<Longrightarrow> bakery_inv n s"
  by (simp add: bakery_init_def bakery_inv_def pc_ok_def pair_ok_def lock_word_of_def)

lemma enter_inv:
  assumes inv: "bakery_inv n s" and me: "me < n" and out: "pc s me = Outside"
    and st: "bakery_get_ticket_enter me s = Some t"
  shows "bakery_inv n t"
proof -
  have "t = goto me (Choosing 0 0) (write_lock_data me (lock_word_of (Choosing 0 0)) s)"
    using st by (simp add: bakery_get_ticket_enter_def lock_word_of_def split: if_splits)
  moreover have "bakery_inv n (goto me (Choosing 0 0) (write_lock_data me (lock_word_of (Choosing 0 0)) s))"
  proof (rule bakery_inv_move[OF inv me])
    fix j assume "j < n" "j \<noteq> me"
    then show "pair_ok (pc s j) j (Choosing 0 0) me"
      by (simp add: pair_ok_def after_ticket_def split: bakery_pc.splits)
  qed (simp_all add: pc_ok_def pair_ok_def)
  ultimately show ?thesis by simp
qed

lemma after_ticket_scan:
  assumes "after_ticket t j (Choosing they u) i"
    and "v = (if w > u then w else u)" and "they = j \<Longrightarrow> w = t"
  shows "after_ticket t j (Choosing (Suc they) v) i"
  using assms by (auto simp: after_ticket_def less_Suc_eq)

lemma after_ticket_chosen:
  assumes "after_ticket t j (Choosing n u) i" and "j < n" and "i < n" and "n \<le> 256"
    and "t < 0x8000" and "u < 0x7FFF"
  shows "after_ticket t j (Comparing (u + 1) k) i"
proof -
  have "t \<le> u"
    using assms(1,2) by (simp add: after_ticket_def)
  moreover have "u < u + 1" and "u + 1 < 0x8000"
    using assms(6) by (simp_all add: word_less_nat_alt unat_word_ariths)
  ultimately have "t < u + 1" and "u + 1 < 0x8000"
    by (auto intro: order.strict_trans1)
  then show ?thesis
    using assms(2-5) by (simp add: after_ticket_def ticket_of_def priority_less_iff)
qed

text \<open>What \<open>me\<close> scanning means for the others, whichever its point of the scan.\<close>

lemma pair_ok_scan_mono:
  assumes "pair_ok q j (Choosing they u) i" and "pc_ok n j q"
    and "\<And>t. \<lbrakk>ticket_of q = t; after_ticket t j (Choosing they u) i\<rbrakk> \<Longrightarrow> after_ticket t j p i"
  shows "pair_ok q j p i"
  using assms by (auto simp: pair_ok_def pc_ok_def ticket_of_def split: bakery_pc.splits)

lemma scan_inv:
  assumes inv: "bakery_inv n s" and me: "me < n" and n: "n \<le> 256"
    and p: "pc s me = Choosing they u"
    and fits: "ticket_fits (pc (bakery_get_ticket_scan n me they u s) me)"
  shows "bakery_inv n (bakery_get_ticket_scan n me they u s)"
proof -
  have bound: "they \<le> n" "u < 0x7FFF"
    using bakery_invD(2)[OF inv me] by (simp_all add: p pc_ok_def)
  show ?thesis
  proof (cases "they < n")
    case True
    define w where "w = bakery_ticket_number (ucast (lock_data s they))"
    define v where "v = (if w > u then w else u)"
    have w: "w = ticket_of (pc s they)"
      using bakery_invD(1,2)[OF inv True] by (simp add: w_def)
    have eq: "bakery_get_ticket_scan n me they u s = goto me (Choosing (Suc they) v) s"
      using True by (simp add: bakery_get_ticket_scan_def v_def w_def Let_def)
    have v: "v < 0x7FFF"
      using fits eq by (simp add: goto_def ticket_fits_def)
    have "bakery_inv n (goto me (Choosing (Suc they) v)
        (write_lock_data me (lock_word_of (Choosing (Suc they) v)) s))"
    proof (rule bakery_inv_move[OF inv me])
      show "pc_ok n me (Choosing (Suc they) v)"
        using True v by (simp add: pc_ok_def)
      fix j assume j: "j < n" "j \<noteq> me"
      have "pair_ok (pc s j) j (Choosing they u) me"
        using bakery_invD(4)[OF inv j(1) me] j p by simp
      then show "pair_ok (pc s j) j (Choosing (Suc they) v) me"
        using bakery_invD(2)[OF inv j(1)]
        by (rule pair_ok_scan_mono) (auto intro: after_ticket_scan[OF _ v_def] simp: w)
    qed (simp add: pair_ok_def)
    then show ?thesis
      unfolding eq using goto_same_word[OF inv me, of "Choosing (Suc they) v"]
      by (simp add: p lock_word_of_def)
  next
    case False
    with bound have they: "they = n" by simp
    have eq: "bakery_get_ticket_scan n me they u s = goto me (Comparing (u + 1) 0)
        (write_lock_data me (lock_word_of (Comparing (u + 1) 0)) s)"
      using they by (simp add: bakery_get_ticket_scan_def lock_word_of_def)
    have u1: "0 < u + 1" "u + 1 < 0x8000"
      using bound(2) by (simp_all add: word_less_nat_alt unat_word_ariths)
    show ?thesis
      unfolding eq
    proof (rule bakery_inv_move[OF inv me])
      show "pc_ok n me (Comparing (u + 1) 0)"
        using u1 by (simp add: pc_ok_def)
      fix j assume j: "j < n" "j \<noteq> me"
      have "pair_ok (pc s j) j (Choosing n u) me"
        using bakery_invD(4)[OF inv j(1) me] j p they by simp
      then show "pair_ok (pc s j) j (Comparing (u + 1) 0) me"
        using bakery_invD(2)[OF inv j(1)] j me n bound(2)
        by (rule_tac pair_ok_scan_mono) (auto intro!: after_ticket_chosen dest: ticket_of_bound)
    qed (simp add: pair_ok_def)
  qed
qed

text \<open>A core that keeps its ticket, seen from the others, does not move.\<close>

lemma ticketed_move_inv:
  assumes inv: "bakery_inv n s" and me: "me < n"
    and same: "ticket_of p = ticket_of (pc s me)" "0 < ticket_of p"
    and ok: "pc_ok n me p"
    and own: "\<And>i. \<lbrakk>i < n; i \<noteq> me\<rbrakk> \<Longrightarrow> pair_ok p me (pc s i) i"
  shows "bakery_inv n (goto me p s)"
proof -
  have "lock_word_of p = lock_word_of (pc s me)"
    using same by (cases p; cases "pc s me") (auto simp: ticket_of_def lock_word_of_def)
  moreover have "bakery_inv n (goto me p (write_lock_data me (lock_word_of p) s))"
    using inv me ok own
  proof (rule bakery_inv_move)
    fix j assume j: "j < n" "j \<noteq> me"
    then show "pair_ok (pc s j) j p me"
      using bakery_invD(4)[OF inv j(1) me] pair_ok_ticketed[OF same] by simp
  qed
  ultimately show ?thesis
    using goto_same_word[OF inv me] by simp
qed

lemma after_ticket_not_before:
  assumes "pc_ok n i p" and "t < 0x8000" and "i < n" and "j < n" and "n \<le> 256" and "i \<noteq> j"
    and "\<nexists>k u. p = Choosing k u"
    and "\<not> (ticket_of p \<noteq> 0 \<and> bakery_get_priority (ticket_of p) (of_nat i) < bakery_get_priority t (of_nat j))"
  shows "after_ticket t j p i"
  using assms ticket_of_bound[OF assms(1)]
  by (cases p) (auto simp: after_ticket_def ticket_of_def pc_ok_def priority_less_iff)

lemma compare_inv:
  assumes inv: "bakery_inv n s" and me: "me < n" and n: "n \<le> 256"
    and p: "pc s me = Comparing t they"
  shows "bakery_inv n (bakery_lock_get_compare n me t they s)"
proof -
  have ok: "they \<le> n" "0 < t" "t < 0x8000"
    using bakery_invD(2)[OF inv me] by (simp_all add: p pc_ok_def)
  have passed: "after_ticket t me (pc s i) i" if "i < n" "i \<noteq> me" "i < they" for i
    using bakery_invD(3)[OF inv that(1) me that(2)] that p by (simp add: pair_ok_def)
  note move = ticketed_move_inv[OF inv me, unfolded p]
  show ?thesis
  proof (cases "they < n")
    case False
    then have "bakery_lock_get_compare n me t they s = goto me (Holding t) s"
      by (simp add: bakery_lock_get_compare_def)
    moreover have "bakery_inv n (goto me (Holding t) s)"
      by (rule move) (use ok False passed in \<open>auto simp: ticket_of_def pc_ok_def pair_ok_def\<close>)
    ultimately show ?thesis by simp
  next
    case True
    have word: "lock_data s they = lock_word_of (pc s they)" "pc_ok n they (pc s they)"
      using bakery_invD(1,2)[OF inv True] by simp_all
    have advance: "bakery_inv n (goto me (Comparing t (Suc they)) s)"
      if "they \<noteq> me \<Longrightarrow> after_ticket t me (pc s they) they"
      by (rule move) (use ok True passed that in \<open>auto simp: ticket_of_def pc_ok_def pair_ok_def less_Suc_eq\<close>)
    have wait: "bakery_inv n (goto me (Waiting t they (ticket_of (pc s they))) s)"
      if "they \<noteq> me" "ticket_of (pc s they) \<noteq> 0"
        "bakery_get_priority (ticket_of (pc s they)) (of_nat they) < bakery_get_priority t (of_nat me)"
      by (rule move) (use ok True passed that in \<open>auto simp: ticket_of_def pc_ok_def pair_ok_def\<close>)
    show ?thesis
      using True word inv advance wait after_ticket_not_before[OF word(2) ok(3) True me n]
      by (auto simp: bakery_lock_get_compare_def Let_def)
  qed
qed

lemma wait_inv:
  assumes inv: "bakery_inv n s" and me: "me < n" and p: "pc s me = Waiting t they w"
  shows "bakery_inv n (bakery_lock_get_wait me t they w s)"
proof -
  have ok: "they < n" "they \<noteq> me" "0 < t" "t < 0x8000"
    using bakery_invD(2)[OF inv me] by (simp_all add: p pc_ok_def)
  have word: "lock_data s they = lock_word_of (pc s they)" "pc_ok n they (pc s they)"
    using bakery_invD(1,2)[OF inv ok(1)] by simp_all
  have pass: "pair_ok (Waiting t they w) me (pc s i) i" if "i < n" "i \<noteq> me" for i
    using bakery_invD(3)[OF inv that(1) me that(2)] p by simp
  have "bakery_inv n (goto me (Comparing t (Suc they)) s)" if "w \<noteq> ticket_of (pc s they)"
  proof (rule ticketed_move_inv[OF inv me])
    fix i assume "i < n" "i \<noteq> me"
    then show "pair_ok (Comparing t (Suc they)) me (pc s i) i"
      using pass that by (auto simp: pair_ok_def less_Suc_eq)
  qed (use ok in \<open>simp_all add: p ticket_of_def pc_ok_def\<close>)
  then show ?thesis
    using inv word by (simp add: bakery_lock_get_wait_def)
qed

lemma release_inv:
  assumes inv: "bakery_inv n s" and me: "me < n" and st: "bakery_lock_release me s = Some t"
  shows "bakery_inv n t"
proof -
  have "t = goto me Outside (write_lock_data me (lock_word_of Outside) s)"
    using st by (simp add: bakery_lock_release_def lock_word_of_def split: if_splits)
  moreover have "bakery_inv n (goto me Outside (write_lock_data me (lock_word_of Outside) s))"
  proof (rule bakery_inv_move[OF inv me])
    fix j assume "j < n" "j \<noteq> me"
    then show "pair_ok (pc s j) j Outside me"
      by (simp add: pair_ok_def after_ticket_def split: bakery_pc.splits)
  qed (simp_all add: pc_ok_def pair_ok_def)
  ultimately show ?thesis by simp
qed

lemma bakery_next_fits_inv:
  assumes "bakery_inv n s" and "n \<le> 256" and "bakery_next_fits n s t"
  shows "bakery_inv n t"
proof -
  from assms(3) obtain me where step: "bakery_step n me s = Some t" and fits: "ticket_fits (pc t me)"
    by (cases rule: bakery_next_fits.cases)
  from step have me: "me < n"
    by (simp add: bakery_step_def split: if_splits)
  show ?thesis
    using step fits me assms(1,2)
    by (cases "pc s me")
      (auto simp: bakery_step_def intro: enter_inv scan_inv compare_inv wait_inv release_inv)
qed

section \<open>Mutual exclusion\<close>

interpretation bakery: invariant_system
  bakery_init "bakery_next_fits n" "\<lambda>s. n \<le> 256 \<longrightarrow> bakery_inv n s" for n
  by unfold_locales (auto intro: bakery_init_inv bakery_next_fits_inv)

lemma reach_bakery_inv:
  "reach bakery_init (bakery_next_fits n) s \<Longrightarrow> n \<le> 256 \<Longrightarrow> bakery_inv n s"
  using bakery.reach_inv by blast

lemma bakery_inv_holding:
  assumes inv: "bakery_inv n s" and n: "n \<le> 256"
    and "i < n" and "j < n" and "pc s i = Holding t" and "pc s j = Holding u"
  shows "i = j"
proof (rule ccontr)
  assume ne: "i \<noteq> j"
  have "after_ticket t i (Holding u) j" and "after_ticket u j (Holding t) i"
    using bakery_invD(3)[OF inv, of i j] bakery_invD(3)[OF inv, of j i] assms(3-6) ne
    by (simp_all add: pair_ok_def)
  then show False
    by (simp add: after_ticket_def ticket_of_def)
qed

text \<open>
  A run of the lock under a given schedule of the cores, for evaluating concrete executions.
\<close>

fun bakery_run :: "nat \<Rightarrow> nat list \<Rightarrow> bakery_lock \<Rightarrow> bakery_lock option" where
  "bakery_run n [] s = Some s"
| "bakery_run n (me # sched) s =
     (case bakery_step n me s of
        None \<Rightarrow> None
      | Some t \<Rightarrow> if ticket_fits (pc t me) then bakery_run n sched t else None)"

lemma bakery_run_reach:
  "reach bakery_init (bakery_next_fits n) s \<Longrightarrow> bakery_run n sched s = Some t \<Longrightarrow>
   reach bakery_init (bakery_next_fits n) t"
proof (induction sched arbitrary: s)
  case (Cons me sched)
  then obtain u where "bakery_step n me s = Some u" "ticket_fits (pc u me)" "bakery_run n sched u = Some t"
    by (auto split: option.splits if_splits)
  then show ?case
    using Cons reach.reach_step bakery_next_fits.intros by meson
qed simp

definition bakery_zero :: bakery_lock where
  "bakery_zero = \<lparr>lock_data = \<lambda>_. 0, pc = \<lambda>_. Outside\<rparr>"

lemma bakery_init_zero: "bakery_init bakery_zero"
  by (simp add: bakery_init_def bakery_zero_def)

text \<open>Core 0 is in the critical section, core 1 waits for it.\<close>

lemmas bakery_eval = bakery_step_def bakery_zero_def bakery_get_ticket_enter_def
  bakery_get_ticket_scan_def bakery_lock_get_compare_def bakery_lock_get_wait_def
  bakery_lock_release_def goto_def write_lock_data_def ticket_fits_def Let_def
  bakery_ticket_number_def bakery_is_choosing_def make_bakery_data_def CHOOSING_TICKET_def
  CHOSEN_TICKET_def bakery_get_priority_def

lemma bakery_example_reach:
  "\<exists>s. reach bakery_init (bakery_next_fits 2) s \<and> pc s 0 = Holding 1 \<and> pc s 1 = Waiting 2 0 1"
proof -
  have "\<exists>s. bakery_run 2 [0,0,0,0,0,0,0,1,1,1,1,1] bakery_zero = Some s \<and>
      pc s 0 = Holding 1 \<and> pc s 1 = Waiting 2 0 1"
    by (simp add: bakery_eval)
  then show ?thesis
    using bakery_run_reach[OF reach.reach_init[of bakery_init, OF bakery_init_zero]] by blast
qed

text \<open>
  C20. Mutual exclusion of the bakery lock: however the accesses of up to 256 cores to the lock
  words interleave, two different cores never hold the lock at the same time, as long as no core
  ever scans a ticket of \<open>0x7FFF\<close>.
\<close>

theorem bakery_mutual_exclusion:
  assumes "reach bakery_init (bakery_next_fits n) s" and "n \<le> 256"
    and "i < n" and "j < n" and "pc s i = Holding t" and "pc s j = Holding u"
  shows "i = j"
  using bakery_inv_holding[OF reach_bakery_inv[OF assms(1,2)] assms(2-6)] .

theorem bakery_mutual_exclusion_witness:
  "\<exists>s. reach bakery_init (bakery_next_fits 2) s \<and> pc s 0 = Holding 1 \<and>
    (\<forall>j<2. \<forall>u. pc s j = Holding u \<longrightarrow> j = 0)"
proof -
  obtain s where s: "reach bakery_init (bakery_next_fits 2) s" "pc s 0 = Holding 1"
    using bakery_example_reach by blast
  then show ?thesis
    using bakery_mutual_exclusion[OF s(1), of _ 0] by fastforce
qed

section \<open>No assertion fires\<close>

lemma bakery_inv_no_assert:
  assumes inv: "bakery_inv n s" and me: "me < n"
  shows "\<exists>t. bakery_step n me s = Some t"
  using bakery_invD(1,2)[OF inv me] me
  by (cases "pc s me")
    (auto simp: bakery_step_def bakery_get_ticket_enter_def bakery_lock_release_def ticket_of_def pc_ok_def
      lock_word_of_def)

text \<open>
  C21. No assertion of the lock fires, for up to 256 cores and as long as no core ever scans a ticket of
  \<open>0x7FFF\<close>: in every state reached under these two bounds every core can take its next step,
  so a core never enters the lock with a ticket of its own left behind and a holder always finds
  its ticket when it releases.
\<close>

theorem bakery_no_assertion:
  assumes "reach bakery_init (bakery_next_fits n) s" and "n \<le> 256" and "me < n"
  shows "\<exists>t. bakery_step n me s = Some t"
  using bakery_inv_no_assert[OF reach_bakery_inv[OF assms(1,2)] assms(3)] .

theorem bakery_no_assertion_witness:
  "\<exists>s. reach bakery_init (bakery_next_fits 2) s \<and> pc s 0 = Holding 1 \<and>
     (\<forall>me<2. \<exists>t. bakery_step 2 me s = Some t)"
  using bakery_example_reach bakery_no_assertion[of 2] by fastforce

section \<open>Progress\<close>

definition in_line :: "bakery_pc \<Rightarrow> bool" where
  "in_line p = (case p of Comparing _ _ \<Rightarrow> True | Waiting _ _ _ \<Rightarrow> True | _ \<Rightarrow> False)"

lemma goto_pc [simp]: "pc (goto me p s) me = p" "pc (write_lock_data me d s) = pc s"
  by (simp_all add: goto_def write_lock_data_def)

lemma choosing_moves:
  assumes "me < n" and "pc s me = Choosing they t"
  shows "\<exists>u. bakery_step n me s = Some u \<and> pc u me \<noteq> pc s me"
  using assms by (auto simp: bakery_step_def bakery_get_ticket_scan_def Let_def)

lemma holding_moves:
  assumes inv: "bakery_inv n s" and "me < n" and "pc s me = Holding t"
  shows "\<exists>u. bakery_step n me s = Some u \<and> pc u me \<noteq> pc s me"
  using bakery_invD(1,2)[OF inv \<open>me < n\<close>] assms
  by (auto simp: bakery_step_def bakery_lock_release_def ticket_of_def pc_ok_def lock_word_of_def)

lemma least_priority_moves:
  assumes inv: "bakery_inv n s" and n: "n \<le> 256" and me: "me < n" "in_line (pc s me)"
    and none: "\<And>k. k < n \<Longrightarrow> pc s k = Outside \<or> in_line (pc s k)"
    and least: "\<And>k. k < n \<Longrightarrow> in_line (pc s k) \<Longrightarrow>
      \<not> bakery_get_priority (ticket_of (pc s k)) (of_nat k) < bakery_get_priority (ticket_of (pc s me)) (of_nat me)"
  shows "\<exists>u. bakery_step n me s = Some u \<and> pc u me \<noteq> pc s me"
proof (cases "pc s me")
  case (Comparing t they)
  have "\<not> bakery_is_choosing (ucast (lock_data s they))" if "they < n"
    using bakery_invD(1)[OF inv that] none[OF that] by (auto simp: in_line_def)
  moreover have "\<not> bakery_get_priority (bakery_ticket_number (ucast (lock_data s they))) (of_nat they)
      < bakery_get_priority t (of_nat me)" if "they < n" "bakery_ticket_number (ucast (lock_data s they)) \<noteq> 0"
    using bakery_invD(1,2)[OF inv that(1)] none[OF that(1)] least[OF that(1)] that(2) Comparing
    by (auto simp: ticket_of_def)
  ultimately show ?thesis
    using Comparing me by (auto simp: bakery_step_def bakery_lock_get_compare_def Let_def)
next
  case (Waiting t they w)
  have ok: "they < n" "w \<noteq> 0" "bakery_get_priority w (of_nat they) < bakery_get_priority t (of_nat me)"
    using bakery_invD(2)[OF inv me(1)] Waiting by (auto simp: pc_ok_def)
  have "ticket_of (pc s they) \<noteq> w"
    using none[OF ok(1)] least[OF ok(1)] ok(2,3) Waiting by (auto simp: ticket_of_def)
  then show ?thesis
    using Waiting me bakery_invD(1,2)[OF inv ok(1)] by (auto simp: bakery_step_def bakery_lock_get_wait_def)
qed (use me in \<open>auto simp: in_line_def\<close>)

lemma bakery_inv_progress:
  assumes inv: "bakery_inv n s" and n: "n \<le> 256" and i: "i < n" "pc s i \<noteq> Outside"
  shows "\<exists>me<n. pc s me \<noteq> Outside \<and> (\<exists>u. bakery_step n me s = Some u \<and> pc u me \<noteq> pc s me)"
proof (cases "\<exists>k<n. \<not> in_line (pc s k) \<and> pc s k \<noteq> Outside")
  case True
  then obtain k where "k < n" "\<not> in_line (pc s k)" "pc s k \<noteq> Outside" by blast
  then show ?thesis
    using choosing_moves holding_moves[OF inv]
    by (cases "pc s k") (auto simp: in_line_def)
next
  case False
  let ?prio = "\<lambda>k. bakery_get_priority (ticket_of (pc s k)) (of_nat k)"
  have "i < n \<and> in_line (pc s i)"
    using False i by blast
  then obtain me where "me < n \<and> in_line (pc s me)"
      "\<And>k. k < n \<and> in_line (pc s k) \<Longrightarrow> \<not> ?prio k < ?prio me"
    using ex_has_least_nat[of "\<lambda>k. k < n \<and> in_line (pc s k)" i "\<lambda>k. unat (?prio k)"]
    by (auto simp: word_less_nat_alt not_less)
  moreover from this have "\<exists>u. bakery_step n me s = Some u \<and> pc u me \<noteq> pc s me"
    using False by (intro least_priority_moves[OF inv n]) blast+
  moreover have "pc s me \<noteq> Outside"
    using calculation(1) by (auto simp: in_line_def)
  ultimately show ?thesis
    by blast
qed

text \<open>
  C22. Absence of deadlock, for up to 256 cores and as long as no core ever scans a ticket of
  \<open>0x7FFF\<close>: in every state reached under these two bounds, whenever some core is inside the lock
  code, some core inside it has a step that takes it further (no such state has all contenders spinning on
  each other).
\<close>

theorem bakery_deadlock_free:
  assumes "reach bakery_init (bakery_next_fits n) s" and "n \<le> 256"
    and "i < n" and "pc s i \<noteq> Outside"
  shows "\<exists>me<n. pc s me \<noteq> Outside \<and> (\<exists>t. bakery_step n me s = Some t \<and> pc t me \<noteq> pc s me)"
  using bakery_inv_progress[OF reach_bakery_inv[OF assms(1,2)] assms(2-4)] .

theorem bakery_deadlock_free_witness:
  "\<exists>s. reach bakery_init (bakery_next_fits 2) s \<and> pc s 1 = Waiting 2 0 1 \<and>
     (\<exists>me<2. pc s me \<noteq> Outside \<and> (\<exists>t. bakery_step 2 me s = Some t \<and> pc t me \<noteq> pc s me))"
  using bakery_example_reach bakery_deadlock_free[of 2 _ 1] by fastforce

section \<open>Refinement of an abstract mutex\<close>

text \<open>
  The promise of the lock to its clients: a mutex that is free or has one owner, which a core can take for
  itself when it is free, and which only its owner can free. The lock maps to it by the core that is in its
  critical section.
\<close>

inductive mutex_step :: "nat \<Rightarrow> nat option \<Rightarrow> nat option \<Rightarrow> bool" for me where
  mutex_acquire: "mutex_step me None (Some me)"
| mutex_release: "mutex_step me (Some me) None"

definition holds :: "bakery_pc \<Rightarrow> bool" where
  "holds p = (case p of Holding _ \<Rightarrow> True | _ \<Rightarrow> False)"

definition lock_holder :: "nat \<Rightarrow> bakery_lock \<Rightarrow> nat option" where
  "lock_holder n s = find (\<lambda>i. holds (pc s i)) [0..<n]"

lemma lock_holder_None: "lock_holder n s = None \<longleftrightarrow> (\<forall>i<n. \<not> holds (pc s i))"
  by (auto simp: lock_holder_def find_None_iff)

lemma lock_holder_Some:
  assumes "bakery_inv n s" and "n \<le> 256"
  shows "lock_holder n s = Some i \<longleftrightarrow> i < n \<and> holds (pc s i)"
proof -
  have uniq: "i = j" if "i < n" "j < n" "holds (pc s i)" "holds (pc s j)" for i j
    using bakery_inv_holding[OF assms] that by (auto simp: holds_def split: bakery_pc.splits)
  show ?thesis
    using uniq lock_holder_None[of n s]
    by (cases "lock_holder n s") (auto simp: lock_holder_def find_Some_iff)
qed

lemma step_other_pc: "bakery_step n me s = Some t \<Longrightarrow> i \<noteq> me \<Longrightarrow> pc t i = pc s i"
  by (auto simp: bakery_step_def bakery_get_ticket_enter_def bakery_get_ticket_scan_def
      bakery_lock_get_compare_def bakery_lock_get_wait_def bakery_lock_release_def goto_def
      write_lock_data_def Let_def split: bakery_pc.splits if_splits)

lemma bakery_step_mutex:
  assumes inv: "bakery_inv n s" "bakery_inv n t" "n \<le> 256" and st: "bakery_step n me s = Some t"
  shows "lock_holder n t = lock_holder n s \<or> mutex_step me (lock_holder n s) (lock_holder n t)"
proof -
  note S = lock_holder_Some[OF inv(1,3)] and T = lock_holder_Some[OF inv(2,3)]
  have me: "me < n"
    using st by (auto simp: bakery_step_def split: if_splits)
  have rel: "\<not> (holds (pc s me) \<and> holds (pc t me))"
    using st by (auto simp: bakery_step_def holds_def bakery_lock_release_def split: bakery_pc.splits if_splits)
  have other: "holds (pc t i) = holds (pc s i)" if "i \<noteq> me" for i
    using step_other_pc[OF st that] by simp
  consider (release) "holds (pc s me)" "\<not> holds (pc t me)" | (acquire) "holds (pc t me)" "\<not> holds (pc s me)"
    | (stutter) "holds (pc t me) = holds (pc s me)"
    using rel by blast
  then show ?thesis
  proof cases
    case release
    then have s: "lock_holder n s = Some me" 
      using S me by simp
    have "lock_holder n t = None"
      unfolding lock_holder_None using release s S other by (metis option.inject)
    then show ?thesis using s by (simp add: mutex_step.intros)
  next
    case acquire
    then have t: "lock_holder n t = Some me" 
      using T me by simp
    have "lock_holder n s = None"
      unfolding lock_holder_None using acquire t T other by (metis option.inject)
    then show ?thesis using t by (simp add: mutex_step.intros)
  next
    case stutter
    then have "(\<lambda>i. holds (pc t i)) = (\<lambda>i. holds (pc s i))"
      using other by metis
    then show ?thesis
      by (simp add: lock_holder_def)
  qed
qed

text \<open>
  C23. The bakery lock refines a mutex, for up to 256 cores and as long as no core ever scans a ticket of
  \<open>0x7FFF\<close>: from a state reached under these two bounds, a step of a core that keeps to them leaves the
  owner as it is, makes that core the owner of a free mutex, or is a release by that core, the owner.
\<close>

theorem bakery_refines_mutex:
  assumes reach: "reach bakery_init (bakery_next_fits n) s" and n: "n \<le> 256"
    and step: "bakery_step n me s = Some t" and fits: "ticket_fits (pc t me)"
  shows "lock_holder n t = lock_holder n s \<or> mutex_step me (lock_holder n s) (lock_holder n t)"
proof -
  have "bakery_next_fits n s t"
    using step fits by (rule bakery_next_fits.intros)
  then have "bakery_inv n s" "bakery_inv n t"
    using reach_bakery_inv[OF _ n] reach reach.reach_step[OF reach] by blast+
  then show ?thesis
    using bakery_step_mutex[OF _ _ n step] by blast
qed

theorem bakery_refines_mutex_witness:
  "\<exists>s t. reach bakery_init (bakery_next_fits 2) s \<and> bakery_step 2 0 s = Some t \<and> ticket_fits (pc t 0) \<and>
     lock_holder 2 s = Some 0 \<and> lock_holder 2 t = None \<and> mutex_step 0 (lock_holder 2 s) (lock_holder 2 t)"
proof -
  obtain s where s: "reach bakery_init (bakery_next_fits 2) s" "pc s 0 = Holding 1"
    using bakery_example_reach by blast
  then obtain t where t: "bakery_step 2 0 s = Some t"
    using bakery_inv_no_assert[OF reach_bakery_inv[OF s(1)], of 0] by auto
  then have out: "pc t 0 = Outside"
    using s(2) by (auto simp: bakery_step_def bakery_lock_release_def split: if_splits)
  then have fits: "ticket_fits (pc t 0)"
    by (simp add: ticket_fits_def)
  have hold: "lock_holder 2 s = Some 0"
    using lock_holder_Some[OF reach_bakery_inv[OF s(1)], of 0] s(2) by (simp add: holds_def)
  have "lock_holder 2 t \<noteq> Some 0"
    using lock_holder_Some[OF reach_bakery_inv[OF reach.reach_step[OF s(1) bakery_next_fits.intros[OF t fits]]], of 0] out
    by (simp add: holds_def)
  then have "mutex_step 0 (lock_holder 2 s) (lock_holder 2 t)"
    using bakery_refines_mutex[OF s(1) _ t fits] hold by auto
  moreover from this have "lock_holder 2 t = None"
    using hold by (auto elim: mutex_step.cases)
  ultimately show ?thesis
    using s(1) t fits hold by blast
qed

section \<open>When the tickets run out\<close>

text \<open>
  Two cores that always overlap hand the lock to each other with growing tickets. The state at a
  handover: one core holds ticket \<open>t\<close>, the other waits for it with \<open>t + 1\<close>.
\<close>

fun bakery_exec :: "nat \<Rightarrow> nat list \<Rightarrow> bakery_lock \<Rightarrow> bakery_lock option" where
  "bakery_exec n [] s = Some s"
| "bakery_exec n (me # sched) s =
     (case bakery_step n me s of None \<Rightarrow> None | Some t \<Rightarrow> bakery_exec n sched t)"

lemma bakery_exec_reach:
  "reach bakery_init (bakery_next n) s \<Longrightarrow> bakery_exec n sched s = Some t \<Longrightarrow>
   reach bakery_init (bakery_next n) t"
proof (induction sched arbitrary: s)
  case (Cons me sched)
  then obtain u where "bakery_step n me s = Some u" "bakery_exec n sched u = Some t"
    by (auto split: option.splits)
  then show ?case
    using Cons reach.reach_step bakery_next.intros by meson
qed simp

definition duo :: "u16 \<Rightarrow> u16 \<Rightarrow> bakery_pc \<Rightarrow> bakery_pc \<Rightarrow> bakery_lock" where
  "duo d0 d1 p0 p1 = \<lparr>lock_data = (\<lambda>_. 0)(0 := d0, 1 := d1), pc = (\<lambda>_. Outside)(0 := p0, 1 := p1)\<rparr>"

lemma bakery_zero_duo: "bakery_zero = duo 0 0 Outside Outside"
  by (simp add: duo_def bakery_zero_def fun_upd_idem)

lemma duo_simps [simp]:
  "lock_data (duo d0 d1 p0 p1) 0 = d0" "lock_data (duo d0 d1 p0 p1) (Suc 0) = d1"
  "pc (duo d0 d1 p0 p1) 0 = p0" "pc (duo d0 d1 p0 p1) (Suc 0) = p1"
  "goto 0 p (duo d0 d1 p0 p1) = duo d0 d1 p p1" "goto (Suc 0) p (duo d0 d1 p0 p1) = duo d0 d1 p0 p"
  "write_lock_data 0 d (duo d0 d1 p0 p1) = duo d d1 p0 p1"
  "write_lock_data (Suc 0) d (duo d0 d1 p0 p1) = duo d0 d p0 p1"
  by (auto simp: duo_def goto_def write_lock_data_def fun_upd_twist)

lemmas duo_exec = bakery_step_def bakery_get_ticket_enter_def
  bakery_get_ticket_scan_def bakery_lock_get_compare_def bakery_lock_get_wait_def
  bakery_lock_release_def Let_def

abbreviation chosen :: "u32 \<Rightarrow> u16" where
  "chosen t \<equiv> make_bakery_data CHOSEN_TICKET t"

definition handover0 :: "u32 \<Rightarrow> bakery_lock" where
  "handover0 t = duo (chosen t) (chosen (t + 1)) (Holding t) (Waiting (t + 1) 0 t)"
definition handover1 :: "u32 \<Rightarrow> bakery_lock" where
  "handover1 t = duo (chosen (t + 1)) (chosen t) (Waiting (t + 1) 1 t) (Holding t)"

lemma ticket_succ:
  fixes t :: u32
  assumes "0 < t" and "t < 0x7FFE"
  shows "t < 0x8000" "t + 1 < 0x8000" "t + 2 < 0x8000" "t + 1 < t + 2" "0 < t + 1" "t \<noteq> t + 2" "t \<noteq> 0" "t + 1 \<noteq> 0" "t + 2 \<noteq> 0"
  using assms by (auto simp: word_less_nat_alt unat_word_ariths word_unat_eq_iff)

lemma priority_duo:
  assumes "t < 0x8000" and "u < 0x8000" "t < u"
  shows "bakery_get_priority t 0 < bakery_get_priority u 1" "bakery_get_priority t 1 < bakery_get_priority u 0"
  using priority_less_iff[OF assms(1,2), of 0 1] priority_less_iff[OF assms(1,2), of 1 0] assms(3) by auto

lemma handover0_step:
  assumes "0 < t" and "t < 0x7FFE"
  shows "bakery_exec 2 [0,0,0,0,0,0,0,1,1,1] (handover0 t) = Some (handover1 (t + 1))"
  using ticket_succ[OF assms] priority_duo[of "t + 1" "t + 2"]
  by (simp add: handover0_def handover1_def duo_exec add.assoc)

lemma handover1_step:
  assumes "0 < t" and "t < 0x7FFE"
  shows "bakery_exec 2 [1,1,1,1,1,1,0,0] (handover1 t) = Some (handover0 (t + 1))"
  using ticket_succ[OF assms] priority_duo[of "t + 1" "t + 2"]
  by (simp add: handover0_def handover1_def duo_exec add.assoc)

lemma handover_reach:
  "k \<le> 16382 \<Longrightarrow> reach bakery_init (bakery_next 2) (handover0 (of_nat (2 * k + 1)))"
proof (induction k)
  case 0
  have "bakery_exec 2 [0,0,0,0,0,0,0,1,1,1,1,1] bakery_zero = Some (handover0 1)"
    using priority_duo[of 1 2] by (simp add: bakery_zero_duo handover0_def duo_exec)
  then have "reach bakery_init (bakery_next 2) (handover0 1)"
    by (rule bakery_exec_reach[OF reach.reach_init[of bakery_init, OF bakery_init_zero]])
  then show ?case
    by simp
next
  case (Suc k)
  let ?t = "of_nat (2 * k + 1) :: u32"
  have t: "0 < ?t" "?t < 0x7FFE" "0 < ?t + 1" "?t + 1 < 0x7FFE" 
    using Suc.prems by (auto simp: word_less_nat_alt unat_of_nat unat_word_ariths)
  have "reach bakery_init (bakery_next 2) (handover0 (?t + 1 + 1))"
    using bakery_exec_reach[OF bakery_exec_reach[OF _ handover0_step[OF t(1,2)]] handover1_step[OF t(3,4)]] Suc
    by simp
  moreover have "?t + 1 + 1 = of_nat (2 * Suc k + 1)"
    by simp
  ultimately show ?case
    by metis
qed

lemma u16_wrap: "(0x10000 :: u16) = 0"
  by (simp add: word_eq_iff_unsigned)

lemma overflow_run:
  "bakery_exec 2 ([1,1,1,1,1,1] @ [0,0,0] @ [1,1,1] @ [0,0,0,0,0,0,0]) (handover1 0x7FFE)
     = Some (duo (chosen 1) 0 (Holding 1) (Holding 0x8000))"
  by (simp add: handover1_def duo_exec bakery_ticket_number_def bakery_is_choosing_def make_bakery_data_def CHOOSING_TICKET_def
  CHOSEN_TICKET_def bakery_get_priority_def u16_wrap)

text \<open>
  C24. The bound on the tickets is needed: with the 15-bit tickets of the code, two cores that hand
  the lock over without a pause get to a state in which both are in the critical section, the
  published lock word of one of them being 0, and its release then fails its assertion.
\<close>

theorem bakery_ticket_overflow:
  "\<exists>s. reach bakery_init (bakery_next 2) s \<and> pc s 0 = Holding 1 \<and> pc s 1 = Holding 0x8000 \<and>
     bakery_step 2 1 s = None"
proof -
  have "reach bakery_init (bakery_next 2) (handover0 0x7FFD)"
    using handover_reach[of 16382] by simp
  then have "reach bakery_init (bakery_next 2) (handover1 0x7FFE)"
    using bakery_exec_reach[OF _ handover0_step[of "0x7FFD"]] by simp
  then have "reach bakery_init (bakery_next 2) (duo (chosen 1) 0 (Holding 1) (Holding 0x8000))"
    by (rule bakery_exec_reach) (rule overflow_run)
  then show ?thesis
    by (intro exI[of _ "duo (chosen 1) 0 (Holding 1) (Holding 0x8000)"]) (simp add: duo_exec)
qed
end
