(* ===== verification/Spec2Isabelle.thy ===== *)
theory Spec2Isabelle
  imports Psci_Interface Runtime_Svc Ehf Bl1_Fwu Bakery_Lock
begin

text \<open>
  A verification library for the runtime core of Trusted Firmware-A, the secure monitor that runs at EL3 of an
  AArch64 system. It models the parts that decide who runs, with which power, in which world and on whose
  authority, and leaves the drivers and platform ports as parameters.

  \<^bold>\<open>The program.\<close> After reset, BL1 may run a firmware update, in which the normal world hands images over to be
  copied, authenticated and executed. Then BL31 stays resident. An exception from a lower level enters its dispatcher,
  which gives an SMC to the runtime service that owns it and an interrupt to the handler registered for its type.
  PSCI is the service by which the normal world turns cores on and off and suspends them; it keeps the power-domain tree
  of the platform and coordinates what the cores ask for. The exception handling framework shares the
  interrupt priorities between the dispatchers at EL3 and the normal world. The bakery lock serialises the cores
  whose caches are off.

  \<^bold>\<open>Conventions.\<close> A struct is a record with the fields of the source, an enumeration a datatype, a machine integer a
  word of its width. An operation takes the state and returns an \<open>outcome\<close>: \<open>Ret v s\<close> when it returns, \<open>Wfi s\<close>
  when the core has parked itself to wait for an interrupt, and \<open>Halt\<close> when an assertion fails or the code panics: the
  model is that of builds with assertions. Loops are structural recursions on the number of rounds that are left,
  which is known on entry; no fuel is involved, and every operation is a total function. Code that is not modelled (the
  hooks of a platform port, its constants and build options, the registers it reads, the authentication module, the
  runtime services behind the dispatcher) is a record of parameters, the first argument of the operations. Memory is
  coherent and accesses are in program order; cache maintenance, barriers, debug output and instrumentation are left out.

  \<^bold>\<open>Prelude\<close> has the word types, the outcome and its bind, the reachable states of a transition system, and two
  interfaces as locales: an invariant kept by every step, and a refinement in which each step, with the event that
  makes it, is a step of an abstract machine. Every state machine below interprets the first one; the PSCI system
  interprets the second.

  \<^bold>\<open>Bakery_Lock\<close> models \<open>lib/locks/bakery/bakery_lock_coherent.c\<close> at the grain of single accesses to the shared lock
  words, under every interleaving of up to 256 cores. It shows mutual exclusion, that no assertion fires, that the
  cores never all wait for one another, and that the lock is a mutex taken and freed by its owner, all as long as
  no ticket of \<open>0x7FFF\<close> is scanned; and it shows that without this bound two cores do enter together.

  \<^bold>\<open>The PSCI theories\<close> model \<open>lib/psci\<close>. \<open>Psci_Types\<close> has the data of \<open>psci.h\<close> and \<open>psci_private.h\<close>, the platform
  port as a record of parameters, and the state of the service with the trace of its lock operations.
  \<open>Psci_Common\<close> has \<open>psci_common.c\<close>; \<open>Psci_Stat\<close> has \<open>psci_stat.c\<close>; \<open>Psci_Power\<close> has \<open>psci_on.c\<close>, \<open>psci_off.c\<close>,
  \<open>psci_suspend.c\<close> and the warm boot; \<open>Psci_Main\<close> has \<open>psci_main.c\<close>, \<open>psci_system_off.c\<close> and
  \<open>psci_mem_protect.c\<close> with the SMC dispatcher; \<open>Psci_Setup\<close> has \<open>psci_setup.c\<close>. The proofs are layered.
  \<open>Psci_Topology\<close> has what a well-formed tree is and what the loops over a core's ancestors do; \<open>Psci_Tree\<close> shows
  that the cold boot builds such a tree from every valid description. \<open>Psci_Coord\<close> has the contract of the platform's
  coordination function as a locale, interpreted on the default one of \<open>plat/common/plat_psci_common.c\<close>, and the
  correctness of the coordination. \<open>Psci_Frame\<close> and \<open>Psci_Locks\<close> have what the operations leave alone and the order of
  the locks. \<open>Psci_Effects\<close> shows, for each call of the dispatcher, the few changes it can make.
  \<open>Psci_System\<close> puts the cores together: in use, asleep, pending or off, they make calls with any arguments, wake up and
  boot in any order. Its properties are the invariant of the power state, that the domains above a running core are
  powered, the discipline of the locks, the refinement of the affinity machine the normal world sees, and that a
  successful CPU_ON delivers its target to the entry point that was asked for. They are about builds without
  OS-initiated mode (in the other mode the invariant fails, for the reason given with the findings) and about calls
  that run one after the other: a call is one step, from the entry of the core to its return or its \<open>wfi\<close>.
  \<open>Psci_Interface\<close> has what a caller sees: the power-state parameter, the features, the answers of CPU_ON in their order,
  and the refusal of an OS-initiated suspend.

  \<^bold>\<open>Runtime_Svc\<close> models \<open>common/runtime_svc.c\<close>: the descriptors of the services and the table of their indices, and
  the dispatch of SMCs, interrupts, trapped instructions and external aborts. It shows that after a successful
  initialisation each SMC reaches the one service that owns it and no other.

  \<^bold>\<open>Interrupt_Mgmt\<close> models \<open>bl31/interrupt_mgmt.c\<close>: the handler and routing model of each interrupt type, and the
  routing bits that the copies of \<open>SCR_EL3\<close> hold. \<^bold>\<open>Ehf\<close> models \<open>bl31/ehf.c\<close> above it: activation of
  priorities as a stack, the priority mask, the moves between the worlds, and the dispatch of EL3 interrupts.

  \<^bold>\<open>Bl1_Fwu\<close> models \<open>bl1/bl1_fwu.c\<close>: copying, authentication, execution, resumption and reset of images, with
  memory as a map from addresses to bytes. It shows that an image that is executed where it was copied to consists
  of bytes that passed authentication, and that the images in memory do not overlap, in runs in which the worlds
  leave authenticated images alone and no image with the size of an earlier copy is authenticated in place; what the code
  does in the latter case is shown too.

  \<^bold>\<open>Not modelled.\<close> The assembly entry points and the context switch, the services other than PSCI (SDEI, the secure
  partition and realm managers, the Secure Payload Dispatchers), the translation tables, the image loading and
  authentication of the trusted boot, the drivers, the platform ports, the C library, the compression and
  device-tree libraries and the host tools. They do input and output, belong to one device, or are large programs of
  their own; where a modelled part calls one of them, the call is a parameter.
\<close>

end
